theory Spec2Isabelle
  imports Complex_Main "HOL-Library.Signed_Division" "HOL-Library.Product_Lexorder"
    "HOL-Library.Log_Nat"
begin

section \<open>common.hpp: map and geometry\<close>

text \<open>
  C++ \<open>int\<close> values are modelled as unbounded \<open>int\<close>; no quantity of the game comes
  near the 32-bit limits. C++ \<open>/\<close> and \<open>%\<close> on \<open>int\<close> truncate towards zero: they are
  \<open>sdiv\<close> and \<open>smod\<close>. C++ \<open>double\<close> values (pheromone, tower speed, refund ratio)
  are IEEE 754 binary64 numbers, see the section on \<open>double\<close> arithmetic below.
\<close>

definition MAX_ROUND :: int where
  "MAX_ROUND = 512"

definition EDGE :: int where
  "EDGE = 10"

definition MAP_SIZE :: int where
  "MAP_SIZE = 2 * EDGE - 1"

text \<open>\<open>enum PointType\<close>: Void = -1, Path = 0, Barrier = 1, Player0Highland = 2, Player1Highland = 3.\<close>

definition Void :: int where "Void = -1"
definition Path :: int where "Path = 0"
definition Barrier :: int where "Barrier = 1"
definition Player0Highland :: int where "Player0Highland = 2"
definition Player1Highland :: int where "Player1Highland = 3"

definition MAP_PROPERTY :: "int list list" where
  "MAP_PROPERTY = [
    [-1, -1, -1, -1, -1, -1, -1, -1, 0, 1, 0, -1, -1, -1, -1, -1, -1, -1, -1],
    [-1, -1, -1, -1, -1, -1, 0, 0, 1, 0, 1, 0, 0, -1, -1, -1, -1, -1, -1],
    [-1, -1, -1, -1, 0, 0, 0, 1, 1, 0, 1, 1, 0, 0, 0, -1, -1, -1, -1],
    [-1, -1, 0, 0, 0, 1, 1, 0, 0, 0, 0, 0, 1, 1, 0, 0, 0, -1, -1],
    [0, 0, 2, 2, 0, 1, 0, 0, 0, 2, 0, 0, 0, 1, 0, 2, 2, 0, 0],
    [0, 0, 0, 2, 0, 0, 2, 2, 0, 2, 0, 2, 2, 0, 0, 2, 0, 0, 0],
    [0, 2, 2, 0, 2, 0, 0, 2, 0, 2, 0, 2, 0, 0, 2, 0, 2, 2, 0],
    [0, 2, 0, 0, 0, 2, 0, 0, 2, 0, 2, 0, 0, 2, 0, 0, 0, 2, 0],
    [0, 0, 2, 0, 2, 0, 0, 2, 0, 0, 0, 2, 0, 0, 2, 0, 2, 0, 0],
    [0, 1, 3, 0, 3, 1, 0, 1, 0, 1, 0, 1, 0, 1, 3, 0, 3, 1, 0],
    [0, 0, 0, 0, 0, 0, 0, 3, 3, 0, 3, 3, 0, 0, 0, 0, 0, 0, 0],
    [0, 3, 3, 0, 3, 3, 0, 0, 0, 0, 0, 0, 0, 3, 3, 0, 3, 3, 0],
    [0, 3, 0, 0, 0, 0, 3, 3, 0, 3, 0, 3, 3, 0, 0, 0, 0, 3, 0],
    [0, 0, 3, 3, 0, 0, 0, 3, 0, 3, 0, 3, 0, 0, 0, 3, 3, 0, 0],
    [-1, 0, 0, 3, 0, 1, 1, 0, 0, 3, 0, 0, 1, 1, 0, 3, 0, 0, -1],
    [-1, -1, -1, 0, 0, 1, 0, 0, 1, 0, 1, 0, 0, 1, 0, 0, -1, -1, -1],
    [-1, -1, -1, -1, -1, 0, 0, 1, 1, 0, 1, 1, 0, 0, -1, -1, -1, -1, -1],
    [-1, -1, -1, -1, -1, -1, -1, 0, 0, 0, 0, 0, -1, -1, -1, -1, -1, -1, -1],
    [-1, -1, -1, -1, -1, -1, -1, -1, -1, 1, -1, -1, -1, -1, -1, -1, -1, -1, -1]]"

text \<open>
  \<open>OFFSET[parity][direction]\<close>: the coordinate offsets of the six neighbours, for even
  and for odd \<open>y\<close>.
\<close>

definition OFFSET :: "(int \<times> int) list list" where
  "OFFSET = [[(0, 1), (-1, 0), (0, -1), (1, -1), (1, 0), (1, 1)],
             [(-1, 1), (-1, 0), (-1, -1), (0, -1), (1, 0), (0, 1)]]"

text \<open>\<open>OFFSET[y % 2][i]\<close>; the row index is read only for \<open>y % 2\<close> in \<open>{0, 1}\<close>.\<close>

definition offset :: "int \<Rightarrow> nat \<Rightarrow> int \<times> int" where
  "offset y i = OFFSET ! nat (y smod 2) ! i"

definition distance :: "int \<Rightarrow> int \<Rightarrow> int \<Rightarrow> int \<Rightarrow> int" where
  "distance x0 y0 x1 y1 =
     (let dy = \<bar>y0 - y1\<bar>;
          dx = (if \<bar>y0 - y1\<bar> smod 2 \<noteq> 0
                then (if x0 > x1
                      then max 0 (\<bar>x0 - x1\<bar> - \<bar>y0 - y1\<bar> sdiv 2 - (y0 smod 2))
                      else max 0 (\<bar>x0 - x1\<bar> - \<bar>y0 - y1\<bar> sdiv 2 - (1 - (y0 smod 2))))
                else max 0 (\<bar>x0 - x1\<bar> - \<bar>y0 - y1\<bar> sdiv 2))
      in dx + dy)"

definition is_valid_pos :: "int \<Rightarrow> int \<Rightarrow> bool" where
  "is_valid_pos x y =
     (if x < 0 \<or> x \<ge> MAP_SIZE \<or> y < 0 \<or> y \<ge> MAP_SIZE then False
      else MAP_PROPERTY ! nat x ! nat y \<noteq> Void)"

definition is_path :: "int \<Rightarrow> int \<Rightarrow> bool" where
  "is_path x y =
     (if x < 0 \<or> x \<ge> MAP_SIZE \<or> y < 0 \<or> y \<ge> MAP_SIZE then False
      else MAP_PROPERTY ! nat x ! nat y = Path)"

definition is_highland :: "int \<Rightarrow> int \<Rightarrow> int \<Rightarrow> bool" where
  "is_highland player x y =
     (if x < 0 \<or> x \<ge> MAP_SIZE \<or> y < 0 \<or> y \<ge> MAP_SIZE then False
      else MAP_PROPERTY ! nat x ! nat y
             = (if player = 0 then Player0Highland else Player1Highland))"

text \<open>The cell reached from \<open>(x, y)\<close> by one step in direction \<open>i\<close>.\<close>

definition neighbor :: "int \<Rightarrow> int \<Rightarrow> nat \<Rightarrow> int \<times> int" where
  "neighbor x y i = (x + fst (offset y i), y + snd (offset y i))"

section \<open>The arithmetic of \<open>double\<close>\<close>

text \<open>
  A \<open>double\<close> is an IEEE 754 binary64 number and is modelled by the real number it
  denotes. Every operation on doubles is the exact operation on reals followed by
  \<open>to_double\<close>, the rounding to the nearest representable number in the default
  rounding mode (to nearest, ties to even): for \<open>2^e \<le> |x| < 2^(e+1)\<close> the representable
  numbers are the multiples of \<open>2^(e-52)\<close>, and below \<open>2^-1022\<close> (the subnormal range) the
  multiples of \<open>2^-1074\<close>. A literal that is not representable, such as \<open>0.97\<close>,
  denotes its rounding. The conversion of an \<open>int\<close> to \<open>double\<close> is exact. Infinities
  and NaN are not modelled: \<open>to_double\<close> is the rounding of the machine for magnitudes
  below \<open>2^1024\<close>, which no quantity of the game comes near.
\<close>

text \<open>The integer nearest to \<open>y\<close>; a tie goes to the even neighbour.\<close>

definition round_half_even :: "real \<Rightarrow> int" where
  "round_half_even y =
     (let n = \<lfloor>y\<rfloor>; r = y - of_int n
      in if r < 1 / 2 then n else if 1 / 2 < r then n + 1 else if even n then n else n + 1)"

text \<open>The binary exponent of \<open>x > 0\<close>: the \<open>e\<close> with \<open>2^e \<le> x < 2^(e+1)\<close>.\<close>

definition exponent :: "real \<Rightarrow> int" where
  "exponent x =
     (if 1 \<le> x then bitlen \<lfloor>x\<rfloor> - 1
      else (let j = bitlen \<lfloor>1 / x\<rfloor> - 1 in if x = 2 powi (- j) then - j else - j - 1))"

definition to_double :: "real \<Rightarrow> real" where
  "to_double x =
     (if x = 0 then 0
      else (let e = max (exponent \<bar>x\<bar>) (- 1022); ulp = 2 powi (e - 52)
            in sgn x * of_int (round_half_even (\<bar>x\<bar> / ulp)) * ulp))"

section \<open>common.hpp: coins and pheromone constants\<close>

definition COIN_INIT :: int where "COIN_INIT = 50"
definition BASIC_INCOME :: int where "BASIC_INCOME = 1"
definition TOWER_BUILD_PRICE_BASE :: int where "TOWER_BUILD_PRICE_BASE = 15"
definition TOWER_BUILD_PRICE_RATIO :: int where "TOWER_BUILD_PRICE_RATIO = 2"
definition LEVEL2_TOWER_UPGRADE_PRICE :: int where "LEVEL2_TOWER_UPGRADE_PRICE = 60"
definition LEVEL3_TOWER_UPGRADE_PRICE :: int where "LEVEL3_TOWER_UPGRADE_PRICE = 200"
definition TOWER_DOWNGRADE_REFUND_RATIO :: real where "TOWER_DOWNGRADE_REFUND_RATIO = to_double (8 / 10)"
definition LEVEL2_BASE_UPGRADE_PRICE :: int where "LEVEL2_BASE_UPGRADE_PRICE = 200"
definition LEVEL3_BASE_UPGRADE_PRICE :: int where "LEVEL3_BASE_UPGRADE_PRICE = 250"

definition PHEROMONE_INIT :: real where "PHEROMONE_INIT = 10"
definition PHEROMONE_MIN :: real where "PHEROMONE_MIN = 0"
definition PHEROMONE_ATTENUATING_RATIO :: real where "PHEROMONE_ATTENUATING_RATIO = to_double (97 / 100)"

text \<open>The conversion of a \<open>double\<close> to \<open>int\<close> drops the fractional part.\<close>

definition trunc :: "real \<Rightarrow> int" where
  "trunc r = (if 0 \<le> r then \<lfloor>r\<rfloor> else \<lceil>r\<rceil>)"

text \<open>The C++ \<open>!player\<close> on an \<open>int\<close>: 1 for 0, and 0 for everything else.\<close>

definition lnot :: "int \<Rightarrow> int" where
  "lnot p = (if p = 0 then 1 else 0)"

section \<open>common.hpp: ants\<close>

datatype AntState = Alive | Success | Fail | TooOld | Frozen

fun ant_state_code :: "AntState \<Rightarrow> int" where
  "ant_state_code Alive = 0"
| "ant_state_code Success = 1"
| "ant_state_code Fail = 2"
| "ant_state_code TooOld = 3"
| "ant_state_code Frozen = 4"

record Ant =
  a_id :: int
  a_player :: int
  a_x :: int
  a_y :: int
  a_hp :: int
  a_level :: int
  a_age :: int
  a_state :: AntState
  a_path :: "int list"
  a_evasion :: int
  a_deflector :: bool

definition AGE_LIMIT :: int where "AGE_LIMIT = 32"
definition MAX_HP_INFO :: "int list" where "MAX_HP_INFO = [10, 25, 50]"
definition REWARD_INFO :: "int list" where "REWARD_INFO = [3, 5, 7]"

text \<open>
  The constructor \<open>Ant(id, player, x, y, hp, level, age, state)\<close>. It leaves \<open>deflector\<close>
  uninitialised; \<open>attack_ants\<close> writes the flag before every read, and the model starts
  it at \<open>False\<close>.
\<close>

definition Ant_new :: "int \<Rightarrow> int \<Rightarrow> int \<Rightarrow> int \<Rightarrow> int \<Rightarrow> int \<Rightarrow> int \<Rightarrow> AntState \<Rightarrow> Ant" where
  "Ant_new i player x y hp level age st =
     \<lparr>a_id = i, a_player = player, a_x = x, a_y = y, a_hp = hp, a_level = level,
      a_age = age, a_state = st, a_path = [], a_evasion = 0, a_deflector = False\<rparr>"

text \<open>\<open>Ant::move\<close>: both coordinate updates read \<open>OFFSET[y % 2]\<close> before \<open>y\<close> changes.\<close>

definition move :: "Ant \<Rightarrow> int \<Rightarrow> Ant" where
  "move ant direction =
     ant\<lparr>a_path := a_path ant @ [direction],
         a_x := a_x ant + fst (offset (a_y ant) (nat direction)),
         a_y := a_y ant + snd (offset (a_y ant) (nat direction))\<rparr>"

definition max_hp :: "Ant \<Rightarrow> int" where
  "max_hp ant = MAX_HP_INFO ! nat (a_level ant)"

definition reward :: "Ant \<Rightarrow> int" where
  "reward ant = REWARD_INFO ! nat (a_level ant)"

definition is_alive :: "Ant \<Rightarrow> bool" where
  "is_alive ant \<longleftrightarrow> a_state ant = Alive \<or> a_state ant = Frozen"

definition is_in_range :: "Ant \<Rightarrow> int \<Rightarrow> int \<Rightarrow> int \<Rightarrow> bool" where
  "is_in_range ant x y rng \<longleftrightarrow> distance (a_x ant) (a_y ant) x y \<le> rng"

definition is_attackable_from :: "Ant \<Rightarrow> int \<Rightarrow> int \<Rightarrow> int \<Rightarrow> int \<Rightarrow> bool" where
  "is_attackable_from ant player x y rng \<longleftrightarrow>
     a_player ant \<noteq> player \<and> is_alive ant \<and> is_in_range ant x y rng"

section \<open>common.hpp: towers\<close>

datatype TowerType =
    Basic
  | Heavy | HeavyPlus | Ice | Cannon
  | Quick | QuickPlus | Double | Sniper
  | Mortar | MortarPlus | Pulse | Missile

fun tower_type_code :: "TowerType \<Rightarrow> int" where
  "tower_type_code Basic = 0"
| "tower_type_code Heavy = 1"
| "tower_type_code HeavyPlus = 11"
| "tower_type_code Ice = 12"
| "tower_type_code Cannon = 13"
| "tower_type_code Quick = 2"
| "tower_type_code QuickPlus = 21"
| "tower_type_code Double = 22"
| "tower_type_code Sniper = 23"
| "tower_type_code Mortar = 3"
| "tower_type_code MortarPlus = 31"
| "tower_type_code Pulse = 32"
| "tower_type_code Missile = 33"

text \<open>
  \<open>TOWER_INFO[type]\<close> as \<open>(attack, speed, range)\<close>. The padding entries of the array
  belong to no member of the enumeration.
\<close>

fun TOWER_INFO :: "TowerType \<Rightarrow> int \<times> real \<times> int" where
  "TOWER_INFO Basic = (5, 2, 2)"
| "TOWER_INFO Heavy = (15, 2, 2)"
| "TOWER_INFO Quick = (6, 1, 3)"
| "TOWER_INFO Mortar = (16, 4, 3)"
| "TOWER_INFO HeavyPlus = (35, 2, 2)"
| "TOWER_INFO Ice = (15, 2, 2)"
| "TOWER_INFO Cannon = (50, 4, 3)"
| "TOWER_INFO QuickPlus = (8, 1 / 2, 3)"
| "TOWER_INFO Double = (10, 1, 4)"
| "TOWER_INFO Sniper = (13, 2, 6)"
| "TOWER_INFO MortarPlus = (35, 4, 4)"
| "TOWER_INFO Pulse = (30, 3, 2)"
| "TOWER_INFO Missile = (45, 6, 5)"

definition info_attack :: "int \<times> real \<times> int \<Rightarrow> int" where "info_attack ti = fst ti"
definition info_speed :: "int \<times> real \<times> int \<Rightarrow> real" where "info_speed ti = fst (snd ti)"
definition info_range :: "int \<times> real \<times> int \<Rightarrow> int" where "info_range ti = snd (snd ti)"

record Tower =
  t_id :: int
  t_player :: int
  t_x :: int
  t_y :: int
  t_type :: TowerType
  t_damage :: int
  t_range :: int
  t_cd :: int
  t_speed :: real

definition reset_cd :: "Tower \<Rightarrow> Tower" where
  "reset_cd t = t\<lparr>t_cd := (if t_speed t > 1 then trunc (t_speed t) else 1)\<rparr>"

definition upgrade :: "Tower \<Rightarrow> TowerType \<Rightarrow> Tower" where
  "upgrade t new_type =
     reset_cd (t\<lparr>t_type := new_type,
                 t_damage := info_attack (TOWER_INFO new_type),
                 t_speed := info_speed (TOWER_INFO new_type),
                 t_range := info_range (TOWER_INFO new_type)\<rparr>)"

text \<open>
  The constructor \<open>Tower(id, player, x, y, type, cd)\<close>: it ends with \<open>upgrade(type)\<close>,
  which resets the cooldown whatever \<open>cd\<close> was passed.
\<close>

definition Tower_new :: "int \<Rightarrow> int \<Rightarrow> int \<Rightarrow> int \<Rightarrow> TowerType \<Rightarrow> int \<Rightarrow> Tower" where
  "Tower_new i player x y ty cd =
     upgrade \<lparr>t_id = i, t_player = player, t_x = x, t_y = y, t_type = ty,
              t_damage = 0, t_range = 0, t_cd = cd, t_speed = 0\<rparr> ty"

text \<open>\<open>Tower::is_upgrade_type_valid(int type)\<close>, on the integer code of the target type.\<close>

definition is_upgrade_type_valid :: "Tower \<Rightarrow> int \<Rightarrow> bool" where
  "is_upgrade_type_valid t ty =
     (if ty < tower_type_code Basic \<or> ty > tower_type_code Missile then False
      else (case t_type t of
              Basic \<Rightarrow> ty = tower_type_code Heavy \<or> ty = tower_type_code Quick
                         \<or> ty = tower_type_code Mortar
            | Heavy \<Rightarrow> ty = tower_type_code HeavyPlus \<or> ty = tower_type_code Ice
                         \<or> ty = tower_type_code Cannon
            | Quick \<Rightarrow> ty = tower_type_code QuickPlus \<or> ty = tower_type_code Double
                         \<or> ty = tower_type_code Sniper
            | Mortar \<Rightarrow> ty = tower_type_code MortarPlus \<or> ty = tower_type_code Pulse
                         \<or> ty = tower_type_code Missile
            | _ \<Rightarrow> False))"

definition is_downgrade_valid :: "Tower \<Rightarrow> bool" where
  "is_downgrade_valid t \<longleftrightarrow> t_type t \<noteq> Basic"

text \<open>\<open>Tower::action\<close>: the effect of one hit on one ant.\<close>

definition action :: "Tower \<Rightarrow> Ant \<Rightarrow> Ant" where
  "action t ant =
     (if a_evasion ant > 0 then ant\<lparr>a_evasion := a_evasion ant - 1\<rparr>
      else if a_deflector ant \<and> t_damage t < max_hp ant sdiv 2 then ant
      else
        (let ant1 = ant\<lparr>a_hp := a_hp ant - t_damage t\<rparr>;
             ant2 = (if t_type t = Ice then ant1\<lparr>a_state := Frozen\<rparr> else ant1)
         in (if a_hp ant2 \<le> 0 then ant2\<lparr>a_state := Fail\<rparr> else ant2)))"

text \<open>Indexes into the ant vector are natural numbers.\<close>

definition get_attackable_ants :: "Tower \<Rightarrow> Ant list \<Rightarrow> int \<Rightarrow> int \<Rightarrow> int \<Rightarrow> nat list" where
  "get_attackable_ants t ants x y rng =
     filter (\<lambda>i. is_attackable_from (ants ! i) (t_player t) x y rng) [0..<length ants]"

text \<open>
  \<open>Tower::find_targets\<close>: the comparator orders by distance to the tower and then by
  index, a strict total order on the indexes, so the first \<open>target_num\<close> elements after
  \<open>std::partial_sort\<close> are the first elements of the sorted sequence.
\<close>

definition find_targets :: "Tower \<Rightarrow> Ant list \<Rightarrow> nat \<Rightarrow> nat list" where
  "find_targets t ants target_num =
     take target_num
       (sort_key (\<lambda>i. (distance (a_x (ants ! i)) (a_y (ants ! i)) (t_x t) (t_y t), i))
          (get_attackable_ants t ants (t_x t) (t_y t) (t_range t)))"

definition find_attackable :: "Tower \<Rightarrow> Ant list \<Rightarrow> nat list \<Rightarrow> nat list" where
  "find_attackable t ants target_idxs =
     concat (map (\<lambda>idx.
       (case t_type t of
          Mortar \<Rightarrow> get_attackable_ants t ants (a_x (ants ! idx)) (a_y (ants ! idx)) 1
        | MortarPlus \<Rightarrow> get_attackable_ants t ants (a_x (ants ! idx)) (a_y (ants ! idx)) 1
        | Pulse \<Rightarrow> get_attackable_ants t ants (t_x t) (t_y t) (t_range t)
        | Missile \<Rightarrow> get_attackable_ants t ants (a_x (ants ! idx)) (a_y (ants ! idx)) 2
        | _ \<Rightarrow> [idx])) target_idxs)"

text \<open>
  The body of \<open>while (time--)\<close> in \<open>Tower::attack\<close>, run \<open>time\<close> times: find the targets,
  expand them, hit every affected ant in order, and collect the indexes.
\<close>

fun attack_rounds :: "Tower \<Rightarrow> nat \<Rightarrow> nat \<Rightarrow> Ant list \<Rightarrow> nat list \<Rightarrow> Ant list \<times> nat list" where
  "attack_rounds t target_num 0 ants attacked_idxs = (ants, attacked_idxs)"
| "attack_rounds t target_num (Suc time) ants attacked_idxs =
     (let target_idxs = find_targets t ants target_num;
          attackable_idxs = find_attackable t ants target_idxs;
          ants' = fold (\<lambda>idx as. as[idx := action t (as ! idx)]) attackable_idxs ants
      in attack_rounds t target_num time ants' (attacked_idxs @ attackable_idxs))"

text \<open>
  \<open>Tower::attack\<close> returns the attacked indexes (sorted, without repetition) and
  changes the tower and the ants; the model returns all three.
\<close>

definition attack :: "Tower \<Rightarrow> Ant list \<Rightarrow> nat list \<times> Tower \<times> Ant list" where
  "attack t ants =
     (let t1 = t\<lparr>t_cd := max (t_cd t - 1) 0\<rparr>
      in if t_cd t1 \<le> 0
         then
           (let time = (if t_speed t1 \<ge> 1 then 1 else trunc (to_double (1 / t_speed t1)));
                target_num = (if t_type t1 = Double then 2 else 1);
                (ants', idxs) = attack_rounds t1 target_num (nat time) ants [];
                attacked_idxs = remdups_adj (sort idxs);
                t2 = (if attacked_idxs \<noteq> [] then reset_cd t1 else t1)
            in (attacked_idxs, t2, ants'))
         else ([], t1, ants))"

section \<open>common.hpp: bases, super weapons, operations\<close>

record Base =
  b_player :: int
  b_x :: int
  b_y :: int
  b_hp :: int
  gen_speed_level :: int
  ant_level :: int

definition MAX_HP :: int where "MAX_HP = 50"

definition POSITION :: "int \<Rightarrow> int \<times> int" where
  "POSITION player = [(2, EDGE - 1), ((MAP_SIZE - 1) - 2, EDGE - 1)] ! nat player"

definition GENERATION_CYCLE_INFO :: "int list" where
  "GENERATION_CYCLE_INFO = [4, 2, 1]"

definition Base_new :: "int \<Rightarrow> Base" where
  "Base_new player =
     \<lparr>b_player = player, b_x = fst (POSITION player), b_y = snd (POSITION player),
      b_hp = MAX_HP, gen_speed_level = 0, ant_level = 0\<rparr>"

definition generate_ant :: "Base \<Rightarrow> int \<Rightarrow> int \<Rightarrow> Ant option" where
  "generate_ant b i rnd =
     (if rnd smod (GENERATION_CYCLE_INFO ! nat (gen_speed_level b)) = 0
      then Some (Ant_new i (b_player b) (b_x b) (b_y b)
                   (MAX_HP_INFO ! nat (ant_level b)) (ant_level b) 0 Alive)
      else None)"

datatype SuperWeaponType = LightningStorm | EmpBlaster | Deflector | EmergencyEvasion

fun super_weapon_code :: "SuperWeaponType \<Rightarrow> int" where
  "super_weapon_code LightningStorm = 1"
| "super_weapon_code EmpBlaster = 2"
| "super_weapon_code Deflector = 3"
| "super_weapon_code EmergencyEvasion = 4"

text \<open>\<open>SUPER_WEAPON_INFO[type]\<close> as \<open>(duration, range, cd, price)\<close>.\<close>

fun SUPER_WEAPON_INFO :: "SuperWeaponType \<Rightarrow> int \<times> int \<times> int \<times> int" where
  "SUPER_WEAPON_INFO LightningStorm = (20, 3, 100, 150)"
| "SUPER_WEAPON_INFO EmpBlaster = (20, 3, 100, 150)"
| "SUPER_WEAPON_INFO Deflector = (10, 3, 50, 100)"
| "SUPER_WEAPON_INFO EmergencyEvasion = (1, 3, 50, 100)"

definition sw_duration :: "SuperWeaponType \<Rightarrow> int" where
  "sw_duration ty = fst (SUPER_WEAPON_INFO ty)"
definition sw_range :: "SuperWeaponType \<Rightarrow> int" where
  "sw_range ty = fst (snd (SUPER_WEAPON_INFO ty))"
definition sw_cd :: "SuperWeaponType \<Rightarrow> int" where
  "sw_cd ty = fst (snd (snd (SUPER_WEAPON_INFO ty)))"
definition sw_price :: "SuperWeaponType \<Rightarrow> int" where
  "sw_price ty = snd (snd (snd (SUPER_WEAPON_INFO ty)))"

record SuperWeapon =
  w_type :: SuperWeaponType
  w_player :: int
  w_x :: int
  w_y :: int
  left_time :: int
  w_range :: int

definition SuperWeapon_new :: "SuperWeaponType \<Rightarrow> int \<Rightarrow> int \<Rightarrow> int \<Rightarrow> SuperWeapon" where
  "SuperWeapon_new ty player x y =
     \<lparr>w_type = ty, w_player = player, w_x = x, w_y = y,
      left_time = sw_duration ty, w_range = sw_range ty\<rparr>"

text \<open>\<open>SuperWeapon::is_in_range\<close>.\<close>

definition weapon_in_range :: "SuperWeapon \<Rightarrow> int \<Rightarrow> int \<Rightarrow> bool" where
  "weapon_in_range w x y \<longleftrightarrow> distance x y (w_x w) (w_y w) \<le> w_range w"

datatype OperationType =
    BuildTower | UpgradeTower | DowngradeTower
  | UseLightningStorm | UseEmpBlaster | UseDeflector | UseEmergencyEvasion
  | UpgradeGenerationSpeed | UpgradeGeneratedAnt

fun operation_code :: "OperationType \<Rightarrow> int" where
  "operation_code BuildTower = 11"
| "operation_code UpgradeTower = 12"
| "operation_code DowngradeTower = 13"
| "operation_code UseLightningStorm = 21"
| "operation_code UseEmpBlaster = 22"
| "operation_code UseDeflector = 23"
| "operation_code UseEmergencyEvasion = 24"
| "operation_code UpgradeGenerationSpeed = 31"
| "operation_code UpgradeGeneratedAnt = 32"

record Operation =
  op_type :: OperationType
  arg0 :: int
  arg1 :: int

definition INVALID_ARG :: int where "INVALID_ARG = -1"

text \<open>The weapon used by an operation, \<open>static_cast<SuperWeaponType>(op.type % 10)\<close>.\<close>

fun weapon_of_operation :: "OperationType \<Rightarrow> SuperWeaponType option" where
  "weapon_of_operation UseLightningStorm = Some LightningStorm"
| "weapon_of_operation UseEmpBlaster = Some EmpBlaster"
| "weapon_of_operation UseDeflector = Some Deflector"
| "weapon_of_operation UseEmergencyEvasion = Some EmergencyEvasion"
| "weapon_of_operation _ = None"

text \<open>\<open>Random::get\<close> on the 64-bit unsigned seed: the mask keeps the low 48 bits.\<close>

definition Random_get :: "nat \<Rightarrow> nat" where
  "Random_get seed = ((25214903917 * seed) mod 2 ^ 64) mod 2 ^ 48"

fun Random_iter :: "nat \<Rightarrow> nat \<Rightarrow> nat" where
  "Random_iter 0 seed = seed"
| "Random_iter (Suc n) seed = Random_get (Random_iter n seed)"

section \<open>game_info.hpp: the game state\<close>

text \<open>
  The arrays indexed by player (\<open>bases\<close>, \<open>coins\<close>, \<open>pheromone\<close>, \<open>super_weapon_cd\<close>)
  are functions of the index; the code reads and writes them at players 0 and 1, at
  cells inside the map and at weapon codes 1 to 4.
\<close>

record GameInfo =
  cur_round :: int
  towers :: "Tower list"
  ants :: "Ant list"
  bases :: "int \<Rightarrow> Base"
  coins :: "int \<Rightarrow> int"
  pheromone :: "int \<Rightarrow> int \<Rightarrow> int \<Rightarrow> real"
  super_weapons :: "SuperWeapon list"
  super_weapon_cd :: "int \<Rightarrow> int \<Rightarrow> int"
  next_ant_id :: int
  next_tower_id :: int

text \<open>
  The constructor \<open>GameInfo(seed)\<close>. The three nested loops call \<open>random.get()\<close> once
  per cell, so cell \<open>(i, j, k)\<close> receives the value of call number
  \<open>i * MAP_SIZE * MAP_SIZE + j * MAP_SIZE + k + 1\<close>, scaled by \<open>2^-46\<close> and shifted by 8.
  The random number is below \<open>2^48\<close> and \<open>std::pow(2, -46)\<close> is a power of two: both are
  representable.
\<close>

definition GameInfo_new :: "nat \<Rightarrow> GameInfo" where
  "GameInfo_new seed =
     \<lparr>cur_round = 0, towers = [], ants = [],
      bases = (\<lambda>p. Base_new p),
      coins = (\<lambda>p. COIN_INIT),
      pheromone = (\<lambda>i j k.
        if 0 \<le> i \<and> i < 2 \<and> 0 \<le> j \<and> j < MAP_SIZE \<and> 0 \<le> k \<and> k < MAP_SIZE
        then to_double (to_double
               (real (Random_iter (nat (i * MAP_SIZE * MAP_SIZE + j * MAP_SIZE + k + 1)) seed)
                  * 2 powi (-46)) + 8)
        else 0),
      super_weapons = [],
      super_weapon_cd = (\<lambda>p ty. 0),
      next_ant_id = 0, next_tower_id = 0\<rparr>"

text \<open>\<open>find_one\<close> is \<open>find\<close>: the first element that satisfies the predicate.\<close>

definition tower_at :: "GameInfo \<Rightarrow> int \<Rightarrow> int \<Rightarrow> Tower option" where
  "tower_at g x y = find (\<lambda>t. t_x t = x \<and> t_y t = y) (towers g)"

definition tower_of_id :: "GameInfo \<Rightarrow> int \<Rightarrow> Tower option" where
  "tower_of_id g i = find (\<lambda>t. t_id t = i) (towers g)"

definition update_coin :: "GameInfo \<Rightarrow> int \<Rightarrow> int \<Rightarrow> GameInfo" where
  "update_coin g player_id change = g\<lparr>coins := (coins g)(player_id := coins g player_id + change)\<rparr>"

definition update_base_hp :: "GameInfo \<Rightarrow> int \<Rightarrow> int \<Rightarrow> GameInfo" where
  "update_base_hp g player_id change =
     g\<lparr>bases := (bases g)(player_id := (bases g player_id)\<lparr>b_hp := b_hp (bases g player_id) + change\<rparr>)\<rparr>"

definition clear_dead_and_succeeded_ants :: "GameInfo \<Rightarrow> GameInfo" where
  "clear_dead_and_succeeded_ants g =
     g\<lparr>ants := filter (\<lambda>a. \<not> (a_state a = Success \<or> a_state a = Fail \<or> a_state a = TooOld)) (ants g)\<rparr>"

subsection \<open>Pheromone\<close>

type_synonym pheromone_table = "int \<Rightarrow> int \<Rightarrow> int \<Rightarrow> real"

definition TAU :: "real list" where
  "TAU = [0, 10, -5, -3]"

text \<open>One deposit: \<open>pheromone[player][x][y] += tau\<close>, floored at \<open>PHEROMONE_MIN\<close>.\<close>

definition add_pheromone :: "pheromone_table \<Rightarrow> int \<Rightarrow> int \<Rightarrow> int \<Rightarrow> int \<Rightarrow> pheromone_table" where
  "add_pheromone ph player x y tau =
     (let v = to_double (ph player x y + of_int tau);
          v' = (if v < PHEROMONE_MIN then PHEROMONE_MIN else v)
      in ph(player := (ph player)(x := (ph player x)(y := v'))))"

text \<open>
  The loop over \<open>ant.path\<close> in \<open>update_pheromone\<close>; \<open>visited\<close> lists the cells marked
  so far.
\<close>

fun walk_path :: "int \<Rightarrow> int \<Rightarrow> int list \<Rightarrow> int \<Rightarrow> int \<Rightarrow> (int \<times> int) list \<Rightarrow> pheromone_table
    \<Rightarrow> int \<times> int \<times> (int \<times> int) list \<times> pheromone_table" where
  "walk_path player tau [] x y visited ph = (x, y, visited, ph)"
| "walk_path player tau (m # ms) x y visited ph =
     (let (visited', ph') =
            (if (x, y) \<notin> set visited
             then ((x, y) # visited, add_pheromone ph player x y tau)
             else (visited, ph));
          x' = x + fst (offset y (nat m));
          y' = y + snd (offset y (nat m))
      in walk_path player tau ms x' y' visited' ph')"

text \<open>
  \<open>update_pheromone\<close>; the result is \<open>None\<close> when the assertion that the path ends at
  the ant's position fails.
\<close>

definition update_pheromone :: "GameInfo \<Rightarrow> Ant \<Rightarrow> GameInfo option" where
  "update_pheromone g ant =
     (if a_state ant = Alive \<or> a_state ant = Frozen then Some g
      else
        (let tau = trunc (TAU ! nat (ant_state_code (a_state ant)));
             player = a_player ant;
             (x, y, visited, ph) =
                walk_path player tau (a_path ant) (fst (POSITION player)) (snd (POSITION player))
                  [] (pheromone g)
         in if \<not> (x = a_x ant \<and> y = a_y ant) then None
            else Some (g\<lparr>pheromone :=
                   (if (x, y) \<notin> set visited then add_pheromone ph player x y tau else ph)\<rparr>)))"

fun update_pheromone_list :: "GameInfo \<Rightarrow> Ant list \<Rightarrow> GameInfo option" where
  "update_pheromone_list g [] = Some g"
| "update_pheromone_list g (ant # rest) =
     (case update_pheromone g ant of
        None \<Rightarrow> None
      | Some g' \<Rightarrow> update_pheromone_list g' rest)"

definition update_pheromone_for_ants :: "GameInfo \<Rightarrow> GameInfo option" where
  "update_pheromone_for_ants g = update_pheromone_list g (ants g)"

text \<open>
  \<open>global_pheromone_attenuation\<close>: the product, the difference \<open>1 - ratio\<close>, its product
  with the baseline and the sum are four operations on doubles, each rounded.
\<close>

definition global_pheromone_attenuation :: "GameInfo \<Rightarrow> GameInfo" where
  "global_pheromone_attenuation g =
     g\<lparr>pheromone := (\<lambda>i j k.
        if 0 \<le> i \<and> i < 2 \<and> 0 \<le> j \<and> j < MAP_SIZE \<and> 0 \<le> k \<and> k < MAP_SIZE
        then to_double
               (to_double (PHEROMONE_ATTENUATING_RATIO * pheromone g i j k)
                + to_double (to_double (1 - PHEROMONE_ATTENUATING_RATIO) * PHEROMONE_INIT))
        else pheromone g i j k)\<rparr>"

subsection \<open>Economy\<close>

definition tower_num_of_player :: "GameInfo \<Rightarrow> int \<Rightarrow> int" where
  "tower_num_of_player g player_id = int (length (filter (\<lambda>t. t_player t = player_id) (towers g)))"

text \<open>
  \<open>TOWER_BUILD_PRICE_BASE * std::pow(TOWER_BUILD_PRICE_RATIO, tower_num)\<close>, converted to
  \<open>int\<close>.
\<close>

definition build_tower_cost :: "int \<Rightarrow> int" where
  "build_tower_cost tower_num =
     trunc (to_double (of_int TOWER_BUILD_PRICE_BASE
                         * to_double ((of_int TOWER_BUILD_PRICE_RATIO) powi tower_num)))"

definition destroy_tower_income :: "int \<Rightarrow> int" where
  "destroy_tower_income tower_num =
     trunc (to_double (of_int (build_tower_cost (tower_num - 1)) * TOWER_DOWNGRADE_REFUND_RATIO))"

text \<open>\<open>upgrade_tower_cost(int type)\<close>, on the integer code of the type.\<close>

definition upgrade_tower_cost :: "int \<Rightarrow> int" where
  "upgrade_tower_cost ty =
     (if ty = tower_type_code Heavy \<or> ty = tower_type_code Quick \<or> ty = tower_type_code Mortar
      then LEVEL2_TOWER_UPGRADE_PRICE
      else if ty = tower_type_code HeavyPlus \<or> ty = tower_type_code Ice
            \<or> ty = tower_type_code Cannon \<or> ty = tower_type_code QuickPlus
            \<or> ty = tower_type_code Double \<or> ty = tower_type_code Sniper
            \<or> ty = tower_type_code MortarPlus \<or> ty = tower_type_code Pulse
            \<or> ty = tower_type_code Missile
      then LEVEL3_TOWER_UPGRADE_PRICE
      else -1)"

definition downgrade_tower_income :: "int \<Rightarrow> int" where
  "downgrade_tower_income ty =
     trunc (to_double (of_int (upgrade_tower_cost ty) * TOWER_DOWNGRADE_REFUND_RATIO))"

definition upgrade_base_cost :: "int \<Rightarrow> int" where
  "upgrade_base_cost level =
     (if level = 0 then LEVEL2_BASE_UPGRADE_PRICE
      else if level = 1 then LEVEL3_BASE_UPGRADE_PRICE
      else -1)"

definition use_super_weapon_cost :: "SuperWeaponType \<Rightarrow> int" where
  "use_super_weapon_cost ty = sw_price ty"

subsection \<open>Super weapons\<close>

definition use_super_weapon :: "GameInfo \<Rightarrow> SuperWeaponType \<Rightarrow> int \<Rightarrow> int \<Rightarrow> int \<Rightarrow> GameInfo" where
  "use_super_weapon g ty player x y =
     g\<lparr>super_weapons := super_weapons g @ [SuperWeapon_new ty player x y],
       super_weapon_cd := (super_weapon_cd g)
          (player := (super_weapon_cd g player)(super_weapon_code ty := sw_cd ty))\<rparr>"

definition is_shielded_by_emp :: "GameInfo \<Rightarrow> int \<Rightarrow> int \<Rightarrow> int \<Rightarrow> bool" where
  "is_shielded_by_emp g player_id x y =
     list_ex (\<lambda>w. w_type w = EmpBlaster \<and> w_player w \<noteq> player_id \<and> weapon_in_range w x y)
       (super_weapons g)"

definition is_shielded_by_emp_tower :: "GameInfo \<Rightarrow> Tower \<Rightarrow> bool" where
  "is_shielded_by_emp_tower g t = is_shielded_by_emp g (t_player t) (t_x t) (t_y t)"

definition is_shielded_by_deflector :: "GameInfo \<Rightarrow> Ant \<Rightarrow> bool" where
  "is_shielded_by_deflector g a =
     list_ex (\<lambda>w. w_type w = Deflector \<and> w_player w = a_player a
                  \<and> weapon_in_range w (a_x a) (a_y a))
       (super_weapons g)"

text \<open>
  \<open>count_down_super_weapons_left_time\<close>: the weapons of the other player stay; those
  of \<open>player_id\<close> lose one round and are erased when none is left.
\<close>

fun count_down_weapons :: "int \<Rightarrow> SuperWeapon list \<Rightarrow> SuperWeapon list" where
  "count_down_weapons player_id [] = []"
| "count_down_weapons player_id (w # ws) =
     (if w_player w \<noteq> player_id then w # count_down_weapons player_id ws
      else (let w' = w\<lparr>left_time := left_time w - 1\<rparr>
            in if left_time w' \<le> 0 then count_down_weapons player_id ws
               else w' # count_down_weapons player_id ws))"

definition count_down_super_weapons_left_time :: "GameInfo \<Rightarrow> int \<Rightarrow> GameInfo" where
  "count_down_super_weapons_left_time g player_id =
     g\<lparr>super_weapons := count_down_weapons player_id (super_weapons g)\<rparr>"

text \<open>
  \<open>apply_active_super_weapons\<close>. The inner loops visit every ant; the outer loop visits
  every stored weapon of the player. \<open>struck\<close> is the test of the lightning storm's
  loop: the ant is in the range of the weapon and belongs to the other player.
\<close>

definition struck :: "SuperWeapon \<Rightarrow> Ant \<Rightarrow> bool" where
  "struck w ant \<longleftrightarrow> weapon_in_range w (a_x ant) (a_y ant) \<and> a_player ant \<noteq> w_player w"

definition storm_hit :: "SuperWeapon \<Rightarrow> GameInfo \<Rightarrow> nat \<Rightarrow> GameInfo" where
  "storm_hit w g i =
     (let ant = ants g ! i
      in if struck w ant
         then update_coin (g\<lparr>ants := (ants g)[i := ant\<lparr>a_hp := 0, a_state := Fail\<rparr>]\<rparr>)
                (w_player w) (reward ant)
         else g)"

definition evasion_grant :: "SuperWeapon \<Rightarrow> GameInfo \<Rightarrow> nat \<Rightarrow> GameInfo" where
  "evasion_grant w g i =
     (let ant = ants g ! i
      in if weapon_in_range w (a_x ant) (a_y ant) \<and> a_player ant = w_player w
         then g\<lparr>ants := (ants g)[i := ant\<lparr>a_evasion := 2\<rparr>]\<rparr>
         else g)"

definition apply_super_weapon :: "int \<Rightarrow> SuperWeapon \<Rightarrow> GameInfo \<Rightarrow> GameInfo" where
  "apply_super_weapon player_id w g =
     (if w_player w \<noteq> player_id then g
      else if w_type w = LightningStorm
      then fold (\<lambda>i g'. storm_hit w g' i) [0..<length (ants g)] g
      else if w_type w = EmergencyEvasion
      then fold (\<lambda>i g'. evasion_grant w g' i) [0..<length (ants g)] g
      else g)"

definition apply_active_super_weapons :: "GameInfo \<Rightarrow> int \<Rightarrow> GameInfo" where
  "apply_active_super_weapons g player_id =
     fold (apply_super_weapon player_id) (super_weapons g) g"

definition count_down_super_weapons_cd :: "GameInfo \<Rightarrow> GameInfo" where
  "count_down_super_weapons_cd g =
     g\<lparr>super_weapon_cd := (\<lambda>i j.
        if 0 \<le> i \<and> i < 2 \<and> 1 \<le> j \<and> j < 5 then max (super_weapon_cd g i j - 1) 0
        else super_weapon_cd g i j)\<rparr>"

subsection \<open>Operation checks\<close>

definition is_operation_valid :: "GameInfo \<Rightarrow> int \<Rightarrow> Operation \<Rightarrow> bool" where
  "is_operation_valid g player_id op =
     (case op_type op of
        BuildTower \<Rightarrow>
          is_highland player_id (arg0 op) (arg1 op)
          \<and> tower_at g (arg0 op) (arg1 op) = None
          \<and> \<not> is_shielded_by_emp g player_id (arg0 op) (arg1 op)
      | UpgradeTower \<Rightarrow>
          (case tower_of_id g (arg0 op) of
             None \<Rightarrow> False
           | Some t \<Rightarrow> t_player t = player_id \<and> is_upgrade_type_valid t (arg1 op)
                       \<and> \<not> is_shielded_by_emp_tower g t)
      | DowngradeTower \<Rightarrow>
          (case tower_of_id g (arg0 op) of
             None \<Rightarrow> False
           | Some t \<Rightarrow> t_player t = player_id \<and> \<not> is_shielded_by_emp_tower g t)
      | UpgradeGenerationSpeed \<Rightarrow> gen_speed_level (bases g player_id) < 2
      | UpgradeGeneratedAnt \<Rightarrow> ant_level (bases g player_id) < 2
      | _ \<Rightarrow>
          is_valid_pos (arg0 op) (arg1 op)
          \<and> super_weapon_cd g player_id (operation_code (op_type op) smod 10) \<le> 0)"

text \<open>
  \<open>get_operation_income\<close>. \<open>tower_of_id(op.arg0).value()\<close> throws
  \<open>bad_optional_access\<close> when no tower has the id: the result is \<open>None\<close> then.
\<close>

definition get_operation_income :: "GameInfo \<Rightarrow> int \<Rightarrow> Operation \<Rightarrow> int option" where
  "get_operation_income g player_id op =
     (case op_type op of
        BuildTower \<Rightarrow> Some (- build_tower_cost (tower_num_of_player g player_id))
      | UpgradeTower \<Rightarrow> Some (- upgrade_tower_cost (arg1 op))
      | DowngradeTower \<Rightarrow>
          (case tower_of_id g (arg0 op) of
             None \<Rightarrow> None
           | Some t \<Rightarrow>
               if t_type t = Basic
               then Some (destroy_tower_income (tower_num_of_player g player_id))
               else Some (downgrade_tower_income (tower_type_code (t_type t))))
      | UpgradeGenerationSpeed \<Rightarrow> Some (- upgrade_base_cost (gen_speed_level (bases g player_id)))
      | UpgradeGeneratedAnt \<Rightarrow> Some (- upgrade_base_cost (ant_level (bases g player_id)))
      | _ \<Rightarrow> (case weapon_of_operation (op_type op) of
                 None \<Rightarrow> Some 0
               | Some ty \<Rightarrow> Some (- use_super_weapon_cost ty)))"

text \<open>
  The loop of \<open>check_affordable\<close>, with its two local variables \<open>income\<close> and
  \<open>tower_num\<close>; \<open>tower_num++\<close> and \<open>tower_num--\<close> pass the old value to the price.
\<close>

fun check_affordable_loop :: "GameInfo \<Rightarrow> int \<Rightarrow> Operation list \<Rightarrow> int \<Rightarrow> int \<Rightarrow> (int \<times> int) option" where
  "check_affordable_loop g player_id [] income tower_num = Some (income, tower_num)"
| "check_affordable_loop g player_id (op # ops) income tower_num =
     (case op_type op of
        BuildTower \<Rightarrow>
          check_affordable_loop g player_id ops (income - build_tower_cost tower_num) (tower_num + 1)
      | DowngradeTower \<Rightarrow>
          (case tower_of_id g (arg0 op) of
             None \<Rightarrow> None
           | Some t \<Rightarrow>
               if t_type t = Basic
               then check_affordable_loop g player_id ops
                      (income + destroy_tower_income tower_num) (tower_num - 1)
               else check_affordable_loop g player_id ops
                      (income + downgrade_tower_income (tower_type_code (t_type t))) tower_num)
      | _ \<Rightarrow>
          (case get_operation_income g player_id op of
             None \<Rightarrow> None
           | Some v \<Rightarrow> check_affordable_loop g player_id ops (income + v) tower_num))"

definition check_affordable :: "GameInfo \<Rightarrow> int \<Rightarrow> Operation list \<Rightarrow> bool option" where
  "check_affordable g player_id ops =
     (case check_affordable_loop g player_id ops 0 (tower_num_of_player g player_id) of
        None \<Rightarrow> None
      | Some (income, tower_num) \<Rightarrow> Some (income + coins g player_id \<ge> 0))"

text \<open>
  The overload \<open>is_operation_valid(player_id, ops, new_op)\<close>, which also looks at the
  operations added before and at the coins.
\<close>

definition is_operation_valid_with :: "GameInfo \<Rightarrow> int \<Rightarrow> Operation list \<Rightarrow> Operation \<Rightarrow> bool option" where
  "is_operation_valid_with g player_id ops new_op =
     (let collide =
        (case op_type new_op of
           BuildTower \<Rightarrow>
             list_ex (\<lambda>op. op_type op = BuildTower \<and> arg0 op = arg0 new_op \<and> arg1 op = arg1 new_op) ops
         | UpgradeTower \<Rightarrow>
             list_ex (\<lambda>op. (op_type op = UpgradeTower \<or> op_type op = DowngradeTower)
                           \<and> arg0 op = arg0 new_op) ops
         | DowngradeTower \<Rightarrow>
             list_ex (\<lambda>op. (op_type op = UpgradeTower \<or> op_type op = DowngradeTower)
                           \<and> arg0 op = arg0 new_op) ops
         | UpgradeGeneratedAnt \<Rightarrow>
             list_ex (\<lambda>op. op_type op = UpgradeGeneratedAnt \<or> op_type op = UpgradeGenerationSpeed) ops
         | UpgradeGenerationSpeed \<Rightarrow>
             list_ex (\<lambda>op. op_type op = UpgradeGeneratedAnt \<or> op_type op = UpgradeGenerationSpeed) ops
         | _ \<Rightarrow> list_ex (\<lambda>op. op_type op = op_type new_op) ops)
      in if collide then Some False
         else if \<not> is_operation_valid g player_id new_op then Some False
         else (case check_affordable g player_id (ops @ [new_op]) of
                 None \<Rightarrow> None
               | Some ok \<Rightarrow> Some ok))"

subsection \<open>Navigation\<close>

definition ETA :: "real list" where
  "ETA = [125 / 100, 1, 75 / 100]"

definition ETA_OFFSET :: int where
  "ETA_OFFSET = 1"

text \<open>
  The test of \<open>next_move\<close> that lets direction \<open>i\<close> take part: it does not reverse the
  last recorded move, and the neighbour is a path cell.
\<close>

definition eligible :: "Ant \<Rightarrow> int \<Rightarrow> bool" where
  "eligible ant i \<longleftrightarrow>
     \<not> ((a_path ant \<noteq> [] \<and> last (a_path ant) = (i + 3) smod 6)
        \<or> \<not> is_path (a_x ant + fst (offset (a_y ant) (nat i)))
                     (a_y ant + snd (offset (a_y ant) (nat i))))"

text \<open>Row \<open>i\<close> of the local array \<open>phero\<close>: the weighted and the original pheromone.\<close>

definition phero_row :: "GameInfo \<Rightarrow> Ant \<Rightarrow> int \<Rightarrow> real \<times> real" where
  "phero_row g ant i =
     (let target_x = fst (POSITION (lnot (a_player ant)));
          target_y = snd (POSITION (lnot (a_player ant)));
          cur_dist = distance (a_x ant) (a_y ant) target_x target_y;
          x = a_x ant + fst (offset (a_y ant) (nat i));
          y = a_y ant + snd (offset (a_y ant) (nat i))
      in if \<not> eligible ant i then (-1, -1)
         else
           (let next_dist = distance x y target_x target_y;
                weight = ETA ! nat (next_dist - cur_dist + ETA_OFFSET)
            in (to_double (weight * pheromone g (a_player ant) x y),
                pheromone g (a_player ant) x y)))"

text \<open>The comparator passed to \<open>std::max_element\<close>, on the rows with indexes \<open>i\<close> and \<open>j\<close>.\<close>

definition phero_less :: "(real \<times> real) list \<Rightarrow> nat \<Rightarrow> nat \<Rightarrow> bool" where
  "phero_less phero i j =
     (if fst (phero ! i) \<noteq> fst (phero ! j) then fst (phero ! i) < fst (phero ! j)
      else if snd (phero ! i) \<noteq> snd (phero ! j) then snd (phero ! i) < snd (phero ! j)
      else i > j)"

text \<open>
  \<open>std::max_element\<close>: the candidate is replaced whenever it compares less than the
  next element.
\<close>

fun max_element :: "(nat \<Rightarrow> nat \<Rightarrow> bool) \<Rightarrow> nat \<Rightarrow> nat list \<Rightarrow> nat" where
  "max_element lt largest [] = largest"
| "max_element lt largest (i # rest) =
     max_element lt (if lt largest i then i else largest) rest"

definition next_move :: "GameInfo \<Rightarrow> Ant \<Rightarrow> int" where
  "next_move g ant =
     int (max_element (phero_less (map (phero_row g ant) [0, 1, 2, 3, 4, 5])) 0 [1, 2, 3, 4, 5])"

section \<open>simulate.hpp\<close>

datatype GameState = Player0Win | Player1Win | Running | Undecided

record Simulator =
  info :: GameInfo
  operations :: "int \<Rightarrow> Operation list"

definition has_build_tower_operation_at :: "Simulator \<Rightarrow> int \<Rightarrow> int \<Rightarrow> int \<Rightarrow> bool" where
  "has_build_tower_operation_at s player_id x y =
     list_ex (\<lambda>op. op_type op = BuildTower \<and> arg0 op = x \<and> arg1 op = y) (operations s player_id)"

definition has_upgrade_or_downgrade_tower_operation_of :: "Simulator \<Rightarrow> int \<Rightarrow> int \<Rightarrow> bool" where
  "has_upgrade_or_downgrade_tower_operation_of s player_id tower_id =
     list_ex (\<lambda>op. (op_type op = UpgradeTower \<or> op_type op = DowngradeTower) \<and> arg0 op = tower_id)
       (operations s player_id)"

definition has_base_related_operation :: "Simulator \<Rightarrow> int \<Rightarrow> bool" where
  "has_base_related_operation s player_id =
     list_ex (\<lambda>op. op_type op = UpgradeGeneratedAnt \<or> op_type op = UpgradeGenerationSpeed)
       (operations s player_id)"

subsection \<open>Combat\<close>

text \<open>The body of the loop over the towers in \<open>attack_ants\<close>, for the tower at index \<open>i\<close>.\<close>

definition tower_turn :: "GameInfo \<Rightarrow> nat \<Rightarrow> GameInfo" where
  "tower_turn g i =
     (let tower = towers g ! i
      in if is_shielded_by_emp g (t_player tower) (t_x tower) (t_y tower) then g
         else
           (let (targets, tower', ants') = attack tower (ants g);
                g1 = g\<lparr>ants := ants'\<rparr>;
                g2 = fold (\<lambda>idx g'. if a_state (ants g' ! idx) = Fail
                                     then update_coin g' (t_player tower') (reward (ants g' ! idx))
                                     else g') targets g1
            in g2\<lparr>towers := (towers g2)
                    [i := tower'\<lparr>t_damage := info_attack (TOWER_INFO (t_type tower'))\<rparr>]\<rparr>))"

definition attack_ants :: "GameInfo \<Rightarrow> GameInfo" where
  "attack_ants g =
     (let g1 = g\<lparr>ants := map (\<lambda>ant. ant\<lparr>a_deflector := is_shielded_by_deflector g ant\<rparr>) (ants g)\<rparr>;
          g2 = fold (\<lambda>i g'. tower_turn g' i) [0..<length (towers g1)] g1
      in g2\<lparr>ants := map (\<lambda>ant. ant\<lparr>a_deflector := False\<rparr>) (ants g2)\<rparr>)"

subsection \<open>Movement\<close>

text \<open>
  The body of the loop in \<open>move_ants\<close> for the ant at index \<open>i\<close>: the verdict when the
  body returns from \<open>move_ants\<close>, \<open>None\<close> when the loop goes on.
\<close>

definition move_ant :: "GameInfo \<Rightarrow> nat \<Rightarrow> GameState option \<times> GameInfo" where
  "move_ant g i =
     (let ant0 = ants g ! i;
          ant1 = ant0\<lparr>a_age := a_age ant0 + 1\<rparr>
      in if a_state ant1 = Fail then (None, g\<lparr>ants := (ants g)[i := ant1]\<rparr>)
         else
           (let ant2 = (if a_age ant1 > AGE_LIMIT then ant1\<lparr>a_state := TooOld\<rparr> else ant1);
                ant3 = (if a_state ant2 = Alive then move ant2 (next_move g ant2) else ant2)
            in if a_x ant3 = fst (POSITION (lnot (a_player ant3)))
                  \<and> a_y ant3 = snd (POSITION (lnot (a_player ant3)))
               then
                 (let ant4 = ant3\<lparr>a_state := Success\<rparr>;
                      g1 = update_base_hp (g\<lparr>ants := (ants g)[i := ant4]\<rparr>) (lnot (a_player ant4)) (-1)
                  in if b_hp (bases g1 (lnot (a_player ant4))) \<le> 0
                     then (Some (if a_player ant4 = 0 then Player0Win else Player1Win), g1)
                     else (None, g1))
               else
                 (None, g\<lparr>ants := (ants g)
                    [i := (if a_state ant3 = Frozen then ant3\<lparr>a_state := Alive\<rparr> else ant3)]\<rparr>)))"

fun move_ants_from :: "GameInfo \<Rightarrow> nat list \<Rightarrow> GameState \<times> GameInfo" where
  "move_ants_from g [] = (Running, g)"
| "move_ants_from g (i # rest) =
     (case move_ant g i of
        (Some verdict, g') \<Rightarrow> (verdict, g')
      | (None, g') \<Rightarrow> move_ants_from g' rest)"

definition move_ants :: "GameInfo \<Rightarrow> GameState \<times> GameInfo" where
  "move_ants g = move_ants_from g [0..<length (ants g)]"

subsection \<open>Spawning, income, verdict\<close>

text \<open>The body of the loop over \<open>info.bases\<close> in \<open>generate_ants\<close>.\<close>

definition generate_ant_of :: "int \<Rightarrow> GameInfo \<Rightarrow> GameInfo" where
  "generate_ant_of player g =
     (case generate_ant (bases g player) (next_ant_id g) (cur_round g) of
        None \<Rightarrow> g
      | Some ant \<Rightarrow> g\<lparr>ants := ants g @ [ant], next_ant_id := next_ant_id g + 1\<rparr>)"

definition generate_ants :: "GameInfo \<Rightarrow> GameInfo" where
  "generate_ants g = fold generate_ant_of [0, 1] g"

definition get_basic_income :: "GameInfo \<Rightarrow> int \<Rightarrow> GameInfo" where
  "get_basic_income g player_id = update_coin g player_id BASIC_INCOME"

definition judge_winner :: "Simulator \<Rightarrow> GameState" where
  "judge_winner s =
     (if b_hp (bases (info s) 0) < b_hp (bases (info s) 1) then Player1Win
      else if b_hp (bases (info s) 0) > b_hp (bases (info s) 1) then Player0Win
      else Undecided)"

subsection \<open>Staging operations\<close>

text \<open>
  \<open>add_operation_of_player\<close> returns whether the operation was added; the model also
  returns the simulator after the call. The result is \<open>None\<close> when \<open>check_affordable\<close>
  throws.
\<close>

definition add_operation_of_player :: "Simulator \<Rightarrow> int \<Rightarrow> Operation \<Rightarrow> (bool \<times> Simulator) option" where
  "add_operation_of_player s player_id op =
     (if op_type op = BuildTower \<and> has_build_tower_operation_at s player_id (arg0 op) (arg1 op)
      then Some (False, s)
      else if (op_type op = UpgradeTower \<or> op_type op = DowngradeTower)
              \<and> has_upgrade_or_downgrade_tower_operation_of s player_id (arg0 op)
      then Some (False, s)
      else if (op_type op = UpgradeGeneratedAnt \<or> op_type op = UpgradeGenerationSpeed)
              \<and> has_base_related_operation s player_id
      then Some (False, s)
      else if \<not> is_operation_valid (info s) player_id op then Some (False, s)
      else
        (let s1 = s\<lparr>operations := (operations s)(player_id := operations s player_id @ [op])\<rparr>
         in (case check_affordable (info s1) player_id (operations s1 player_id) of
               None \<Rightarrow> None
             | Some ok \<Rightarrow>
                 if \<not> ok
                 then Some (False, s1\<lparr>operations := (operations s1)
                                (player_id := butlast (operations s1 player_id))\<rparr>)
                 else Some (True, s1))))"

subsection \<open>One round\<close>

text \<open>
  \<open>next_round\<close> returns the verdict; the model also returns the simulator after the
  call. The result is \<open>None\<close> when the assertion of \<open>update_pheromone\<close> fails.
\<close>

definition next_round :: "Simulator \<Rightarrow> (GameState \<times> Simulator) option" where
  "next_round s =
     (if cur_round (info s) = MAX_ROUND then Some (judge_winner s, s)
      else
        (let g1 = attack_ants (info s);
             (state, g2) = move_ants g1
         in if state \<noteq> Running then Some (state, s\<lparr>info := g2\<rparr>)
            else
              (case update_pheromone_for_ants (global_pheromone_attenuation g2) of
                 None \<Rightarrow> None
               | Some g3 \<Rightarrow>
                   (let g4 = clear_dead_and_succeeded_ants g3;
                        g5 = generate_ants g4;
                        g6 = get_basic_income (get_basic_income g5 0) 1;
                        g7 = g6\<lparr>cur_round := cur_round g6 + 1\<rparr>;
                        g8 = count_down_super_weapons_cd g7
                    in Some (Running, \<lparr>info = g8, operations = (\<lambda>p. [])\<rparr>)))))"

section \<open>The affordability rule in the words of the specification\<close>

text \<open>
  The specification describes \<open>affordable(player, ops)\<close> as a fold: the balance starts
  at the player's coins, every operation adds its cost or refund in staged order, and
  the running tower count prices each build and each removal. These definitions follow
  that description; \<open>check_affordable\<close> above follows the code.
\<close>

definition spec_op_delta :: "GameInfo \<Rightarrow> int \<Rightarrow> int \<Rightarrow> Operation \<Rightarrow> (int \<times> int) option" where
  "spec_op_delta g player_id n op =
     (if op_type op = BuildTower then Some (- build_tower_cost n, n + 1)
      else if op_type op = DowngradeTower
      then (case tower_of_id g (arg0 op) of
              None \<Rightarrow> None
            | Some t \<Rightarrow>
                if t_type t = Basic then Some (destroy_tower_income n, n - 1)
                else Some (downgrade_tower_income (tower_type_code (t_type t)), n))
      else map_option (\<lambda>v. (v, n)) (get_operation_income g player_id op))"

fun spec_balance :: "GameInfo \<Rightarrow> int \<Rightarrow> Operation list \<Rightarrow> int \<Rightarrow> int \<Rightarrow> (int \<times> int) option" where
  "spec_balance g player_id [] balance n = Some (balance, n)"
| "spec_balance g player_id (op # ops) balance n =
     (case spec_op_delta g player_id n op of
        None \<Rightarrow> None
      | Some (delta, n') \<Rightarrow> spec_balance g player_id ops (balance + delta) n')"

definition spec_affordable :: "GameInfo \<Rightarrow> int \<Rightarrow> Operation list \<Rightarrow> bool option" where
  "spec_affordable g player_id ops =
     map_option (\<lambda>(balance, n). balance \<ge> 0)
       (spec_balance g player_id ops (coins g player_id) (tower_num_of_player g player_id))"

section \<open>What the super weapons read of an ant\<close>

text \<open>
  The loops of \<open>apply_active_super_weapons\<close> read the position, the owner and the level
  of an ant and write none of them.
\<close>

abbreviation ant_key :: "Ant \<Rightarrow> int \<times> int \<times> int \<times> int" where
  "ant_key a \<equiv> (a_x a, a_y a, a_player a, a_level a)"

section \<open>Example states\<close>

text \<open>An operation that builds a tower at \<open>(x, y)\<close>.\<close>

definition build_op :: "int \<Rightarrow> int \<Rightarrow> Operation" where
  "build_op x y = \<lparr>op_type = BuildTower, arg0 = x, arg1 = y\<rparr>"

text \<open>
  A simulator in which player 0 has 300 coins and has already staged one lightning
  storm at the centre of the map.
\<close>

definition storm_op :: Operation where
  "storm_op = \<lparr>op_type = UseLightningStorm, arg0 = 9, arg1 = 9\<rparr>"

definition rich_sim :: Simulator where
  "rich_sim = \<lparr>info = (GameInfo_new 0)\<lparr>coins := (\<lambda>p. 300)\<rparr>,
               operations = (\<lambda>p. [])(0 := [storm_op])\<rparr>"

text \<open>An ant of player 0 on the void cell \<open>(0, 0)\<close>: no neighbour is a path cell.\<close>

definition boxed_info :: GameInfo where
  "boxed_info = (GameInfo_new 0)\<lparr>ants := [Ant_new 0 0 0 0 10 0 0 Alive]\<rparr>"

text \<open>
  Base 1 has \<open>h\<close> HP and a fresh ant of player 0 stands on the path cell \<open>(15, 9)\<close>,
  next to base 1 at \<open>(16, 9)\<close>.
\<close>

definition siege_info :: "int \<Rightarrow> GameInfo" where
  "siege_info h =
     (update_base_hp (GameInfo_new 0) 1 (h - MAX_HP))\<lparr>ants := [Ant_new 0 0 15 9 10 0 0 Alive]\<rparr>"


text \<open>
  Player 0 has just used a lightning storm at \<open>(9, 9)\<close>; a frozen ant of player 1
  stands on the path cell \<open>(9, 10)\<close>.
\<close>

definition storm_info :: GameInfo where
  "storm_info =
     (use_super_weapon (GameInfo_new 0) LightningStorm 0 9 9)
       \<lparr>ants := [(Ant_new 0 1 9 10 10 0 0 Alive)\<lparr>a_state := Frozen\<rparr>]\<rparr>"

text \<open>
  The value that \<open>global_pheromone_attenuation\<close> stores in a cell that holds \<open>v\<close>, and
  the state built by \<open>GameInfo(176057759362203)\<close>, whose first random number is
  \<open>2^47 - 1\<close>.
\<close>

definition attenuated :: "real \<Rightarrow> real" where
  "attenuated v =
     to_double (to_double (PHEROMONE_ATTENUATING_RATIO * v)
                + to_double (to_double (1 - PHEROMONE_ATTENUATING_RATIO) * PHEROMONE_INIT))"

definition stuck_info :: GameInfo where
  "stuck_info = GameInfo_new 176057759362203"

text \<open>The state in which every cell of the pheromone table holds the baseline.\<close>

definition baseline_info :: GameInfo where
  "baseline_info = (GameInfo_new 0)\<lparr>pheromone := (\<lambda>i j k. PHEROMONE_INIT)\<rparr>"
section \<open>Properties of the rounding to \<open>double\<close>\<close>

text \<open>
  The rounding is odd and monotone, it keeps the sign, and below \<open>2^(E+1)\<close> it moves a
  number by at most \<open>2^(E-53)\<close>, half a unit in the last place.
\<close>

lemma exponent_bounds:
  assumes "0 < x"
  shows "2 powi exponent x \<le> x" and "x < 2 powi (exponent x + 1)"
proof -
  have "2 powi exponent x \<le> x \<and> x < 2 powi (exponent x + 1)"
  proof (cases "1 \<le> x")
    case True
    define m where "m = \<lfloor>x\<rfloor>"
    have m: "1 \<le> m" using True by (simp add: m_def)
    have b: "2 ^ nat (bitlen m - 1) \<le> m" "m < 2 ^ nat (bitlen m)"
      using bitlen_bounds [of m] m by auto
    have b1: "m + 1 \<le> 2 ^ nat (bitlen m)" using b(2) by simp
    have bl: "1 \<le> bitlen m" using m by (simp add: bitlen_alt_def)
    have e: "exponent x = bitlen m - 1" using True by (simp add: exponent_def m_def)
    have "(2::real) powi (bitlen m - 1) = 2 ^ nat (bitlen m - 1)"
      using bl by (simp add: power_int_def)
    also have "\<dots> = of_int (2 ^ nat (bitlen m - 1))" by simp
    also have "\<dots> \<le> of_int m" using b(1) by (simp only: of_int_le_iff)
    also have "\<dots> \<le> x" by (simp add: m_def)
    finally have lo: "2 powi exponent x \<le> x" by (simp add: e)
    have "x < of_int (m + 1)" by (simp add: m_def)
    also have "\<dots> \<le> of_int (2 ^ nat (bitlen m))"
      using b1 by (simp only: of_int_le_iff)
    also have "\<dots> = (2::real) powi (bitlen m)"
      using bl by (simp add: power_int_def)
    finally have "x < 2 powi (exponent x + 1)" by (simp add: e)
    with lo show ?thesis by simp
  next
    case False
    define m where "m = \<lfloor>1 / x\<rfloor>"
    define j where "j = bitlen m - 1"
    have x1: "1 \<le> 1 / x" using False assms by simp
    have m: "1 \<le> m" using x1 by (simp add: m_def)
    have b: "2 ^ nat (bitlen m - 1) \<le> m" "m < 2 ^ nat (bitlen m)"
      using bitlen_bounds [of m] m by auto
    have b1: "m + 1 \<le> 2 ^ nat (bitlen m)" using b(2) by simp
    have bl: "1 \<le> bitlen m" using m by (simp add: bitlen_alt_def)
    have j0: "0 \<le> j" using bl by (simp add: j_def)
    have pj: "(2::real) powi (- j) = 1 / 2 ^ nat j"
      using j0 by (auto simp: power_int_def field_simps)
    have pj1: "(2::real) powi (- j - 1) = 1 / 2 ^ nat (j + 1)"
      using j0 by (auto simp: power_int_def field_simps nat_add_distrib)
    have "(2::real) ^ nat j = of_int (2 ^ nat (bitlen m - 1))" by (simp add: j_def)
    also have "\<dots> \<le> of_int m" using b(1) by (simp only: of_int_le_iff)
    also have "\<dots> \<le> 1 / x" by (simp add: m_def)
    finally have "(2::real) ^ nat j \<le> 1 / x" .
    hence "x * 2 ^ nat j \<le> 1" using assms by (simp add: field_simps)
    hence up: "x \<le> 2 powi (- j)"
      unfolding pj by (simp add: field_simps)
    have "1 / x < of_int (m + 1)" by (simp add: m_def)
    also have "\<dots> \<le> of_int (2 ^ nat (bitlen m))"
      using b1 by (simp only: of_int_le_iff)
    also have "\<dots> = (2::real) ^ nat (j + 1)" by (simp add: j_def)
    finally have "1 / x < (2::real) ^ nat (j + 1)" .
    hence "1 < x * 2 ^ nat (j + 1)" using assms by (simp add: field_simps)
    hence lo: "2 powi (- j - 1) < x"
      unfolding pj1 by (simp add: field_simps)
    have e: "exponent x = (if x = 2 powi (- j) then - j else - j - 1)"
      using False by (simp add: exponent_def m_def j_def Let_def)
    show ?thesis
    proof (cases "x = 2 powi (- j)")
      case True
      have "(2::real) powi (- j) < 2 powi (- j + 1)"
        by (rule power_int_strict_increasing) simp_all
      thus ?thesis using True e by simp
    next
      case False
      thus ?thesis using e lo up by simp
    qed
  qed
  thus "2 powi exponent x \<le> x" and "x < 2 powi (exponent x + 1)" by simp_all
qed


lemma pow2_split: "(2::real) powi (a + b) = 2 powi a * 2 powi b"
  by (simp add: power_int_add)

lemma pow2_diff: "(2::real) powi (a - b) = 2 powi a / 2 powi b"
  by (simp add: power_int_diff)

lemma exponent_le:
  assumes "0 < x" and "x < 2 powi (E + 1)"
  shows "exponent x \<le> E"
proof -
  have "(2::real) powi exponent x < 2 powi (E + 1)"
    using exponent_bounds(1) [OF assms(1)] assms(2) by linarith
  moreover have "(2::real) powi (E + 1) \<le> 2 powi exponent x" if "E + 1 \<le> exponent x"
    by (rule power_int_increasing) (use that in simp_all)
  ultimately show ?thesis by fastforce
qed

lemma exponent_mono:
  assumes "0 < x" and "x \<le> y"
  shows "exponent x \<le> exponent y"
proof -
  have "0 < y" using assms by linarith
  hence "x < 2 powi (exponent y + 1)"
    using exponent_bounds(2) [of y] assms(2) by linarith
  thus ?thesis by (rule exponent_le [OF assms(1)])
qed

lemma round_half_even_cases:
  "round_half_even y = \<lfloor>y\<rfloor> \<or> round_half_even y = \<lfloor>y\<rfloor> + 1"
  by (simp add: round_half_even_def Let_def)

lemma round_half_even_error: "\<bar>of_int (round_half_even y) - y\<bar> \<le> 1 / 2"
proof -
  define n where "n = \<lfloor>y\<rfloor>"
  define r where "r = y - of_int n"
  have r: "0 \<le> r" "r < 1" unfolding r_def n_def by linarith+
  have y: "y = of_int n + r" by (simp add: r_def)
  have "round_half_even y = n \<and> r \<le> 1 / 2 \<or> round_half_even y = n + 1 \<and> 1 / 2 \<le> r"
    unfolding round_half_even_def Let_def n_def [symmetric] r_def [symmetric] by auto
  thus ?thesis using r unfolding y by auto
qed

lemma round_half_even_of_int [simp]: "round_half_even (of_int n) = n"
  by (simp add: round_half_even_def)

lemma round_half_even_mono:
  assumes "y \<le> z"
  shows "round_half_even y \<le> round_half_even z"
proof (cases "\<lfloor>y\<rfloor> = \<lfloor>z\<rfloor>")
  case True
  thus ?thesis using assms by (auto simp: round_half_even_def Let_def)
next
  case False
  hence "\<lfloor>y\<rfloor> + 1 \<le> \<lfloor>z\<rfloor>" using floor_mono [OF assms] by linarith
  moreover have "round_half_even y \<le> \<lfloor>y\<rfloor> + 1"
    using round_half_even_cases [of y] by linarith
  moreover have "\<lfloor>z\<rfloor> \<le> round_half_even z"
    using round_half_even_cases [of z] by linarith
  ultimately show ?thesis by linarith
qed

lemma round_half_even_ge: "of_int n \<le> y \<Longrightarrow> n \<le> round_half_even y"
  using round_half_even_mono [of "of_int n" y] by simp

lemma round_half_even_le: "y \<le> of_int n \<Longrightarrow> round_half_even y \<le> n"
  using round_half_even_mono [of y "of_int n"] by simp

lemma to_double_zero [simp]: "to_double 0 = 0"
  by (simp add: to_double_def)

lemma to_double_minus: "to_double (- x) = - to_double x"
  by (simp add: to_double_def Let_def sgn_minus)

lemma to_double_pos:
  assumes "0 < x"
  shows "to_double x = of_int (round_half_even (x / 2 powi (max (exponent x) (- 1022) - 52)))
                  * 2 powi (max (exponent x) (- 1022) - 52)"
  using assms by (simp add: to_double_def Let_def)

lemma to_double_nonneg:
  assumes "0 \<le> x"
  shows "0 \<le> to_double x"
proof (cases "x = 0")
  case True
  thus ?thesis by simp
next
  case False
  hence x: "0 < x" using assms by simp
  let ?u = "(2::real) powi (max (exponent x) (- 1022) - 52)"
  have u: "0 < ?u" by simp
  have "of_int 0 \<le> x / ?u" using x u by simp
  hence "0 \<le> round_half_even (x / ?u)" by (rule round_half_even_ge)
  thus ?thesis unfolding to_double_pos [OF x] using u by simp
qed

lemma to_double_error_pos:
  assumes "0 < x" and "x < 2 powi (E + 1)" and "- 1022 \<le> E"
  shows "\<bar>to_double x - x\<bar> \<le> 2 powi (E - 53)"
proof -
  define e where "e = max (exponent x) (- 1022)"
  let ?u = "(2::real) powi (e - 52)"
  have u: "0 < ?u" by simp
  have eE: "e \<le> E" using exponent_le [OF assms(1,2)] assms(3) by (simp add: e_def)
  have "to_double x - x = (of_int (round_half_even (x / ?u)) - x / ?u) * ?u"
    unfolding to_double_pos [OF assms(1)] e_def [symmetric] using u by (simp add: field_simps)
  hence "\<bar>to_double x - x\<bar> = \<bar>of_int (round_half_even (x / ?u)) - x / ?u\<bar> * ?u"
    using u by (simp add: abs_mult)
  also have "\<dots> \<le> 1 / 2 * ?u"
    by (rule mult_right_mono [OF round_half_even_error]) simp
  also have "\<dots> = 2 powi (e - 53)"
    using pow2_diff [of "e - 52" 1] by simp
  also have "\<dots> \<le> 2 powi (E - 53)"
    by (rule power_int_increasing) (use eE in simp_all)
  finally show ?thesis .
qed

lemma to_double_error:
  assumes "\<bar>x\<bar> < 2 powi (E + 1)" and "- 1022 \<le> E"
  shows "\<bar>to_double x - x\<bar> \<le> 2 powi (E - 53)"
proof -
  consider "x = 0" | "0 < x" | "x < 0" by linarith
  thus ?thesis
  proof cases
    case 1
    thus ?thesis by simp
  next
    case 2
    thus ?thesis using to_double_error_pos [of x E] assms by simp
  next
    case 3
    hence "\<bar>to_double (- x) - (- x)\<bar> \<le> 2 powi (E - 53)"
      using to_double_error_pos [of "- x" E] assms by simp
    thus ?thesis by (simp add: to_double_minus)
  qed
qed

lemma to_double_mono_pos:
  assumes "0 < x" and "x \<le> y"
  shows "to_double x \<le> to_double y"
proof -
  have y: "0 < y" using assms by linarith
  define ex where "ex = max (exponent x) (- 1022)"
  define ey where "ey = max (exponent y) (- 1022)"
  have le: "ex \<le> ey" using exponent_mono [OF assms] by (simp add: ex_def ey_def)
  show ?thesis
  proof (cases "ex = ey")
    case True
    let ?u = "(2::real) powi (ey - 52)"
    have "x / ?u \<le> y / ?u" using assms(2) by (simp add: divide_right_mono)
    hence "round_half_even (x / ?u) \<le> round_half_even (y / ?u)"
      by (rule round_half_even_mono)
    hence "of_int (round_half_even (x / ?u)) * ?u \<le> of_int (round_half_even (y / ?u)) * ?u"
      by (simp add: mult_right_mono)
    thus ?thesis
      unfolding to_double_pos [OF assms(1)] to_double_pos [OF y] ex_def [symmetric] ey_def [symmetric] True .
  next
    case False
    hence lt: "ex + 1 \<le> ey" using le by simp
    hence eyy: "ey = exponent y" by (simp add: ey_def ex_def max_def split: if_splits)
    let ?ux = "(2::real) powi (ex - 52)"
    let ?uy = "(2::real) powi (ey - 52)"
    have "x < 2 powi (exponent x + 1)" by (rule exponent_bounds(2) [OF assms(1)])
    also have "\<dots> \<le> 2 powi (ex + 1)"
      by (rule power_int_increasing) (simp_all add: ex_def)
    finally have "x / ?ux \<le> 2 powi (ex + 1) / ?ux" by (simp add: divide_right_mono)
    also have "2 powi (ex + 1) / ?ux = (2::real) powi ((ex + 1) - (ex - 52))"
      by (simp only: pow2_diff)
    also have "\<dots> = (2::real) powi 53" by (rule arg_cong [where f = "\<lambda>n. 2 powi n"]) simp
    also have "\<dots> = of_int (2 ^ 53)" by simp
    finally have "round_half_even (x / ?ux) \<le> 2 ^ 53" by (rule round_half_even_le)
    hence "of_int (round_half_even (x / ?ux)) * ?ux \<le> of_int (2 ^ 53) * ?ux"
      by (intro mult_right_mono) (simp_all only: of_int_le_iff, simp)
    also have "of_int (2 ^ 53) * ?ux = (2::real) powi 53 * ?ux" by simp
    also have "\<dots> = 2 powi (53 + (ex - 52))" by (simp only: pow2_split)
    also have "\<dots> = 2 powi (ex + 1)" by (rule arg_cong [where f = "\<lambda>n. 2 powi n"]) simp
    finally have upx: "to_double x \<le> 2 powi (ex + 1)"
      unfolding to_double_pos [OF assms(1)] ex_def [symmetric] .
    have "(2::real) powi 52 * ?uy = 2 powi (52 + (ey - 52))" by (simp only: pow2_split)
    also have "\<dots> = 2 powi ey" by (rule arg_cong [where f = "\<lambda>n. 2 powi n"]) simp
    also have "\<dots> \<le> y" using exponent_bounds(1) [OF y] eyy by simp
    finally have "(2::real) powi 52 \<le> y / ?uy" by (simp add: field_simps)
    moreover have "(2::real) powi 52 = of_int (2 ^ 52)" by simp
    ultimately have "of_int (2 ^ 52) \<le> y / ?uy" by simp
    hence "2 ^ 52 \<le> round_half_even (y / ?uy)" by (rule round_half_even_ge)
    hence r52: "(of_int (2 ^ 52) :: real) \<le> of_int (round_half_even (y / ?uy))"
      by (simp only: of_int_le_iff)
    have "(2::real) powi ey = 2 powi (52 + (ey - 52))"
      by (rule arg_cong [where f = "\<lambda>n. 2 powi n"]) simp
    also have "\<dots> = 2 powi 52 * ?uy" by (simp only: pow2_split)
    also have "\<dots> = of_int (2 ^ 52) * ?uy" by simp
    also have "\<dots> \<le> of_int (round_half_even (y / ?uy)) * ?uy"
      by (rule mult_right_mono [OF r52]) simp
    finally have loy: "2 powi ey \<le> to_double y"
      unfolding to_double_pos [OF y] ey_def [symmetric] .
    have "(2::real) powi (ex + 1) \<le> 2 powi ey"
      by (rule power_int_increasing) (use lt in simp_all)
    thus ?thesis using upx loy by linarith
  qed
qed

lemma to_double_mono:
  assumes "x \<le> y"
  shows "to_double x \<le> to_double y"
proof -
  consider "0 < x" | "x \<le> 0" "0 \<le> y" | "y < 0" using assms by linarith
  thus ?thesis
  proof cases
    case 1
    thus ?thesis using assms by (rule to_double_mono_pos)
  next
    case 2
    have "to_double x = - to_double (- x)" by (simp add: to_double_minus)
    moreover have "0 \<le> to_double (- x)" using 2(1) by (intro to_double_nonneg) simp
    moreover have "0 \<le> to_double y" using 2(2) by (rule to_double_nonneg)
    ultimately show ?thesis by linarith
  next
    case 3
    hence "to_double (- y) \<le> to_double (- x)" using assms by (intro to_double_mono_pos) simp_all
    thus ?thesis by (simp add: to_double_minus)
  qed
qed

lemma exponent_ge:
  assumes "0 < x" and "2 powi E \<le> x"
  shows "E \<le> exponent x"
proof -
  have "(2::real) powi E < 2 powi (exponent x + 1)"
    using exponent_bounds(2) [OF assms(1)] assms(2) by linarith
  moreover have "(2::real) powi (exponent x + 1) \<le> 2 powi E" if "exponent x + 1 \<le> E"
    by (rule power_int_increasing) (use that in simp_all)
  ultimately show ?thesis by fastforce
qed

lemma to_double_error_1024: "\<bar>x\<bar> < 1024 \<Longrightarrow> \<bar>to_double x - x\<bar> \<le> 1 / 2 ^ 44"
  using to_double_error [of x 9] by simp

lemma to_double_error_16: "\<bar>x\<bar> < 16 \<Longrightarrow> \<bar>to_double x - x\<bar> \<le> 1 / 2 ^ 50"
  using to_double_error [of x 3] by simp

lemma double_grid_8_16:
  assumes "to_double v = v" and "8 \<le> v" and "v < 16"
  shows "\<exists>m::int. v = of_int m / 2 ^ 49"
proof -
  have pos: "0 < v" using assms(2) by simp
  have "exponent v \<le> 3" by (rule exponent_le [OF pos]) (use assms(3) in simp)
  moreover have "3 \<le> exponent v" by (rule exponent_ge [OF pos]) (use assms(2) in simp)
  ultimately have e: "exponent v = 3" by simp
  have "to_double v = of_int (round_half_even (v / 2 powi (- 49))) * 2 powi (- 49)"
    unfolding to_double_pos [OF pos] e by simp
  hence "v = of_int (round_half_even (v / 2 powi (- 49))) / 2 ^ 49"
    unfolding assms(1) by (simp add: power_int_minus field_simps)
  thus ?thesis ..
qed

lemma round_half_even_above:
  assumes "of_int m - 1 / 2 < y"
  shows "m \<le> round_half_even y"
proof -
  have "of_int (m - 1) < y" using assms by simp
  hence f: "m - 1 \<le> \<lfloor>y\<rfloor>" by (simp add: le_floor_iff)
  show ?thesis
  proof (cases "\<lfloor>y\<rfloor> = m - 1")
    case True
    hence "1 / 2 < y - of_int \<lfloor>y\<rfloor>" using assms by simp
    thus ?thesis using True by (simp add: round_half_even_def Let_def)
  next
    case False
    hence "m \<le> \<lfloor>y\<rfloor>" using f by simp
    thus ?thesis using round_half_even_cases [of y] by linarith
  qed
qed

lemma round_half_even_below:
  assumes "y < of_int m + 1 / 2"
  shows "round_half_even y \<le> m"
proof -
  have "y < of_int (m + 1)" using assms by simp
  hence "\<lfloor>y\<rfloor> < m + 1" by (simp only: floor_less_iff)
  hence f: "\<lfloor>y\<rfloor> \<le> m" by simp
  show ?thesis
  proof (cases "\<lfloor>y\<rfloor> = m")
    case True
    hence "y - of_int \<lfloor>y\<rfloor> < 1 / 2" using assms by simp
    thus ?thesis using True by (simp add: round_half_even_def Let_def)
  next
    case False
    hence "\<lfloor>y\<rfloor> + 1 \<le> m" using f by simp
    thus ?thesis using round_half_even_cases [of y] by linarith
  qed
qed

lemma to_double_8_16:
  assumes "8 \<le> x" and "x < 16"
  shows "to_double x = of_int (round_half_even (x * 2 ^ 49)) / 2 ^ 49"
proof -
  have pos: "0 < x" using assms(1) by simp
  have "exponent x \<le> 3" by (rule exponent_le [OF pos]) (use assms(2) in simp)
  moreover have "3 \<le> exponent x" by (rule exponent_ge [OF pos]) (use assms(1) in simp)
  ultimately have e: "exponent x = 3" by simp
  show ?thesis unfolding to_double_pos [OF pos] e by (simp add: power_int_minus field_simps)
qed

lemma to_double_near_16:
  assumes "\<bar>x\<bar> < 16"
  shows "x - 1 / 1125899906842624 \<le> to_double x" and "to_double x \<le> x + 1 / 1125899906842624"
  using to_double_error_16 [OF assms] by (auto simp: abs_if field_simps split: if_splits)

lemma to_double_near_1024:
  assumes "\<bar>x\<bar> < 1024"
  shows "x - 1 / 17592186044416 \<le> to_double x" and "to_double x \<le> x + 1 / 17592186044416"
  using to_double_error_1024 [OF assms] by (auto simp: abs_if field_simps split: if_splits)

lemma to_double_small [simp]:
  "to_double 1 = 1" "to_double 2 = 2" "to_double 4 = 4" "to_double 6 = 6" "to_double 8 = 8"
  "to_double 10 = 10"
  "to_double 15 = 15" "to_double 30 = 30" "to_double 60 = 60"
  by code_simp+
section \<open>The initial pheromone\<close>

lemma Random_iter_zero: "Random_iter n 0 = 0"
  by (induction n) (simp_all add: Random_get_def)

lemma pheromone_new_zero:
  "pheromone (GameInfo_new 0) i j k
     = (if 0 \<le> i \<and> i < 2 \<and> 0 \<le> j \<and> j < MAP_SIZE \<and> 0 \<le> k \<and> k < MAP_SIZE then 8 else 0)"
  by (simp add: GameInfo_new_def Random_iter_zero)
section \<open>Geometry\<close>

lemma smod_2_nonneg: "0 \<le> (a::int) \<Longrightarrow> a smod 2 = a mod 2"
  by (simp add: signed_modulo_int_def sgn_if)

lemma sdiv_2_nonneg: "0 \<le> (a::int) \<Longrightarrow> a sdiv 2 = a div 2"
  by (simp add: signed_divide_int_def sgn_if)

lemma is_valid_pos_nonneg: "is_valid_pos x y \<Longrightarrow> 0 \<le> x \<and> 0 \<le> y"
  by (auto simp: is_valid_pos_def split: if_splits)

lemma distance_nonneg_y:
  assumes "0 \<le> y0" "0 \<le> y1"
  shows "distance x0 y0 x1 y1 =
     \<bar>y0 - y1\<bar> +
       (if \<bar>y0 - y1\<bar> mod 2 \<noteq> 0
        then (if x0 > x1
              then max 0 (\<bar>x0 - x1\<bar> - \<bar>y0 - y1\<bar> div 2 - (y0 mod 2))
              else max 0 (\<bar>x0 - x1\<bar> - \<bar>y0 - y1\<bar> div 2 - (1 - (y0 mod 2))))
        else max 0 (\<bar>x0 - x1\<bar> - \<bar>y0 - y1\<bar> div 2))"
  using assms by (simp add: distance_def Let_def smod_2_nonneg sdiv_2_nonneg)

lemma distance_self: "distance x y x y = 0"
  by (simp add: distance_def)

lemma distance_ge_dy:
  assumes "0 \<le> y0" "0 \<le> y1"
  shows "\<bar>y0 - y1\<bar> \<le> distance x0 y0 x1 y1"
  unfolding distance_nonneg_y [OF assms] by (simp add: max_def)

lemma odd_diff_parity: "\<bar>y0 - y1\<bar> mod 2 \<noteq> 0 \<Longrightarrow> (y1::int) mod 2 = 1 - y0 mod 2"
  by presburger

lemma distance_sym:
  assumes "0 \<le> y0" "0 \<le> y1"
  shows "distance x0 y0 x1 y1 = distance x1 y1 x0 y0"
proof -
  have flip: "\<bar>y1 - y0\<bar> = \<bar>y0 - y1\<bar>" "\<bar>x1 - x0\<bar> = \<bar>x0 - x1\<bar>"
    by auto
  show ?thesis
  proof (cases "\<bar>y0 - y1\<bar> mod 2 \<noteq> 0")
    case True
    show ?thesis
      unfolding distance_nonneg_y [OF assms] distance_nonneg_y [OF assms(2) assms(1)]
      using True odd_diff_parity [OF True]
      by (simp only: flip if_True) (auto simp: max_def)
  next
    case False
    show ?thesis
      unfolding distance_nonneg_y [OF assms] distance_nonneg_y [OF assms(2) assms(1)]
      using False by (simp only: flip if_False)
  qed
qed

lemma offset_even: "0 \<le> y \<Longrightarrow> y mod 2 = 0 \<Longrightarrow> offset y i = OFFSET ! 0 ! i"
  by (simp add: offset_def smod_2_nonneg)

lemma offset_odd: "0 \<le> y \<Longrightarrow> y mod 2 = 1 \<Longrightarrow> offset y i = OFFSET ! 1 ! i"
  by (simp add: offset_def smod_2_nonneg)

lemma less_6_cases: "(i::nat) < 6 \<longleftrightarrow> i = 0 \<or> i = 1 \<or> i = 2 \<or> i = 3 \<or> i = 4 \<or> i = 5"
  by arith

lemma ex_less_6: "(\<exists>i<6::nat. P i) \<longleftrightarrow> P 0 \<or> P 1 \<or> P 2 \<or> P 3 \<or> P 4 \<or> P 5"
  by (auto simp: less_6_cases)

lemma neighbor_iff_even:
  assumes "0 \<le> y" "y mod 2 = 0"
  shows "(\<exists>i<6. (x', y') = neighbor x y i) \<longleftrightarrow>
     (x', y') \<in> {(x, y + 1), (x - 1, y), (x, y - 1), (x + 1, y - 1), (x + 1, y), (x + 1, y + 1)}"
  unfolding ex_less_6 neighbor_def offset_even [OF assms]
  by (simp add: OFFSET_def)

lemma neighbor_iff_odd:
  assumes "0 \<le> y" "y mod 2 = 1"
  shows "(\<exists>i<6. (x', y') = neighbor x y i) \<longleftrightarrow>
     (x', y') \<in> {(x - 1, y + 1), (x - 1, y), (x - 1, y - 1), (x, y - 1), (x + 1, y), (x, y + 1)}"
  unfolding ex_less_6 neighbor_def offset_odd [OF assms]
  by (simp add: OFFSET_def)

lemma distance_one_iff_neighbor:
  assumes "0 \<le> y0" "0 \<le> y1"
  shows "distance x0 y0 x1 y1 = 1 \<longleftrightarrow> (\<exists>i<6. (x1, y1) = neighbor x0 y0 i)"
proof -
  consider (same) "y1 = y0" | (up) "y1 = y0 + 1" | (down) "y1 = y0 - 1"
    | (far) "2 \<le> \<bar>y0 - y1\<bar>"
    by linarith
  then show ?thesis
  proof cases
    case same
    show ?thesis
    proof (cases "y0 mod 2 = 0")
      case True
      show ?thesis
        unfolding neighbor_iff_even [OF assms(1) True] distance_nonneg_y [OF assms]
        using same by auto
    next
      case False
      then have odd: "y0 mod 2 = 1" by presburger
      show ?thesis
        unfolding neighbor_iff_odd [OF assms(1) odd] distance_nonneg_y [OF assms]
        using same by auto
    qed
  next
    case up
    show ?thesis
    proof (cases "y0 mod 2 = 0")
      case True
      show ?thesis
        unfolding neighbor_iff_even [OF assms(1) True] distance_nonneg_y [OF assms]
        using up True by (auto simp: max_def)
    next
      case False
      then have odd: "y0 mod 2 = 1" by presburger
      show ?thesis
        unfolding neighbor_iff_odd [OF assms(1) odd] distance_nonneg_y [OF assms]
        using up odd by (auto simp: max_def)
    qed
  next
    case down
    show ?thesis
    proof (cases "y0 mod 2 = 0")
      case True
      show ?thesis
        unfolding neighbor_iff_even [OF assms(1) True] distance_nonneg_y [OF assms]
        using down True by (auto simp: max_def)
    next
      case False
      then have odd: "y0 mod 2 = 1" by presburger
      show ?thesis
        unfolding neighbor_iff_odd [OF assms(1) odd] distance_nonneg_y [OF assms]
        using down odd by (auto simp: max_def)
    qed
  next
    case far
    have "2 \<le> distance x0 y0 x1 y1"
      using far distance_ge_dy [OF assms, of x0 x1] by linarith
    moreover have "\<not> (\<exists>i<6. (x1, y1) = neighbor x0 y0 i)"
    proof (cases "y0 mod 2 = 0")
      case True
      show ?thesis
        unfolding neighbor_iff_even [OF assms(1) True] using far by auto
    next
      case False
      then have odd: "y0 mod 2 = 1" by presburger
      show ?thesis
        unfolding neighbor_iff_odd [OF assms(1) odd] using far by auto
    qed
    ultimately show ?thesis by simp
  qed
qed

text \<open>
  C7. For all valid board cells \<open>p = (x0, y0)\<close> and \<open>q = (x1, y1)\<close>: the distance from
  \<open>p\<close> to itself is 0, the distance is symmetric, and the distance is 1 exactly when
  \<open>q\<close> is one of the six neighbours of \<open>p\<close> under the offset table of \<open>p\<close>'s parity, in
  which case \<open>p\<close> is a neighbour of \<open>q\<close> as well.
\<close>

theorem distance_hex_metric:
  assumes "is_valid_pos x0 y0" and "is_valid_pos x1 y1"
  shows "distance x0 y0 x0 y0 = 0
       \<and> distance x0 y0 x1 y1 = distance x1 y1 x0 y0
       \<and> (distance x0 y0 x1 y1 = 1 \<longleftrightarrow> (\<exists>i<6. (x1, y1) = neighbor x0 y0 i))
       \<and> (distance x0 y0 x1 y1 = 1 \<longrightarrow> (\<exists>j<6. (x0, y0) = neighbor x1 y1 j))"
proof -
  have y0: "0 \<le> y0" and y1: "0 \<le> y1"
    using assms is_valid_pos_nonneg by blast+
  have sym: "distance x0 y0 x1 y1 = distance x1 y1 x0 y0"
    by (rule distance_sym [OF y0 y1])
  have mutual: "distance x0 y0 x1 y1 = 1 \<longrightarrow> (\<exists>j<6. (x0, y0) = neighbor x1 y1 j)"
    using distance_one_iff_neighbor [OF y1 y0, of x1 x0] sym by simp
  show ?thesis
    using distance_self sym distance_one_iff_neighbor [OF y0 y1] mutual by blast
qed

theorem distance_hex_metric_witness:
  "is_valid_pos 2 9 \<and> is_valid_pos 3 9
   \<and> distance 2 9 2 9 = 0 \<and> distance 2 9 3 9 = distance 3 9 2 9
   \<and> distance 2 9 3 9 = 1 \<and> (\<exists>i<6. (3, 9) = neighbor 2 9 i)
   \<and> (\<exists>j<6. (2, 9) = neighbor 3 9 j)"
proof -
  have p: "is_valid_pos 2 9" and q: "is_valid_pos 3 9"
    by (simp_all add: is_valid_pos_def MAP_SIZE_def EDGE_def MAP_PROPERTY_def Void_def)
  have d: "distance 2 9 3 9 = 1"
    by (simp add: distance_def)
  show ?thesis
    using distance_hex_metric [OF p q] p q d by simp
qed

section \<open>Global pheromone attenuation\<close>

text \<open>
  The two constants of the attenuation as doubles: the literal \<open>0.97\<close> and
  \<open>(1 - 0.97) * 10\<close>, which is \<open>0.30000000000000027\<close>.
\<close>

lemma ratio_value: "PHEROMONE_ATTENUATING_RATIO = 4368491638549381 / 4503599627370496"
  by code_simp

lemma shift_value:
  "to_double (to_double (1 - PHEROMONE_ATTENUATING_RATIO) * PHEROMONE_INIT)
     = 675539944105575 / 2251799813685248"
  by code_simp

lemma attenuated_value:
  "attenuated v = to_double (to_double (4368491638549381 / 4503599627370496 * v)
                             + 675539944105575 / 2251799813685248)"
  unfolding attenuated_def shift_value unfolding ratio_value ..

lemma attenuated_baseline: "attenuated 10 = 10"
  by code_simp

lemma attenuated_mono:
  assumes "v \<le> w"
  shows "attenuated v \<le> attenuated w"
proof -
  have "4368491638549381 / 4503599627370496 * v \<le> 4368491638549381 / 4503599627370496 * w"
    using assms by simp
  hence "to_double (4368491638549381 / 4503599627370496 * v)
           \<le> to_double (4368491638549381 / 4503599627370496 * w)"
    by (rule to_double_mono)
  hence "to_double (4368491638549381 / 4503599627370496 * v) + 675539944105575 / 2251799813685248
           \<le> to_double (4368491638549381 / 4503599627370496 * w) + 675539944105575 / 2251799813685248"
    by simp
  thus ?thesis unfolding attenuated_value by (rule to_double_mono)
qed

lemma attenuated_nonneg:
  assumes "0 \<le> v"
  shows "0 \<le> attenuated v"
proof -
  have "0 \<le> to_double (4368491638549381 / 4503599627370496 * v)"
    using assms by (intro to_double_nonneg) simp
  hence "0 \<le> to_double (4368491638549381 / 4503599627370496 * v) + 675539944105575 / 2251799813685248"
    by simp
  thus ?thesis unfolding attenuated_value by (rule to_double_nonneg)
qed

lemma attenuated_near:
  assumes "0 \<le> v" and "v \<le> 1024"
  shows "\<bar>attenuated v - (0.97 * v + 0.03 * 10)\<bar> \<le> 1 / 2 ^ 42"
proof -
  define a where "a = 4368491638549381 / 4503599627370496 * v"
  define s where "s = to_double a + 675539944105575 / 2251799813685248"
  have a: "0 \<le> a" "a \<le> 4368491638549381 / 4503599627370496 * 1024"
    using assms by (simp_all add: a_def)
  have ea: "\<bar>to_double a - a\<bar> \<le> 1 / 2 ^ 44"
    by (rule to_double_error_1024) (use a in simp)
  have "\<bar>s\<bar> < 1024" using ea a by (simp add: s_def abs_if split: if_splits)
  hence es: "\<bar>to_double s - s\<bar> \<le> 1 / 2 ^ 44" by (rule to_double_error_1024)
  have f: "attenuated v = to_double s" by (simp add: attenuated_value s_def a_def)
  show ?thesis
    using ea es assms unfolding f s_def a_def by (simp add: abs_if split: if_splits)
qed

lemma attenuated_contracts:
  assumes "0 \<le> v" and "v \<le> 1024"
  shows "\<bar>attenuated v - 10\<bar> \<le> 0.97 * \<bar>v - 10\<bar> + 1 / 2 ^ 42"
  using attenuated_near [OF assms] by (auto simp: abs_if field_simps split: if_splits)

lemma attenuated_range:
  assumes "0 \<le> v" and "v \<le> 1024"
  shows "0 \<le> attenuated v" and "attenuated v \<le> 1024"
proof -
  show "0 \<le> attenuated v" by (rule attenuated_nonneg [OF assms(1)])
  have "\<bar>attenuated v - (97 / 100 * v + 3 / 10)\<bar> \<le> 1 / 4398046511104"
    using attenuated_near [OF assms] by simp
  thus "attenuated v \<le> 1024" using assms by linarith
qed

lemma attenuated_iter_range:
  assumes "0 \<le> v" and "v \<le> 1024"
  shows "0 \<le> (attenuated ^^ n) v \<and> (attenuated ^^ n) v \<le> 1024"
  by (induction n) (simp_all add: assms attenuated_range)

lemma attenuated_iter_contracts:
  assumes "0 \<le> v" and "v \<le> 1024"
  shows "\<bar>(attenuated ^^ n) v - 10\<bar> \<le> 0.97 ^ n * \<bar>v - 10\<bar> + 1 / 2 ^ 36"
proof (induction n)
  case 0
  show ?case by simp
next
  case (Suc n)
  let ?w = "(attenuated ^^ n) v"
  have r: "0 \<le> ?w" "?w \<le> 1024" using attenuated_iter_range [OF assms, of n] by simp_all
  have "\<bar>attenuated ?w - 10\<bar> \<le> 0.97 * \<bar>?w - 10\<bar> + 1 / 2 ^ 42"
    by (rule attenuated_contracts [OF r])
  also have "\<dots> \<le> 0.97 * (0.97 ^ n * \<bar>v - 10\<bar> + 1 / 2 ^ 36) + 1 / 2 ^ 42"
    using Suc.IH by simp
  also have "\<dots> \<le> 0.97 ^ Suc n * \<bar>v - 10\<bar> + 1 / 2 ^ 36"
    by (simp add: algebra_simps)
  finally show ?case by simp
qed

lemma attenuated_iter_nonneg:
  assumes "0 \<le> v"
  shows "0 \<le> (attenuated ^^ n) v"
  by (induction n) (simp_all add: assms attenuated_nonneg)

lemma attenuated_side:
  "v \<le> 10 \<Longrightarrow> attenuated v \<le> 10" "10 \<le> v \<Longrightarrow> 10 \<le> attenuated v"
  using attenuated_mono [of v 10] attenuated_mono [of 10 v] by (simp_all add: attenuated_baseline)

lemma attenuated_toward_below:
  assumes "to_double v = v" and "0 \<le> v" and "v \<le> 10"
  shows "v \<le> attenuated v"
proof -
  define a where "a = 4368491638549381 / 4503599627370496 * v"
  define s where "s = to_double a + 675539944105575 / 2251799813685248"
  have f: "attenuated v = to_double s" by (simp add: attenuated_value s_def a_def)
  have "\<bar>a\<bar> < 16" using assms(2,3) by (simp add: a_def)
  hence ea: "a - 1 / 1125899906842624 \<le> to_double a" "to_double a \<le> a + 1 / 1125899906842624"
    by (rule to_double_near_16)+
  consider "v \<le> 10 - 1 / 2 ^ 44" | "v = 10" | "10 - 1 / 2 ^ 44 < v" "v < 10"
    using assms(3) by linarith
  thus ?thesis
  proof cases
    case 1
    hence "v \<le> s" using ea(1) by (simp add: s_def a_def field_simps)
    hence "to_double v \<le> to_double s" by (rule to_double_mono)
    thus ?thesis by (simp add: f assms(1))
  next
    case 2
    thus ?thesis by (simp add: attenuated_baseline)
  next
    case 3
    have v8: "8 \<le> v" "v < 16" using 3 by simp_all
    obtain m :: int where m: "v = of_int m / 2 ^ 49"
      using double_grid_8_16 [OF assms(1) v8] by blast
    have lo: "v - 1 / 1125899906842624 < s"
      using ea(1) 3(2) by (simp add: s_def a_def field_simps)
    have s8: "8 \<le> s" "s < 16"
      using ea 3 by (simp_all add: s_def a_def field_simps)
    have "of_int m - 1 / 2 < s * 2 ^ 49"
      using lo by (simp add: m field_simps)
    hence "m \<le> round_half_even (s * 2 ^ 49)" by (rule round_half_even_above)
    hence "(of_int m :: real) \<le> of_int (round_half_even (s * 2 ^ 49))"
      by (simp only: of_int_le_iff)
    hence "v \<le> to_double s"
      unfolding to_double_8_16 [OF s8] m by (simp add: divide_right_mono)
    thus ?thesis by (simp add: f)
  qed
qed

lemma attenuated_toward_above:
  assumes "to_double v = v" and "10 \<le> v" and "v \<le> 1024"
  shows "attenuated v \<le> v"
proof -
  define a where "a = 4368491638549381 / 4503599627370496 * v"
  define s where "s = to_double a + 675539944105575 / 2251799813685248"
  have f: "attenuated v = to_double s" by (simp add: attenuated_value s_def a_def)
  consider "16 \<le> v" | "10 + 1 / 2 ^ 44 \<le> v" "v < 16" | "v = 10" | "10 < v" "v < 10 + 1 / 2 ^ 44"
    using assms(2) by linarith
  thus ?thesis
  proof cases
    case 1
    have "\<bar>a\<bar> < 1024" using assms(2,3) by (simp add: a_def)
    hence "to_double a \<le> a + 1 / 17592186044416" by (rule to_double_near_1024)
    hence "s \<le> v" using 1 by (simp add: s_def a_def field_simps)
    hence "to_double s \<le> to_double v" by (rule to_double_mono)
    thus ?thesis by (simp add: f assms(1))
  next
    case 2
    have "\<bar>a\<bar> < 16" using assms(2) 2 by (simp add: a_def)
    hence "to_double a \<le> a + 1 / 1125899906842624" by (rule to_double_near_16)
    hence "s \<le> v" using 2 by (simp add: s_def a_def field_simps)
    hence "to_double s \<le> to_double v" by (rule to_double_mono)
    thus ?thesis by (simp add: f assms(1))
  next
    case 3
    thus ?thesis by (simp add: attenuated_baseline)
  next
    case 4
    have "\<bar>a\<bar> < 16" using assms(2) 4 by (simp add: a_def)
    hence ea: "a - 1 / 1125899906842624 \<le> to_double a" "to_double a \<le> a + 1 / 1125899906842624"
      by (rule to_double_near_16)+
    have v8: "8 \<le> v" "v < 16" using 4 by simp_all
    obtain m :: int where m: "v = of_int m / 2 ^ 49"
      using double_grid_8_16 [OF assms(1) v8] by blast
    have hi: "s < v + 1 / 1125899906842624"
      using ea(2) 4(1) by (simp add: s_def a_def field_simps)
    have s8: "8 \<le> s" "s < 16"
      using ea 4 by (simp_all add: s_def a_def field_simps)
    have "s * 2 ^ 49 < of_int m + 1 / 2"
      using hi by (simp add: m field_simps)
    hence "round_half_even (s * 2 ^ 49) \<le> m" by (rule round_half_even_below)
    hence "(of_int (round_half_even (s * 2 ^ 49)) :: real) \<le> of_int m"
      by (simp only: of_int_le_iff)
    hence "to_double s \<le> v"
      unfolding to_double_8_16 [OF s8] m by (simp add: divide_right_mono)
    thus ?thesis by (simp add: f)
  qed
qed

lemma attenuation_cell:
  assumes "0 \<le> i \<and> i < 2 \<and> 0 \<le> j \<and> j < MAP_SIZE \<and> 0 \<le> k \<and> k < MAP_SIZE"
  shows "pheromone (global_pheromone_attenuation g) i j k = attenuated (pheromone g i j k)"
  using assms by (simp add: global_pheromone_attenuation_def attenuated_def)

lemma attenuation_iter:
  assumes "0 \<le> i \<and> i < 2 \<and> 0 \<le> j \<and> j < MAP_SIZE \<and> 0 \<le> k \<and> k < MAP_SIZE"
  shows "pheromone ((global_pheromone_attenuation ^^ n) g) i j k = (attenuated ^^ n) (pheromone g i j k)"
  by (induction n) (simp_all add: attenuation_cell [OF assms])

lemma attenuated_8: "attenuated 8 = 4537376624575775 / 562949953421312"
  by code_simp

lemma attenuated_stuck: "attenuated (10 - 1 / 2 ^ 46) = 10 - 1 / 2 ^ 46"
  by code_simp

lemma stuck_cell: "pheromone stuck_info 0 0 0 = 10 - 1 / 2 ^ 46"
proof -
  have r: "Random_get 176057759362203 = 140737488355327"
    by (simp add: Random_get_def)
  have d: "to_double (to_double (140737488355327 * 2 powi (- 46)) + 8) = 10 - 1 / 2 ^ 46"
    by code_simp
  show ?thesis
    using d by (simp add: stuck_info_def GameInfo_new_def MAP_SIZE_def EDGE_def r)
qed

lemma first_cell: "(0::int) \<le> 0 \<and> (0::int) < 2 \<and> (0::int) \<le> 0 \<and> 0 < MAP_SIZE \<and> (0::int) \<le> 0 \<and> 0 < MAP_SIZE"
  by (simp add: MAP_SIZE_def EDGE_def)

text \<open>
  C8. One global attenuation stores in every cell of the map the value of
  \<open>0.97 * v + (1 - 0.97) * 10\<close> computed in \<open>double\<close> arithmetic, each of the four
  operations rounded. For \<open>0 \<le> v \<le> 1024\<close> the result is within \<open>2^-42\<close> of
  \<open>0.97 * v + 0.03 * 10\<close>, so the distance to the baseline \<open>PHEROMONE_INIT = 10\<close> shrinks
  by the factor 0.97 up to that rounding error, after \<open>n\<close> rounds it is at most
  \<open>0.97 ^ n\<close> times the initial distance plus \<open>2^-36\<close>, and it never grows when the cell
  holds a double. The baseline is a fixed point, no value crosses it, and an intensity
  that starts at or above the floor \<open>PHEROMONE_MIN = 0\<close> stays there.
\<close>

theorem global_pheromone_attenuation_rounded:
  assumes "0 \<le> i \<and> i < 2 \<and> 0 \<le> j \<and> j < MAP_SIZE \<and> 0 \<le> k \<and> k < MAP_SIZE"
  shows "pheromone (global_pheromone_attenuation g) i j k
           = to_double (to_double (PHEROMONE_ATTENUATING_RATIO * pheromone g i j k)
                        + to_double (to_double (1 - PHEROMONE_ATTENUATING_RATIO) * PHEROMONE_INIT))
       \<and> (PHEROMONE_MIN \<le> pheromone g i j k \<and> pheromone g i j k \<le> 1024 \<longrightarrow>
             \<bar>pheromone (global_pheromone_attenuation g) i j k - (0.97 * pheromone g i j k + 0.03 * 10)\<bar>
               \<le> 1 / 2 ^ 42
           \<and> \<bar>pheromone (global_pheromone_attenuation g) i j k - PHEROMONE_INIT\<bar>
               \<le> 0.97 * \<bar>pheromone g i j k - PHEROMONE_INIT\<bar> + 1 / 2 ^ 42
           \<and> \<bar>pheromone ((global_pheromone_attenuation ^^ n) g) i j k - PHEROMONE_INIT\<bar>
               \<le> 0.97 ^ n * \<bar>pheromone g i j k - PHEROMONE_INIT\<bar> + 1 / 2 ^ 36
           \<and> (to_double (pheromone g i j k) = pheromone g i j k \<longrightarrow>
                 \<bar>pheromone (global_pheromone_attenuation g) i j k - PHEROMONE_INIT\<bar>
                   \<le> \<bar>pheromone g i j k - PHEROMONE_INIT\<bar>))
       \<and> (pheromone g i j k = PHEROMONE_INIT
            \<longrightarrow> pheromone (global_pheromone_attenuation g) i j k = PHEROMONE_INIT)
       \<and> (pheromone g i j k \<le> PHEROMONE_INIT
            \<longrightarrow> pheromone (global_pheromone_attenuation g) i j k \<le> PHEROMONE_INIT)
       \<and> (PHEROMONE_INIT \<le> pheromone g i j k
            \<longrightarrow> PHEROMONE_INIT \<le> pheromone (global_pheromone_attenuation g) i j k)
       \<and> (PHEROMONE_MIN \<le> pheromone g i j k
            \<longrightarrow> PHEROMONE_MIN \<le> pheromone ((global_pheromone_attenuation ^^ n) g) i j k)"
proof -
  define v where "v = pheromone g i j k"
  have one: "pheromone (global_pheromone_attenuation g) i j k = attenuated v"
    unfolding v_def by (rule attenuation_cell [OF assms])
  have many: "pheromone ((global_pheromone_attenuation ^^ n) g) i j k = (attenuated ^^ n) v"
    unfolding v_def by (rule attenuation_iter [OF assms])
  have never_grows: "\<bar>attenuated v - 10\<bar> \<le> \<bar>v - 10\<bar>"
    if "to_double v = v" and "0 \<le> v" and "v \<le> 1024"
  proof (cases "v \<le> 10")
    case True
    thus ?thesis
      using attenuated_toward_below [OF that(1,2) True] attenuated_side(1) [OF True] by simp
  next
    case False
    hence ge: "10 \<le> v" by simp
    thus ?thesis
      using attenuated_toward_above [OF that(1) ge that(3)] attenuated_side(2) [OF ge] by simp
  qed
  have "attenuated v
           = to_double (to_double (PHEROMONE_ATTENUATING_RATIO * v)
                        + to_double (to_double (1 - PHEROMONE_ATTENUATING_RATIO) * PHEROMONE_INIT))"
    by (simp only: attenuated_def)
  moreover have "0 \<le> v \<and> v \<le> 1024 \<longrightarrow>
             \<bar>attenuated v - (0.97 * v + 0.03 * 10)\<bar> \<le> 1 / 2 ^ 42
           \<and> \<bar>attenuated v - 10\<bar> \<le> 0.97 * \<bar>v - 10\<bar> + 1 / 2 ^ 42
           \<and> \<bar>(attenuated ^^ n) v - 10\<bar> \<le> 0.97 ^ n * \<bar>v - 10\<bar> + 1 / 2 ^ 36
           \<and> (to_double v = v \<longrightarrow> \<bar>attenuated v - 10\<bar> \<le> \<bar>v - 10\<bar>)"
    using attenuated_near [of v] attenuated_contracts [of v] attenuated_iter_contracts [of v n]
      never_grows by blast
  moreover have "v = 10 \<longrightarrow> attenuated v = 10" by (simp add: attenuated_baseline)
  moreover have "v \<le> 10 \<longrightarrow> attenuated v \<le> 10" using attenuated_side(1) by blast
  moreover have "10 \<le> v \<longrightarrow> 10 \<le> attenuated v" using attenuated_side(2) by blast
  moreover have "0 \<le> v \<longrightarrow> 0 \<le> (attenuated ^^ n) v" using attenuated_iter_nonneg by blast
  ultimately show ?thesis
    unfolding one many v_def [symmetric] PHEROMONE_INIT_def PHEROMONE_MIN_def
    by (simp only: simp_thms)
qed

theorem global_pheromone_attenuation_rounded_witness:
  "PHEROMONE_MIN \<le> pheromone (GameInfo_new 0) 0 0 0
   \<and> pheromone (GameInfo_new 0) 0 0 0 \<le> 1024
   \<and> to_double (pheromone (GameInfo_new 0) 0 0 0) = pheromone (GameInfo_new 0) 0 0 0
   \<and> pheromone (GameInfo_new 0) 0 0 0 \<le> PHEROMONE_INIT
   \<and> \<bar>pheromone (global_pheromone_attenuation (GameInfo_new 0)) 0 0 0 - 8.06\<bar> \<le> 1 / 2 ^ 42
   \<and> \<bar>pheromone ((global_pheromone_attenuation ^^ 2) (GameInfo_new 0)) 0 0 0 - 10\<bar>
       \<le> 0.97 ^ 2 * 2 + 1 / 2 ^ 36
   \<and> pheromone (global_pheromone_attenuation (GameInfo_new 0)) 0 0 0 \<le> PHEROMONE_INIT
   \<and> PHEROMONE_MIN \<le> pheromone ((global_pheromone_attenuation ^^ 2) (GameInfo_new 0)) 0 0 0
   \<and> pheromone baseline_info 0 0 0 = PHEROMONE_INIT
   \<and> PHEROMONE_INIT \<le> pheromone baseline_info 0 0 0
   \<and> pheromone (global_pheromone_attenuation baseline_info) 0 0 0 = PHEROMONE_INIT"
proof -
  have start: "pheromone (GameInfo_new 0) 0 0 0 = 8"
    by (simp add: pheromone_new_zero MAP_SIZE_def EDGE_def)
  have base: "pheromone baseline_info 0 0 0 = PHEROMONE_INIT"
    by (simp add: baseline_info_def)
  have hyps: "PHEROMONE_MIN \<le> (8::real)" "(8::real) \<le> 1024" "to_double 8 = 8"
    "8 \<le> PHEROMONE_INIT" "PHEROMONE_INIT \<le> PHEROMONE_INIT"
    by (simp_all add: PHEROMONE_MIN_def PHEROMONE_INIT_def)
  have "\<bar>pheromone (global_pheromone_attenuation (GameInfo_new 0)) 0 0 0 - (0.97 * 8 + 0.03 * 10)\<bar>
          \<le> 1 / 2 ^ 42
      \<and> \<bar>pheromone ((global_pheromone_attenuation ^^ 2) (GameInfo_new 0)) 0 0 0 - PHEROMONE_INIT\<bar>
          \<le> 0.97 ^ 2 * \<bar>8 - PHEROMONE_INIT\<bar> + 1 / 2 ^ 36
      \<and> pheromone (global_pheromone_attenuation (GameInfo_new 0)) 0 0 0 \<le> PHEROMONE_INIT
      \<and> PHEROMONE_MIN \<le> pheromone ((global_pheromone_attenuation ^^ 2) (GameInfo_new 0)) 0 0 0
      \<and> pheromone (global_pheromone_attenuation baseline_info) 0 0 0 = PHEROMONE_INIT"
    using global_pheromone_attenuation_rounded [OF first_cell, of "GameInfo_new 0" 2]
      global_pheromone_attenuation_rounded [OF first_cell, of baseline_info 0] hyps
    unfolding start base
    by blast
  thus ?thesis
    unfolding start base using hyps by (simp add: PHEROMONE_INIT_def)
qed

text \<open>
  The first attenuation of the state built by \<open>GameInfo(0)\<close>, where every cell holds 8,
  gives the double next to 8.06: neither \<open>0.97 * 8 + 0.03 * 10\<close> nor at distance
  \<open>0.97 * 2\<close> from the baseline. In the state built by \<open>GameInfo(176057759362203)\<close> the
  first cell holds \<open>10 - 2^-46\<close>, which the attenuation leaves where it is: the
  distance to the baseline does not shrink and the iteration does not reach it.
\<close>

theorem global_pheromone_attenuation_counterexample:
  "\<bar>pheromone (global_pheromone_attenuation (GameInfo_new 0)) 0 0 0 - 10\<bar>
     \<noteq> 0.97 * \<bar>pheromone (GameInfo_new 0) 0 0 0 - 10\<bar>
   \<and> pheromone (global_pheromone_attenuation (GameInfo_new 0)) 0 0 0
     \<noteq> 0.97 * pheromone (GameInfo_new 0) 0 0 0 + 0.03 * 10
   \<and> pheromone stuck_info 0 0 0 \<noteq> 10
   \<and> \<bar>pheromone (global_pheromone_attenuation stuck_info) 0 0 0 - 10\<bar>
     = \<bar>pheromone stuck_info 0 0 0 - 10\<bar>"
proof -
  have start: "pheromone (GameInfo_new 0) 0 0 0 = 8"
    by (simp add: pheromone_new_zero MAP_SIZE_def EDGE_def)
  have one: "pheromone (global_pheromone_attenuation (GameInfo_new 0)) 0 0 0
               = 4537376624575775 / 562949953421312"
    by (simp only: attenuation_cell [OF first_cell] start attenuated_8)
  have stay: "pheromone (global_pheromone_attenuation stuck_info) 0 0 0 = 10 - 1 / 2 ^ 46"
    by (simp only: attenuation_cell [OF first_cell] stuck_cell attenuated_stuck)
  show ?thesis
    unfolding one start stay stuck_cell by simp
qed
section \<open>The round cap\<close>

text \<open>
  C2. When the round counter equals \<open>MAX_ROUND = 512\<close>, \<open>next_round\<close> returns at once
  and leaves the simulator as it is (no combat, no movement): the verdict is
  \<open>Player1Win\<close> when base 0 has less HP than base 1, \<open>Player0Win\<close> when it has more,
  and \<open>Undecided\<close> when both have the same.
\<close>

theorem next_round_at_round_cap:
  assumes "cur_round (info s) = MAX_ROUND"
  shows "next_round s =
     Some ((if b_hp (bases (info s) 0) < b_hp (bases (info s) 1) then Player1Win
            else if b_hp (bases (info s) 0) > b_hp (bases (info s) 1) then Player0Win
            else Undecided), s)"
  using assms by (simp add: next_round_def judge_winner_def)

theorem next_round_at_round_cap_witness:
  "cur_round (info \<lparr>info = (update_base_hp (GameInfo_new 0) 0 (-1))\<lparr>cur_round := 512\<rparr>, operations = (\<lambda>p. [])\<rparr>) = MAX_ROUND
   \<and> next_round \<lparr>info = (update_base_hp (GameInfo_new 0) 0 (-1))\<lparr>cur_round := 512\<rparr>, operations = (\<lambda>p. [])\<rparr>
       = Some (Player1Win, \<lparr>info = (update_base_hp (GameInfo_new 0) 0 (-1))\<lparr>cur_round := 512\<rparr>, operations = (\<lambda>p. [])\<rparr>)"
proof -
  have r: "cur_round (info \<lparr>info = (update_base_hp (GameInfo_new 0) 0 (-1))\<lparr>cur_round := 512\<rparr>, operations = (\<lambda>p. [])\<rparr>) = MAX_ROUND"
    by (simp add: MAX_ROUND_def)
  show ?thesis
    using next_round_at_round_cap [OF r] r
    by (simp add: update_base_hp_def GameInfo_new_def Base_new_def MAX_HP_def)
qed

section \<open>One hit\<close>

text \<open>
  The code writes the damage of a tower from \<open>TOWER_INFO\<close> only (in \<open>upgrade\<close>, in
  \<open>downgrade\<close> and at the end of every turn of \<open>attack_ants\<close>), and \<open>max_hp\<close> reads
  \<open>MAX_HP_INFO\<close> at the levels 0, 1 and 2. For these damages and levels the integer
  quotient \<open>max_hp() / 2\<close> of the code and the exact half give the same answer, and no
  damage is 0.
\<close>

lemma table_damage_half:
  assumes "a_level ant = 0 \<or> a_level ant = 1 \<or> a_level ant = 2"
  shows "(info_attack (TOWER_INFO ty) < max_hp ant sdiv 2)
           = (real_of_int (info_attack (TOWER_INFO ty)) < real_of_int (max_hp ant) / 2)"
  using assms
  by (cases ty) (auto simp: info_attack_def max_hp_def MAX_HP_INFO_def signed_divide_int_def)

lemma table_damage_pos: "0 < info_attack (TOWER_INFO ty)"
  by (cases ty) (simp_all add: info_attack_def)

lemma Tower_new_damage:
  "t_damage (Tower_new i p x y ty cd) = info_attack (TOWER_INFO (t_type (Tower_new i p x y ty cd)))"
  by (simp add: Tower_new_def upgrade_def reset_cd_def)

text \<open>
  C5. Take a tower whose damage is the one of its type in \<open>TOWER_INFO\<close> and an ant of
  level 0, 1 or 2. A hit on the ant with no evasion charge and the deflector flag set
  deals no damage (and changes nothing) exactly when the tower's damage is less than
  half of the ant's maximal HP; otherwise the ant loses the full damage. A hit on an
  ant with a positive evasion counter deals no damage and only lowers the counter by
  one.
\<close>

theorem action_deflector_and_evasion:
  assumes "t_damage t = info_attack (TOWER_INFO (t_type t))"
    and "a_level ant = 0 \<or> a_level ant = 1 \<or> a_level ant = 2"
  shows "(\<not> 0 < a_evasion ant \<and> a_deflector ant \<longrightarrow>
            action t ant =
              (if real_of_int (t_damage t) < real_of_int (max_hp ant) / 2 then ant
               else (let hit = ant\<lparr>a_hp := a_hp ant - t_damage t\<rparr>;
                         hit' = (if t_type t = Ice then hit\<lparr>a_state := Frozen\<rparr> else hit)
                     in if a_hp hit' \<le> 0 then hit'\<lparr>a_state := Fail\<rparr> else hit'))
          \<and> a_hp (action t ant)
              = (if real_of_int (t_damage t) < real_of_int (max_hp ant) / 2 then a_hp ant
                 else a_hp ant - t_damage t)
          \<and> (a_hp (action t ant) = a_hp ant
              \<longleftrightarrow> real_of_int (t_damage t) < real_of_int (max_hp ant) / 2))
       \<and> (0 < a_evasion ant \<longrightarrow>
            action t ant = ant\<lparr>a_evasion := a_evasion ant - 1\<rparr>
            \<and> a_hp (action t ant) = a_hp ant)"
proof -
  have half: "(t_damage t < max_hp ant sdiv 2)
                = (real_of_int (t_damage t) < real_of_int (max_hp ant) / 2)"
    unfolding assms(1) by (rule table_damage_half [OF assms(2)])
  have pos: "0 < t_damage t"
    unfolding assms(1) by (rule table_damage_pos)
  show ?thesis
    using pos unfolding half [symmetric] by (simp add: action_def Let_def)
qed

theorem action_deflector_and_evasion_witness:
  "t_damage (Tower_new 0 0 4 2 Basic 0) = info_attack (TOWER_INFO (t_type (Tower_new 0 0 4 2 Basic 0)))
   \<and> t_damage (Tower_new 0 0 4 2 Heavy 0) = info_attack (TOWER_INFO (t_type (Tower_new 0 0 4 2 Heavy 0)))
   \<and> a_level (Ant_new 0 1 3 2 25 1 0 Alive) = 1
   \<and> a_hp (action (Tower_new 0 0 4 2 Basic 0) ((Ant_new 0 1 3 2 25 1 0 Alive)\<lparr>a_deflector := True\<rparr>)) = 25
   \<and> a_hp (action (Tower_new 0 0 4 2 Heavy 0) ((Ant_new 0 1 3 2 25 1 0 Alive)\<lparr>a_deflector := True\<rparr>)) = 10
   \<and> action (Tower_new 0 0 4 2 Heavy 0) ((Ant_new 0 1 3 2 25 1 0 Alive)\<lparr>a_evasion := 2\<rparr>)
       = (Ant_new 0 1 3 2 25 1 0 Alive)\<lparr>a_evasion := 1\<rparr>"
proof -
  have lv: "a_level ((Ant_new 0 1 3 2 25 1 0 Alive)\<lparr>a_deflector := True\<rparr>) = 0
            \<or> a_level ((Ant_new 0 1 3 2 25 1 0 Alive)\<lparr>a_deflector := True\<rparr>) = 1
            \<or> a_level ((Ant_new 0 1 3 2 25 1 0 Alive)\<lparr>a_deflector := True\<rparr>) = 2"
    "a_level ((Ant_new 0 1 3 2 25 1 0 Alive)\<lparr>a_evasion := 2\<rparr>) = 0
     \<or> a_level ((Ant_new 0 1 3 2 25 1 0 Alive)\<lparr>a_evasion := 2\<rparr>) = 1
     \<or> a_level ((Ant_new 0 1 3 2 25 1 0 Alive)\<lparr>a_evasion := 2\<rparr>) = 2"
    by (simp_all add: Ant_new_def)
  show ?thesis
    using action_deflector_and_evasion [OF Tower_new_damage lv(1), of 0 0 4 2 Basic 0]
      action_deflector_and_evasion [OF Tower_new_damage lv(1), of 0 0 4 2 Heavy 0]
      action_deflector_and_evasion [OF Tower_new_damage lv(2), of 0 0 4 2 Heavy 0]
    by (simp add: max_hp_def Ant_new_def MAX_HP_INFO_def Tower_new_def upgrade_def
        reset_cd_def info_attack_def)
qed
section \<open>Affordability\<close>

lemma trunc_of_int [simp]: "trunc (of_int z) = z"
  by (simp add: trunc_def)

lemma build_tower_cost_values:
  "build_tower_cost 0 = 15" "build_tower_cost 1 = 30" "build_tower_cost 2 = 60"
  by (simp_all add: build_tower_cost_def TOWER_BUILD_PRICE_BASE_def TOWER_BUILD_PRICE_RATIO_def
      trunc_def)

lemma loop_refines_spec:
  "spec_balance g p ops (income + c) n
     = map_option (\<lambda>(i, n'). (i + c, n')) (check_affordable_loop g p ops income n)"
proof (induction ops arbitrary: income n)
  case Nil
  show ?case by simp
next
  case (Cons op ops)
  have shift: "\<And>d. income + c + d = (income + d) + c" by simp
  show ?case
  proof (cases "op_type op")
    case BuildTower
    then show ?thesis
      using Cons [of "income - build_tower_cost n" "n + 1"]
      by (simp add: spec_op_delta_def diff_add_eq)
  next
    case DowngradeTower
    show ?thesis
    proof (cases "tower_of_id g (arg0 op)")
      case None
      then show ?thesis using DowngradeTower by (simp add: spec_op_delta_def)
    next
      case (Some t)
      then show ?thesis
        using DowngradeTower Cons [of "income + destroy_tower_income n" "n - 1"]
          Cons [of "income + downgrade_tower_income (tower_type_code (t_type t))" n]
        by (simp add: spec_op_delta_def shift)
    qed
  qed (use Cons in \<open>simp_all add: spec_op_delta_def shift split: option.splits\<close>)
qed

lemma check_affordable_spec: "check_affordable g p ops = spec_affordable g p ops"
  using loop_refines_spec [of g p ops 0 "coins g p" "tower_num_of_player g p"]
  by (simp add: check_affordable_def spec_affordable_def split: option.splits prod.splits)

lemma three_builds_loop:
  assumes "op_type b1 = BuildTower" "op_type b2 = BuildTower" "op_type b3 = BuildTower"
  shows "check_affordable_loop g p [b1, b2] 0 0 = Some (- 45, 2)"
    and "check_affordable_loop g p [b1, b2, b3] 0 0 = Some (- 105, 3)"
  using assms by (simp_all add: build_tower_cost_values)


lemma add_operation_unaffordable:
  assumes "operations s p = ops"
    and "\<not> (op_type op = BuildTower \<and> has_build_tower_operation_at s p (arg0 op) (arg1 op))"
    and "\<not> ((op_type op = UpgradeTower \<or> op_type op = DowngradeTower)
              \<and> has_upgrade_or_downgrade_tower_operation_of s p (arg0 op))"
    and "\<not> ((op_type op = UpgradeGeneratedAnt \<or> op_type op = UpgradeGenerationSpeed)
              \<and> has_base_related_operation s p)"
    and "is_operation_valid (info s) p op"
    and "check_affordable (info s) p (ops @ [op]) = Some False"
  shows "add_operation_of_player s p op = Some (False, s)"
proof -
  have "(operations s)(p := ops) = operations s"
    using assms(1) by auto
  then show ?thesis
    using assms by (simp add: add_operation_of_player_def Let_def)
qed

text \<open>
  C3. \<open>check_affordable\<close> is the fold of the specification: every staged
  \<open>BuildTower\<close> is charged \<open>build_tower_cost\<close> of the running tower count and raises
  the count, every staged \<open>DowngradeTower\<close> of a Basic tower is credited
  \<open>destroy_tower_income\<close> of the running count and lowers it, and the set is accepted
  exactly when the final balance is not negative. For a player with 50 coins and no
  tower, three staged builds cost 15, 30 and 60, 105 in all: two builds are affordable,
  the third is not, and \<open>add_operation_of_player\<close> rejects it although it is legal on
  its own.
\<close>

theorem check_affordable_running_tower_count:
  assumes "coins (info s) p = 50" and "tower_num_of_player (info s) p = 0"
    and "op_type b1 = BuildTower" and "op_type b2 = BuildTower" and "op_type b3 = BuildTower"
    and "is_operation_valid (info s) p b1" and "is_operation_valid (info s) p b2"
    and "is_operation_valid (info s) p b3"
    and "operations s p = [b1, b2]"
    and "(arg0 b3, arg1 b3) \<noteq> (arg0 b1, arg1 b1)" and "(arg0 b3, arg1 b3) \<noteq> (arg0 b2, arg1 b2)"
  shows "check_affordable g q ops = spec_affordable g q ops
       \<and> build_tower_cost 0 = 15 \<and> build_tower_cost 1 = 30 \<and> build_tower_cost 2 = 60
       \<and> check_affordable_loop (info s) p [b1, b2, b3] 0 0 = Some (- 105, 3)
       \<and> check_affordable (info s) p [b1] = Some True
       \<and> check_affordable (info s) p [b1, b2] = Some True
       \<and> check_affordable (info s) p [b1, b2, b3] = Some False
       \<and> add_operation_of_player s p b3 = Some (False, s)"
proof -
  have loop3: "check_affordable_loop (info s) p [b1, b2, b3] 0 0 = Some (- 105, 3)"
    using assms(3-5) by (simp add: build_tower_cost_values)
  have one: "check_affordable (info s) p [b1] = Some True"
    using assms(1-3) by (simp add: check_affordable_def build_tower_cost_values)
  have two: "check_affordable (info s) p [b1, b2] = Some True"
    using assms(1-4) by (simp add: check_affordable_def build_tower_cost_values)
  have three: "check_affordable (info s) p [b1, b2, b3] = Some False"
    using assms(1-5) by (simp add: check_affordable_def build_tower_cost_values)
  have no_collision: "\<not> (op_type b3 = BuildTower \<and> has_build_tower_operation_at s p (arg0 b3) (arg1 b3))"
    using assms(9-11) by (auto simp: has_build_tower_operation_at_def)
  have rejected: "add_operation_of_player s p b3 = Some (False, s)"
    using add_operation_unaffordable [OF assms(9) no_collision _ _ assms(8)] three assms(5)
    by simp
  show ?thesis
    using check_affordable_spec build_tower_cost_values loop3 one two three rejected by simp
qed

lemma is_highland_examples: "is_highland 0 5 9" "is_highland 0 5 3" "is_highland 0 5 15"
  by (simp_all add: is_highland_def MAP_SIZE_def EDGE_def MAP_PROPERTY_def Player0Highland_def)

theorem check_affordable_running_tower_count_witness:
  "check_affordable (GameInfo_new 0) 0 [build_op 5 9, build_op 5 3] = Some True
   \<and> check_affordable (GameInfo_new 0) 0 [build_op 5 9, build_op 5 3, build_op 5 15] = Some False
   \<and> is_operation_valid (GameInfo_new 0) 0 (build_op 5 15)
   \<and> add_operation_of_player
        \<lparr>info = GameInfo_new 0, operations = (\<lambda>p. [])(0 := [build_op 5 9, build_op 5 3])\<rparr> 0 (build_op 5 15)
       = Some (False, \<lparr>info = GameInfo_new 0, operations = (\<lambda>p. [])(0 := [build_op 5 9, build_op 5 3])\<rparr>)"
proof -
  let ?s = "\<lparr>info = GameInfo_new 0, operations = (\<lambda>p. [])(0 := [build_op 5 9, build_op 5 3])\<rparr>"
  have valid: "is_operation_valid (info ?s) 0 (build_op x y) = is_highland 0 x y" for x y
    by (simp add: is_operation_valid_def build_op_def GameInfo_new_def tower_at_def
        is_shielded_by_emp_def)
  have c: "coins (info ?s) 0 = 50" and n: "tower_num_of_player (info ?s) 0 = 0"
    by (simp_all add: GameInfo_new_def COIN_INIT_def tower_num_of_player_def)
  have t: "op_type (build_op x y) = BuildTower" for x y
    by (simp add: build_op_def)
  have v1: "is_operation_valid (info ?s) 0 (build_op 5 9)"
    and v2: "is_operation_valid (info ?s) 0 (build_op 5 3)"
    and v3: "is_operation_valid (info ?s) 0 (build_op 5 15)"
    unfolding valid by (rule is_highland_examples)+
  have ops: "operations ?s 0 = [build_op 5 9, build_op 5 3]" by simp
  have d1: "(arg0 (build_op 5 15), arg1 (build_op 5 15)) \<noteq> (arg0 (build_op 5 9), arg1 (build_op 5 9))"
    and d2: "(arg0 (build_op 5 15), arg1 (build_op 5 15)) \<noteq> (arg0 (build_op 5 3), arg1 (build_op 5 3))"
    by (simp_all add: build_op_def)
  have sel: "info ?s = GameInfo_new 0" by simp
  show ?thesis
    using check_affordable_running_tower_count [OF c n t t t v1 v2 v3 ops d1 d2] v3
    unfolding sel by blast
qed

section \<open>Staging an operation\<close>

lemma add_operation_failure_keeps_state:
  assumes "add_operation_of_player s p op = Some (False, s')"
  shows "s' = s"
proof -
  have "(operations s)(p := butlast (operations s p @ [op])) = operations s"
    by auto
  then show ?thesis
    using assms
    by (auto simp: add_operation_of_player_def Let_def split: if_splits option.splits)
qed

text \<open>
  C6. \<open>add_operation_of_player\<close> does not look for a staged use of the same super
  weapon: with 300 coins and one lightning storm staged, a second lightning storm is
  added. The overload of \<open>is_operation_valid\<close> that takes the staged operations
  rejects the same operation on the same state.
\<close>

theorem add_operation_same_weapon_twice:
  "add_operation_of_player rich_sim 0 storm_op
     = Some (True, rich_sim\<lparr>operations := (operations rich_sim)(0 := [storm_op, storm_op])\<rparr>)
   \<and> is_operation_valid_with (info rich_sim) 0 (operations rich_sim 0) storm_op = Some False"
proof -
  have pos: "is_valid_pos 9 9"
    by (simp add: is_valid_pos_def MAP_SIZE_def EDGE_def MAP_PROPERTY_def Void_def)
  have valid: "is_operation_valid (info rich_sim) 0 storm_op"
    using pos by (simp add: is_operation_valid_def storm_op_def rich_sim_def GameInfo_new_def)
  have afford: "check_affordable (info rich_sim) 0 [storm_op, storm_op] = Some True"
    by (simp add: check_affordable_def get_operation_income_def storm_op_def rich_sim_def
        use_super_weapon_cost_def sw_price_def)
  have ops: "operations rich_sim 0 = [storm_op]"
    by (simp add: rich_sim_def)
  have t: "op_type storm_op = UseLightningStorm"
    by (simp add: storm_op_def)
  have added: "add_operation_of_player rich_sim 0 storm_op
     = Some (True, rich_sim\<lparr>operations := (operations rich_sim)(0 := [storm_op, storm_op])\<rparr>)"
    using valid afford ops t by (simp add: add_operation_of_player_def Let_def)
  have sibling: "is_operation_valid_with (info rich_sim) 0 (operations rich_sim 0) storm_op = Some False"
    using ops t by (simp add: is_operation_valid_with_def)
  show ?thesis using added sibling by simp
qed

section \<open>Movement of an ant without an eligible direction\<close>

lemma next_move_no_eligible:
  assumes "\<forall>d\<in>{0, 1, 2, 3, 4, 5}. \<not> eligible ant d"
  shows "next_move g ant = 0"
proof -
  have row: "phero_row g ant d = (-1, -1)" if "d \<in> {0, 1, 2, 3, 4, 5}" for d
  proof -
    have "\<not> eligible ant d" using assms that by blast
    then show ?thesis by (simp add: phero_row_def Let_def)
  qed
  have rows: "map (phero_row g ant) [0, 1, 2, 3, 4, 5] = replicate 6 (-1, -1)"
    using row by (simp add: numeral_eq_Suc)
  show ?thesis
    unfolding next_move_def rows
    by (simp add: phero_less_def numeral_eq_Suc)
qed

lemma eligible_age: "eligible (ant\<lparr>a_age := n\<rparr>) d = eligible ant d"
  by (simp add: eligible_def)

lemma move_ant_nth:
  assumes "i < length (ants g)"
  shows "ants (snd (move_ant g i)) ! i =
     (let ant0 = ants g ! i;
          ant1 = ant0\<lparr>a_age := a_age ant0 + 1\<rparr>
      in if a_state ant1 = Fail then ant1
         else
           (let ant2 = (if a_age ant1 > AGE_LIMIT then ant1\<lparr>a_state := TooOld\<rparr> else ant1);
                ant3 = (if a_state ant2 = Alive then move ant2 (next_move g ant2) else ant2)
            in if a_x ant3 = fst (POSITION (lnot (a_player ant3)))
                  \<and> a_y ant3 = snd (POSITION (lnot (a_player ant3)))
               then ant3\<lparr>a_state := Success\<rparr>
               else (if a_state ant3 = Frozen then ant3\<lparr>a_state := Alive\<rparr> else ant3)))"
  using assms by (simp add: move_ant_def Let_def update_base_hp_def)

lemma move_ant_no_eligible:
  assumes "i < length (ants g)"
    and "a_state (ants g ! i) = Alive"
    and "\<forall>d\<in>{0, 1, 2, 3, 4, 5}. \<not> eligible (ants g ! i) d"
  shows "a_age (ants (snd (move_ant g i)) ! i) = a_age (ants g ! i) + 1
       \<and> a_x (ants (snd (move_ant g i)) ! i)
           = (if a_age (ants g ! i) + 1 > AGE_LIMIT then a_x (ants g ! i)
              else a_x (ants g ! i) + fst (offset (a_y (ants g ! i)) 0))
       \<and> a_y (ants (snd (move_ant g i)) ! i)
           = (if a_age (ants g ! i) + 1 > AGE_LIMIT then a_y (ants g ! i)
              else a_y (ants g ! i) + snd (offset (a_y (ants g ! i)) 0))
       \<and> a_path (ants (snd (move_ant g i)) ! i)
           = (if a_age (ants g ! i) + 1 > AGE_LIMIT then a_path (ants g ! i)
              else a_path (ants g ! i) @ [0])"
proof -
  have nm: "next_move g ((ants g ! i)\<lparr>a_age := a_age (ants g ! i) + 1\<rparr>) = 0"
    by (rule next_move_no_eligible) (use assms(3) in \<open>simp add: eligible_age\<close>)
  show ?thesis
    unfolding move_ant_nth [OF assms(1)]
    using assms(2) nm by (simp add: Let_def move_def)
qed


lemma next_move_pheromone:
  assumes "pheromone h = pheromone g"
  shows "next_move h ant = next_move g ant"
proof -
  have "phero_row h ant = phero_row g ant"
    by (rule ext) (simp add: phero_row_def Let_def assms)
  then show ?thesis by (simp add: next_move_def)
qed

lemma move_ant_frame:
  shows "length (ants (snd (move_ant g i))) = length (ants g)"
    and "j \<noteq> i \<Longrightarrow> ants (snd (move_ant g i)) ! j = ants g ! j"
    and "pheromone (snd (move_ant g i)) = pheromone g"
  by (simp_all add: move_ant_def Let_def update_base_hp_def)

lemma move_ant_verdict: "fst (move_ant g i) \<noteq> Some Running"
  by (simp add: move_ant_def Let_def)

lemma move_ant_local:
  assumes "i < length (ants g)" and "i < length (ants h)"
    and "ants h ! i = ants g ! i" and "pheromone h = pheromone g"
  shows "ants (snd (move_ant h i)) ! i = ants (snd (move_ant g i)) ! i"
  unfolding move_ant_nth [OF assms(1)] move_ant_nth [OF assms(2)] assms(3)
  by (simp add: Let_def next_move_pheromone [OF assms(4)])

lemma move_ants_from_frame:
  shows "length (ants (snd (move_ants_from g js))) = length (ants g)
       \<and> (i \<notin> set js \<longrightarrow> ants (snd (move_ants_from g js)) ! i = ants g ! i)
       \<and> pheromone (snd (move_ants_from g js)) = pheromone g"
proof (induction js arbitrary: g)
  case Nil
  show ?case by simp
next
  case (Cons j js)
  obtain v g1 where step: "move_ant g j = (v, g1)"
    by (cases "move_ant g j")
  have f1: "length (ants g1) = length (ants g)"
    and f2: "\<And>k. k \<noteq> j \<Longrightarrow> ants g1 ! k = ants g ! k"
    and f3: "pheromone g1 = pheromone g"
    using move_ant_frame [where g = g and i = j] step by simp_all
  show ?case
  proof (cases v)
    case None
    then have eq: "move_ants_from g (j # js) = move_ants_from g1 js"
      using step by simp
    show ?thesis
      unfolding eq using Cons [of g1] f1 f2 f3 by auto
  next
    case (Some verdict)
    then have eq: "move_ants_from g (j # js) = (verdict, g1)"
      using step by simp
    show ?thesis
      unfolding eq using f1 f2 f3 by auto
  qed
qed

lemma move_ants_from_nth:
  assumes "move_ants_from g js = (Running, g')"
    and "distinct js" and "i \<in> set js" and "\<forall>j\<in>set js. j < length (ants g)"
  shows "ants g' ! i = ants (snd (move_ant g i)) ! i"
  using assms
proof (induction js arbitrary: g)
  case Nil
  then show ?case by simp
next
  case (Cons j js)
  obtain v g1 where step: "move_ant g j = (v, g1)"
    by (cases "move_ant g j")
  have f1: "length (ants g1) = length (ants g)"
    and f2: "\<And>k. k \<noteq> j \<Longrightarrow> ants g1 ! k = ants g ! k"
    and f3: "pheromone g1 = pheromone g"
    using move_ant_frame [where g = g and i = j] step by simp_all
  have v: "v = None"
  proof (cases v)
    case (Some verdict)
    then have "verdict = Running" using Cons.prems(1) step by simp
    then show ?thesis using move_ant_verdict [of g j] step Some by simp
  qed simp
  then have rest: "move_ants_from g1 js = (Running, g')"
    using Cons.prems(1) step by simp
  show ?case
  proof (cases "i = j")
    case True
    then have "i \<notin> set js" using Cons.prems(2) by simp
    then have "ants g' ! i = ants g1 ! i"
      using move_ants_from_frame [of g1 js i] rest by simp
    then show ?thesis using True step by simp
  next
    case False
    then have i: "i \<in> set js" using Cons.prems(3) by simp
    have bound: "\<forall>k\<in>set js. k < length (ants g1)"
      using Cons.prems(4) f1 by simp
    have "ants g' ! i = ants (snd (move_ant g1 i)) ! i"
      using Cons.IH [OF rest _ i bound] Cons.prems(2) by simp
    also have "\<dots> = ants (snd (move_ant g i)) ! i"
    proof (rule move_ant_local)
      show "i < length (ants g)" using Cons.prems(4) i by simp
      show "i < length (ants g1)" using bound i by simp
      show "ants g1 ! i = ants g ! i" using f2 False by simp
      show "pheromone g1 = pheromone g" by (rule f3)
    qed
    finally show ?thesis .
  qed
qed

lemma move_ants_nth:
  assumes "fst (move_ants g) = Running" and "i < length (ants g)"
  shows "ants (snd (move_ants g)) ! i = ants (snd (move_ant g i)) ! i"
proof -
  have "move_ants_from g [0..<length (ants g)] = (Running, snd (move_ants g))"
    using assms(1) by (simp add: move_ants_def prod_eq_iff)
  then show ?thesis
    by (rule move_ants_from_nth) (use assms(2) in simp_all)
qed

lemma move_ants_no_eligible:
  assumes "fst (move_ants g) = Running"
    and "i < length (ants g)"
    and "a_state (ants g ! i) = Alive"
    and "\<forall>d\<in>{0, 1, 2, 3, 4, 5}. \<not> eligible (ants g ! i) d"
  shows "next_move g (ants g ! i) = 0
       \<and> a_age (ants (snd (move_ants g)) ! i) = a_age (ants g ! i) + 1
       \<and> a_x (ants (snd (move_ants g)) ! i)
           = (if a_age (ants g ! i) + 1 > AGE_LIMIT then a_x (ants g ! i)
              else a_x (ants g ! i) + fst (offset (a_y (ants g ! i)) 0))
       \<and> a_y (ants (snd (move_ants g)) ! i)
           = (if a_age (ants g ! i) + 1 > AGE_LIMIT then a_y (ants g ! i)
              else a_y (ants g ! i) + snd (offset (a_y (ants g ! i)) 0))
       \<and> a_path (ants (snd (move_ants g)) ! i)
           = (if a_age (ants g ! i) + 1 > AGE_LIMIT then a_path (ants g ! i)
              else a_path (ants g ! i) @ [0])"
  unfolding move_ants_nth [OF assms(1,2)]
  using move_ant_no_eligible [OF assms(2-4)] next_move_no_eligible [OF assms(4)]
  by simp

lemma boxed_not_eligible:
  "\<forall>d\<in>{0, 1, 2, 3, 4, 5}. \<not> eligible (Ant_new 0 0 0 0 10 0 0 Alive) d"
  by (simp add: eligible_def Ant_new_def offset_def OFFSET_def is_path_def MAP_SIZE_def
      EDGE_def MAP_PROPERTY_def Path_def signed_modulo_int_def)

lemma boxed_running: "fst (move_ants boxed_info) = Running"
proof -
  have "next_move boxed_info ((Ant_new 0 0 0 0 10 0 0 Alive)\<lparr>a_age := 1\<rparr>) = 0"
    by (rule next_move_no_eligible) (use boxed_not_eligible in \<open>simp add: eligible_age\<close>)
  then have "fst (move_ant boxed_info 0) = None"
    by (simp add: move_ant_def boxed_info_def Ant_new_def AGE_LIMIT_def move_def Let_def
        offset_def OFFSET_def signed_modulo_int_def POSITION_def lnot_def MAP_SIZE_def EDGE_def)
  then obtain g1 where step: "move_ant boxed_info 0 = (None, g1)"
    by (cases "move_ant boxed_info 0") simp
  have "move_ants boxed_info = move_ants_from boxed_info [0]"
    by (simp add: move_ants_def boxed_info_def)
  then show ?thesis
    using step by simp
qed

text \<open>
  C1, as the code has it. \<open>next_move\<close> has no result that says "stay": when no
  direction is eligible every row of \<open>phero\<close> holds \<open>-1\<close> and the maximum is row 0.
  So an Alive ant with no eligible direction, in a movement phase that is not cut short
  by a win, has its age incremented and, unless the new age exceeds \<open>AGE_LIMIT\<close> (then
  it becomes TooOld and stays), moves one cell along direction 0 and records 0 in its
  path.
\<close>

theorem boxed_ant_moves_along_direction_0:
  assumes "fst (move_ants g) = Running"
    and "i < length (ants g)"
    and "a_state (ants g ! i) = Alive"
    and "\<forall>d\<in>{0, 1, 2, 3, 4, 5}. \<not> eligible (ants g ! i) d"
  shows "next_move g (ants g ! i) = 0
       \<and> a_age (ants (snd (move_ants g)) ! i) = a_age (ants g ! i) + 1
       \<and> a_x (ants (snd (move_ants g)) ! i)
           = (if a_age (ants g ! i) + 1 > AGE_LIMIT then a_x (ants g ! i)
              else a_x (ants g ! i) + fst (offset (a_y (ants g ! i)) 0))
       \<and> a_y (ants (snd (move_ants g)) ! i)
           = (if a_age (ants g ! i) + 1 > AGE_LIMIT then a_y (ants g ! i)
              else a_y (ants g ! i) + snd (offset (a_y (ants g ! i)) 0))
       \<and> a_path (ants (snd (move_ants g)) ! i)
           = (if a_age (ants g ! i) + 1 > AGE_LIMIT then a_path (ants g ! i)
              else a_path (ants g ! i) @ [0])"
  using assms by (rule move_ants_no_eligible)

theorem boxed_ant_moves_along_direction_0_witness:
  "fst (move_ants boxed_info) = Running
   \<and> a_state (ants boxed_info ! 0) = Alive
   \<and> next_move boxed_info (ants boxed_info ! 0) = 0
   \<and> a_age (ants (snd (move_ants boxed_info)) ! 0) = 1
   \<and> a_x (ants (snd (move_ants boxed_info)) ! 0) = 0
   \<and> a_y (ants (snd (move_ants boxed_info)) ! 0) = 1
   \<and> a_path (ants (snd (move_ants boxed_info)) ! 0) = [0]"
proof -
  have a: "ants boxed_info ! 0 = Ant_new 0 0 0 0 10 0 0 Alive"
    by (simp add: boxed_info_def)
  have len: "0 < length (ants boxed_info)"
    by (simp add: boxed_info_def)
  have st: "a_state (ants boxed_info ! 0) = Alive"
    by (simp add: a Ant_new_def)
  have ne: "\<forall>d\<in>{0, 1, 2, 3, 4, 5}. \<not> eligible (ants boxed_info ! 0) d"
    unfolding a by (rule boxed_not_eligible)
  show ?thesis
    using boxed_ant_moves_along_direction_0 [OF boxed_running len st ne] boxed_running st
    by (simp add: a Ant_new_def AGE_LIMIT_def offset_def OFFSET_def signed_modulo_int_def)
qed

text \<open>
  C1 as stated fails: the ant below stands on the void cell \<open>(0, 0)\<close>, none of its six
  neighbours is a path cell, and the movement phase takes it to \<open>(0, 1)\<close> and records
  direction 0.
\<close>

theorem boxed_ant_moves_counterexample:
  "a_state (ants boxed_info ! 0) = Alive
   \<and> \<not> eligible (ants boxed_info ! 0) 0 \<and> \<not> eligible (ants boxed_info ! 0) 1
   \<and> \<not> eligible (ants boxed_info ! 0) 2 \<and> \<not> eligible (ants boxed_info ! 0) 3
   \<and> \<not> eligible (ants boxed_info ! 0) 4 \<and> \<not> eligible (ants boxed_info ! 0) 5
   \<and> (a_x (ants boxed_info ! 0), a_y (ants boxed_info ! 0)) = (0, 0)
   \<and> (a_x (ants (snd (move_ants boxed_info)) ! 0), a_y (ants (snd (move_ants boxed_info)) ! 0)) = (0, 1)
   \<and> a_path (ants boxed_info ! 0) = []
   \<and> a_path (ants (snd (move_ants boxed_info)) ! 0) = [0]"
proof -
  have a: "ants boxed_info ! 0 = Ant_new 0 0 0 0 10 0 0 Alive"
    by (simp add: boxed_info_def)
  have len: "0 < length (ants boxed_info)"
    by (simp add: boxed_info_def)
  have st: "a_state (ants boxed_info ! 0) = Alive"
    by (simp add: a Ant_new_def)
  have ne: "\<forall>d\<in>{0, 1, 2, 3, 4, 5}. \<not> eligible (ants boxed_info ! 0) d"
    unfolding a by (rule boxed_not_eligible)
  show ?thesis
    using move_ants_no_eligible [OF boxed_running len st ne] ne st
    by (simp add: a Ant_new_def AGE_LIMIT_def offset_def OFFSET_def signed_modulo_int_def)
qed

subsection \<open>On the map, an ant on the path always has an eligible direction\<close>

text \<open>
  Every path cell of \<open>MAP_PROPERTY\<close> has at least two neighbours that are path cells,
  and the last move excludes one direction at most. So the case of C1 arises only for
  an ant that stands off the path.
\<close>

lemma all_cells_checked:
  "list_all (\<lambda>x. list_all (\<lambda>y. is_path x y \<longrightarrow>
       2 \<le> length (filter (\<lambda>d. is_path (x + fst (offset y d)) (y + snd (offset y d))) [0..<6]))
     (map int [0..<19])) (map int [0..<19])"
  by code_simp


lemma in_board_range:
  assumes "0 \<le> x" and "x < MAP_SIZE"
  shows "x \<in> set (map int [0..<19])"
proof -
  have "nat x < 19" and "int (nat x) = x"
    using assms by (simp_all add: MAP_SIZE_def EDGE_def)
  then have "x \<in> int ` {0..<19}"
    by (metis atLeastLessThan_iff imageI le0)
  then show ?thesis by simp
qed

lemma path_cell_has_two_path_neighbours:
  assumes "is_path x y"
  shows "2 \<le> length (filter (\<lambda>d. is_path (x + fst (offset y d)) (y + snd (offset y d))) [0..<6])"
proof -
  have "0 \<le> x" "x < MAP_SIZE" "0 \<le> y" "y < MAP_SIZE"
    using assms by (auto simp: is_path_def split: if_splits)
  then have x: "x \<in> set (map int [0..<19])" and y: "y \<in> set (map int [0..<19])"
    by (simp_all only: in_board_range)
  show ?thesis
    using all_cells_checked x y assms unfolding list_all_iff by blast
qed

lemma reverse_injective:
  assumes "d1 < 6" and "d2 < 6" and "d1 \<noteq> d2"
  shows "(int d1 + 3) smod 6 \<noteq> (int d2 + 3) smod 6"
proof -
  have "(int d + 3) smod 6 = (int d + 3) mod 6" for d
    by (simp add: signed_modulo_int_def sgn_if)
  then show ?thesis
    using assms by presburger
qed

lemma ant_on_path_has_eligible_direction:
  assumes "is_path (a_x ant) (a_y ant)"
  shows "\<exists>d\<in>{0, 1, 2, 3, 4, 5}. eligible ant d"
proof -
  let ?P = "\<lambda>d. is_path (a_x ant + fst (offset (a_y ant) d)) (a_y ant + snd (offset (a_y ant) d))"
  let ?ds = "filter ?P [0..<6]"
  have two: "2 \<le> length ?ds"
    by (rule path_cell_has_two_path_neighbours [OF assms])
  have dist: "distinct ?ds" by simp
  obtain d1 d2 rest where ds: "?ds = d1 # d2 # rest"
    using two by (cases ?ds; cases "tl ?ds") auto
  have ne: "d1 \<noteq> d2"
    using dist unfolding ds by simp
  have mem: "d1 \<in> set ?ds" "d2 \<in> set ?ds"
    unfolding ds by simp_all
  then have p: "?P d1" "?P d2" and lt: "d1 < 6" "d2 < 6"
    by simp_all
  have "last (a_path ant) \<noteq> (int d1 + 3) smod 6 \<or> last (a_path ant) \<noteq> (int d2 + 3) smod 6"
    using reverse_injective [OF lt ne] by auto
  then have "eligible ant (int d1) \<or> eligible ant (int d2)"
    using p by (auto simp: eligible_def)
  moreover have "int d1 \<in> {0, 1, 2, 3, 4, 5}" "int d2 \<in> {0, 1, 2, 3, 4, 5}"
    using lt by auto
  ultimately show ?thesis by blast
qed

section \<open>Base HP over a round\<close>

lemma fold_preserves:
  assumes "\<And>x s. f (step x s) = f s"
  shows "f (fold step xs s) = f s"
  by (induction xs arbitrary: s) (simp_all add: assms)

lemma bases_update_coin [simp]: "bases (update_coin g p c) = bases g"
  by (simp add: update_coin_def)

lemma bases_tower_turn: "bases (tower_turn g i) = bases g"
proof -
  have award: "bases (fold (\<lambda>idx g'. if a_state (ants g' ! idx) = Fail
                                     then update_coin g' q (reward (ants g' ! idx))
                                     else g') targets h) = bases h" for q targets h
    by (rule fold_preserves) simp
  show ?thesis
    by (simp add: tower_turn_def Let_def award split: prod.splits)
qed

lemma bases_attack_ants: "bases (attack_ants g) = bases g"
proof -
  have "bases (fold (\<lambda>i g'. tower_turn g' i) is h) = bases h" for "is" h
    by (rule fold_preserves) (rule bases_tower_turn)
  then show ?thesis
    by (simp add: attack_ants_def Let_def)
qed

lemma lnot_cases: "lnot p = 0 \<or> lnot p = 1"
  by (simp add: lnot_def)

lemma move_ant_base_hp:
  assumes "1 \<le> b_hp (bases g 0)" and "1 \<le> b_hp (bases g 1)"
  shows "(fst (move_ant g i) = None \<longrightarrow>
            1 \<le> b_hp (bases (snd (move_ant g i)) 0) \<and> 1 \<le> b_hp (bases (snd (move_ant g i)) 1))
       \<and> 0 \<le> b_hp (bases (snd (move_ant g i)) 0) \<and> 0 \<le> b_hp (bases (snd (move_ant g i)) 1)"
  using assms lnot_cases [of "a_player (ants g ! i)"]
  by (auto simp: move_ant_def Let_def update_base_hp_def move_def)

lemma move_ants_from_base_hp:
  assumes "1 \<le> b_hp (bases g 0)" and "1 \<le> b_hp (bases g 1)"
  shows "(fst (move_ants_from g js) = Running \<longrightarrow>
            1 \<le> b_hp (bases (snd (move_ants_from g js)) 0)
            \<and> 1 \<le> b_hp (bases (snd (move_ants_from g js)) 1))
       \<and> 0 \<le> b_hp (bases (snd (move_ants_from g js)) 0)
       \<and> 0 \<le> b_hp (bases (snd (move_ants_from g js)) 1)"
  using assms
proof (induction js arbitrary: g)
  case Nil
  then show ?case by simp
next
  case (Cons j js)
  obtain v g1 where step: "move_ant g j = (v, g1)"
    by (cases "move_ant g j")
  note hp = move_ant_base_hp [OF Cons.prems, of j]
  show ?case
  proof (cases v)
    case None
    then have eq: "move_ants_from g (j # js) = move_ants_from g1 js"
      using step by simp
    have "1 \<le> b_hp (bases g1 0)" and "1 \<le> b_hp (bases g1 1)"
      using hp step None by simp_all
    then show ?thesis
      unfolding eq by (rule Cons.IH)
  next
    case (Some verdict)
    then have eq: "move_ants_from g (j # js) = (verdict, g1)"
      using step by simp
    have "verdict \<noteq> Running"
      using step Some by (auto simp: move_ant_def Let_def split: if_splits)
    then show ?thesis
      unfolding eq using hp step by simp
  qed
qed


lemma bases_update_pheromone:
  assumes "update_pheromone g ant = Some g'"
  shows "bases g' = bases g"
  using assms
  by (auto simp: update_pheromone_def Let_def split: if_splits prod.splits)

lemma bases_update_pheromone_list:
  assumes "update_pheromone_list g as = Some g'"
  shows "bases g' = bases g"
  using assms
proof (induction as arbitrary: g)
  case Nil
  then show ?case by simp
next
  case (Cons a as)
  then obtain g1 where g1: "update_pheromone g a = Some g1"
    and rest: "update_pheromone_list g1 as = Some g'"
    by (auto split: option.splits)
  show ?case
    using Cons.IH [OF rest] bases_update_pheromone [OF g1] by simp
qed

lemma bases_generate_ants: "bases (generate_ants g) = bases g"
  by (simp add: generate_ants_def generate_ant_of_def split: option.splits)

lemma next_round_keeps_base_hp:
  assumes "1 \<le> b_hp (bases (info s) 0)" and "1 \<le> b_hp (bases (info s) 1)"
    and "next_round s = Some (v, s')"
  shows "0 \<le> b_hp (bases (info s') 0) \<and> 0 \<le> b_hp (bases (info s') 1)"
proof (cases "cur_round (info s) = MAX_ROUND")
  case True
  then have "s' = s" using assms(3) by (simp add: next_round_def)
  then show ?thesis using assms(1,2) by simp
next
  case False
  obtain st g2 where mv: "move_ants (attack_ants (info s)) = (st, g2)"
    by (cases "move_ants (attack_ants (info s))")
  have start: "1 \<le> b_hp (bases (attack_ants (info s)) 0)" "1 \<le> b_hp (bases (attack_ants (info s)) 1)"
    using assms(1,2) by (simp_all add: bases_attack_ants)
  have hp: "(st = Running \<longrightarrow> 1 \<le> b_hp (bases g2 0) \<and> 1 \<le> b_hp (bases g2 1))
       \<and> 0 \<le> b_hp (bases g2 0) \<and> 0 \<le> b_hp (bases g2 1)"
    using move_ants_from_base_hp [OF start, of "[0..<length (ants (attack_ants (info s)))]"] mv
    by (simp add: move_ants_def)
  show ?thesis
  proof (cases "st = Running")
    case False
    then have "s' = s\<lparr>info := g2\<rparr>"
      using assms(3) \<open>cur_round (info s) \<noteq> MAX_ROUND\<close> mv by (simp add: next_round_def)
    then show ?thesis using hp by simp
  next
    case True
    then obtain g3 where g3: "update_pheromone_for_ants (global_pheromone_attenuation g2) = Some g3"
      and s': "info s' = count_down_super_weapons_cd
                 ((get_basic_income (get_basic_income (generate_ants (clear_dead_and_succeeded_ants g3)) 0) 1)
                    \<lparr>cur_round := cur_round (get_basic_income (get_basic_income
                        (generate_ants (clear_dead_and_succeeded_ants g3)) 0) 1) + 1\<rparr>)"
      using assms(3) \<open>cur_round (info s) \<noteq> MAX_ROUND\<close> mv
      by (auto simp: next_round_def Let_def split: option.splits)
    have "bases g3 = bases g2"
      using bases_update_pheromone_list [of "global_pheromone_attenuation g2" _ g3] g3
      by (simp add: update_pheromone_for_ants_def global_pheromone_attenuation_def)
    then have "bases (info s') = bases g2"
      unfolding s'
      by (simp add: count_down_super_weapons_cd_def get_basic_income_def bases_generate_ants
          clear_dead_and_succeeded_ants_def)
    then show ?thesis using hp by simp
  qed
qed

subsection \<open>An ant next to the enemy base\<close>

lemma pheromone_siege: "pheromone (siege_info h) = pheromone (GameInfo_new 0)"
  by (simp add: siege_info_def update_base_hp_def)

lemma siege_paths:
  "is_path 14 10" "\<not> is_path 14 9" "is_path 14 8" "\<not> is_path 15 8" "is_path 16 9" "\<not> is_path 15 10"
  by (simp_all add: is_path_def MAP_SIZE_def EDGE_def MAP_PROPERTY_def Path_def)

lemma offset_9:
  "offset 9 0 = (-1, 1)" "offset 9 1 = (-1, 0)" "offset 9 2 = (-1, -1)"
  "offset 9 3 = (0, -1)" "offset 9 4 = (1, 0)" "offset 9 5 = (0, 1)"
  "offset 9 (Suc 0) = (-1, 0)"
  by (simp_all add: offset_def OFFSET_def signed_modulo_int_def)

lemma siege_distances:
  "distance 15 9 16 9 = 1" "distance 14 10 16 9 = 2" "distance 14 8 16 9 = 2" "distance 16 9 16 9 = 0"
  by (simp_all add: distance_def signed_modulo_int_def signed_divide_int_def)


lemma target_of_player_0: "POSITION (lnot 0) = (16, 9)"
  by (simp add: POSITION_def lnot_def MAP_SIZE_def EDGE_def)

lemma position_1: "POSITION 1 = (16, 9)"
  by (simp add: POSITION_def MAP_SIZE_def EDGE_def)

lemma siege_ant_fields:
  "a_x ((Ant_new 0 0 15 9 10 0 0 Alive)\<lparr>a_age := 1\<rparr>) = 15"
  "a_y ((Ant_new 0 0 15 9 10 0 0 Alive)\<lparr>a_age := 1\<rparr>) = 9"
  "a_player ((Ant_new 0 0 15 9 10 0 0 Alive)\<lparr>a_age := 1\<rparr>) = 0"
  "a_path ((Ant_new 0 0 15 9 10 0 0 Alive)\<lparr>a_age := 1\<rparr>) = []"
  by (simp_all add: Ant_new_def)

lemma siege_eligible:
  "eligible ((Ant_new 0 0 15 9 10 0 0 Alive)\<lparr>a_age := 1\<rparr>) 0"
  "\<not> eligible ((Ant_new 0 0 15 9 10 0 0 Alive)\<lparr>a_age := 1\<rparr>) 1"
  "eligible ((Ant_new 0 0 15 9 10 0 0 Alive)\<lparr>a_age := 1\<rparr>) 2"
  "\<not> eligible ((Ant_new 0 0 15 9 10 0 0 Alive)\<lparr>a_age := 1\<rparr>) 3"
  "eligible ((Ant_new 0 0 15 9 10 0 0 Alive)\<lparr>a_age := 1\<rparr>) 4"
  "\<not> eligible ((Ant_new 0 0 15 9 10 0 0 Alive)\<lparr>a_age := 1\<rparr>) 5"
  unfolding eligible_def siege_ant_fields
  by (simp_all add: offset_9 siege_paths)

lemma siege_pheromone: "pheromone (siege_info h) 0 14 10 = 8" "pheromone (siege_info h) 0 14 8 = 8"
  "pheromone (siege_info h) 0 16 9 = 8"
  by (simp_all add: pheromone_siege pheromone_new_zero MAP_SIZE_def EDGE_def)

lemma ETA_values: "ETA ! nat (2 - 1 + ETA_OFFSET) = 3 / 4" "ETA ! nat (0 - 1 + ETA_OFFSET) = 5 / 4"
  by (simp_all add: ETA_def ETA_OFFSET_def)

lemma siege_row_0: "phero_row (siege_info h) ((Ant_new 0 0 15 9 10 0 0 Alive)\<lparr>a_age := 1\<rparr>) 0 = (6, 8)"
  unfolding phero_row_def Let_def siege_ant_fields target_of_player_0
  by (simp add: siege_eligible offset_9 siege_distances siege_pheromone ETA_def ETA_OFFSET_def)

lemma siege_row_1: "phero_row (siege_info h) ((Ant_new 0 0 15 9 10 0 0 Alive)\<lparr>a_age := 1\<rparr>) 1 = (-1, -1)"
  unfolding phero_row_def Let_def by (simp add: siege_eligible)

lemma siege_row_2: "phero_row (siege_info h) ((Ant_new 0 0 15 9 10 0 0 Alive)\<lparr>a_age := 1\<rparr>) 2 = (6, 8)"
  unfolding phero_row_def Let_def siege_ant_fields target_of_player_0
  by (simp add: siege_eligible offset_9 siege_distances siege_pheromone ETA_def ETA_OFFSET_def)

lemma siege_row_3: "phero_row (siege_info h) ((Ant_new 0 0 15 9 10 0 0 Alive)\<lparr>a_age := 1\<rparr>) 3 = (-1, -1)"
  unfolding phero_row_def Let_def by (simp add: siege_eligible)

lemma siege_row_4: "phero_row (siege_info h) ((Ant_new 0 0 15 9 10 0 0 Alive)\<lparr>a_age := 1\<rparr>) 4 = (10, 8)"
  unfolding phero_row_def Let_def siege_ant_fields target_of_player_0
  by (simp add: siege_eligible offset_9 siege_distances siege_pheromone ETA_def ETA_OFFSET_def)

lemma siege_row_5: "phero_row (siege_info h) ((Ant_new 0 0 15 9 10 0 0 Alive)\<lparr>a_age := 1\<rparr>) 5 = (-1, -1)"
  unfolding phero_row_def Let_def by (simp add: siege_eligible)

lemma siege_next_move:
  "next_move (siege_info h) ((Ant_new 0 0 15 9 10 0 0 Alive)\<lparr>a_age := 1\<rparr>) = 4"
  unfolding next_move_def
  by (simp add: siege_row_0 siege_row_1 siege_row_2 siege_row_3 siege_row_4 siege_row_5 phero_less_def)


lemma siege_attack_ants: "attack_ants (siege_info h) = siege_info h"
  by (simp add: attack_ants_def siege_info_def update_base_hp_def GameInfo_new_def
      is_shielded_by_deflector_def Ant_new_def)

lemma siege_bases:
  "b_hp (bases (siege_info h) 0) = 50" "b_hp (bases (siege_info h) 1) = h"
  by (simp_all add: siege_info_def update_base_hp_def GameInfo_new_def Base_new_def MAX_HP_def)

lemma siege_move_ant:
  "fst (move_ant (siege_info h) 0) = (if h - 1 \<le> 0 then Some Player0Win else None)"
  "b_hp (bases (snd (move_ant (siege_info h) 0)) 0) = 50"
  "b_hp (bases (snd (move_ant (siege_info h) 0)) 1) = h - 1"
proof -
  have a: "ants (siege_info h) ! 0 = Ant_new 0 0 15 9 10 0 0 Alive"
    by (simp add: siege_info_def)
  have step: "move ((Ant_new 0 0 15 9 10 0 0 Alive)\<lparr>a_age := 1\<rparr>) 4
      = (Ant_new 0 0 15 9 10 0 0 Alive)\<lparr>a_age := 1, a_path := [4], a_x := 16, a_y := 9\<rparr>"
    by (simp add: move_def Ant_new_def offset_9)
  have f: "a_age (Ant_new 0 0 15 9 10 0 0 Alive) + 1 = 1"
    "a_state ((Ant_new 0 0 15 9 10 0 0 Alive)\<lparr>a_age := 1\<rparr>) = Alive"
    "\<not> 1 > AGE_LIMIT"
    by (simp_all add: Ant_new_def AGE_LIMIT_def)
  have g: "a_x ((Ant_new 0 0 15 9 10 0 0 Alive)\<lparr>a_age := 1, a_path := [4], a_x := 16, a_y := 9\<rparr>) = 16"
    "a_y ((Ant_new 0 0 15 9 10 0 0 Alive)\<lparr>a_age := 1, a_path := [4], a_x := 16, a_y := 9\<rparr>) = 9"
    "a_player ((Ant_new 0 0 15 9 10 0 0 Alive)\<lparr>a_age := 1, a_path := [4], a_x := 16, a_y := 9\<rparr>) = 0"
    "a_player (Ant_new 0 0 15 9 10 0 0 Alive) = 0"
    by (simp_all add: Ant_new_def)
  show "fst (move_ant (siege_info h) 0) = (if h - 1 \<le> 0 then Some Player0Win else None)"
    unfolding move_ant_def Let_def a f
    by (simp add: f siege_next_move step g target_of_player_0 position_1 update_base_hp_def siege_bases lnot_def)
  show "b_hp (bases (snd (move_ant (siege_info h) 0)) 0) = 50"
    unfolding move_ant_def Let_def a f
    by (simp add: f siege_next_move step g target_of_player_0 position_1 update_base_hp_def siege_bases lnot_def)
  show "b_hp (bases (snd (move_ant (siege_info h) 0)) 1) = h - 1"
    unfolding move_ant_def Let_def a f
    by (simp add: f siege_next_move step g target_of_player_0 position_1 update_base_hp_def siege_bases lnot_def)
qed

lemma siege_next_round:
  assumes "h \<le> 1"
  shows "map_option fst (next_round \<lparr>info = siege_info h, operations = ops\<rparr>) = Some Player0Win"
    and "map_option (\<lambda>r. b_hp (bases (info (snd r)) 0)) (next_round \<lparr>info = siege_info h, operations = ops\<rparr>)
           = Some 50"
    and "map_option (\<lambda>r. b_hp (bases (info (snd r)) 1)) (next_round \<lparr>info = siege_info h, operations = ops\<rparr>)
           = Some (h - 1)"
proof -
  obtain v g1 where step: "move_ant (siege_info h) 0 = (v, g1)"
    by (cases "move_ant (siege_info h) 0")
  have v: "v = Some Player0Win" and hp0: "b_hp (bases g1 0) = 50" and hp1: "b_hp (bases g1 1) = h - 1"
    using siege_move_ant [of h] step assms by simp_all
  have "move_ants (siege_info h) = move_ants_from (siege_info h) [0]"
    by (simp add: move_ants_def siege_info_def)
  then have mv: "move_ants (siege_info h) = (Player0Win, g1)"
    using step v by simp
  have r: "cur_round (siege_info h) \<noteq> MAX_ROUND"
    by (simp add: siege_info_def update_base_hp_def GameInfo_new_def MAX_ROUND_def)
  have nr: "next_round \<lparr>info = siege_info h, operations = ops\<rparr>
              = Some (Player0Win, \<lparr>info = g1, operations = ops\<rparr>)"
    using r mv by (simp add: next_round_def siege_attack_ants)
  show "map_option fst (next_round \<lparr>info = siege_info h, operations = ops\<rparr>) = Some Player0Win"
    and "map_option (\<lambda>r. b_hp (bases (info (snd r)) 0)) (next_round \<lparr>info = siege_info h, operations = ops\<rparr>)
           = Some 50"
    and "map_option (\<lambda>r. b_hp (bases (info (snd r)) 1)) (next_round \<lparr>info = siege_info h, operations = ops\<rparr>)
           = Some (h - 1)"
    unfolding nr using hp0 hp1 by simp_all
qed

text \<open>
  C10, as the code has it. The movement phase lowers a base's HP by one for an ant that
  reaches it and returns the verdict as soon as that HP is not positive. So a round
  that starts with both bases at 1 HP or more ends with both at 0 HP or more.
\<close>

theorem next_round_base_hp_nonneg:
  assumes "1 \<le> b_hp (bases (info s) 0)" and "1 \<le> b_hp (bases (info s) 1)"
    and "next_round s = Some (v, s')"
  shows "0 \<le> b_hp (bases (info s') 0) \<and> 0 \<le> b_hp (bases (info s') 1)"
  using assms by (rule next_round_keeps_base_hp)

theorem next_round_base_hp_nonneg_witness:
  "1 \<le> b_hp (bases (siege_info 1) 0) \<and> 1 \<le> b_hp (bases (siege_info 1) 1)
   \<and> (\<exists>v s'. next_round \<lparr>info = siege_info 1, operations = (\<lambda>p. [])\<rparr> = Some (v, s')
        \<and> 0 \<le> b_hp (bases (info s') 0) \<and> 0 \<le> b_hp (bases (info s') 1))"
proof -
  let ?s = "\<lparr>info = siege_info 1, operations = (\<lambda>p. [])\<rparr>"
  have h0: "1 \<le> b_hp (bases (info ?s) 0)" and h1: "1 \<le> b_hp (bases (info ?s) 1)"
    by (simp_all add: siege_bases)
  obtain v s' where r: "next_round ?s = Some (v, s')"
    using siege_next_round(1) [of 1 "\<lambda>p. []"] by auto
  show ?thesis
    using next_round_base_hp_nonneg [OF h0 h1 r] r h0 h1 by auto
qed

text \<open>
  C10 as stated starts from HP \<open>\<ge> 0\<close>. With base 1 at 0 HP and an ant of player 0 next
  to it, the ant walks in, the HP becomes \<open>-1\<close>, and only then \<open>next_round\<close> returns.
\<close>

theorem next_round_base_hp_counterexample:
  "0 \<le> b_hp (bases (info \<lparr>info = siege_info 0, operations = (\<lambda>p. [])\<rparr>) 0)
   \<and> 0 \<le> b_hp (bases (info \<lparr>info = siege_info 0, operations = (\<lambda>p. [])\<rparr>) 1)
   \<and> map_option fst (next_round \<lparr>info = siege_info 0, operations = (\<lambda>p. [])\<rparr>) = Some Player0Win
   \<and> map_option (\<lambda>r. b_hp (bases (info (snd r)) 1))
         (next_round \<lparr>info = siege_info 0, operations = (\<lambda>p. [])\<rparr>) = Some (- 1)"
  using siege_next_round [of 0 "\<lambda>p. []"] by (simp add: siege_bases)

section \<open>Combat\<close>


lemma basic_info:
  "info_attack (TOWER_INFO Basic) = 5" "info_speed (TOWER_INFO Basic) = 2"
  "info_range (TOWER_INFO Basic) = 2"
  by (simp_all add: info_attack_def info_speed_def info_range_def)

lemma trunc_2: "trunc 2 = 2"
  by (simp add: trunc_def)


lemma basic_attack_one_target:
  assumes "t_type t = Basic" and "t_range t = 2" and "t_speed t = 2"
    and "t_cd t \<le> 1"
    and "is_attackable_from a (t_player t) (t_x t) (t_y t) 2"
  shows "attack t [a] = ([0], t\<lparr>t_cd := 2\<rparr>, [action (t\<lparr>t_cd := 0\<rparr>) a])"
proof -
  let ?t1 = "t\<lparr>t_cd := 0\<rparr>"
  have cd: "max (t_cd t - 1) 0 = 0" using assms(4) by simp
  have t1: "t_type ?t1 = Basic" "t_range ?t1 = 2" "t_speed ?t1 = 2"
    "t_player ?t1 = t_player t" "t_x ?t1 = t_x t" "t_y ?t1 = t_y t"
    using assms(1-3) by simp_all
  have seen: "get_attackable_ants ?t1 [a] (t_x t) (t_y t) 2 = [0]"
    using assms(5) by (simp add: get_attackable_ants_def)
  have targets: "find_targets ?t1 [a] (Suc 0) = [0]"
    by (simp add: find_targets_def t1 seen)
  have affected: "find_attackable ?t1 [a] [0] = [0]"
    by (simp add: find_attackable_def t1)
  have rounds: "attack_rounds ?t1 (Suc 0) (Suc 0) [a] [] = ([action ?t1 a], [0])"
    by (simp add: targets affected Let_def)
  have first: "t\<lparr>t_cd := max (t_cd t - 1) 0\<rparr> = ?t1"
    using cd by simp
  show ?thesis
    unfolding attack_def Let_def first
    by (simp add: t1 rounds reset_cd_def trunc_2 del: attack_rounds.simps)
qed


text \<open>
  A hit that the ant evades still counts: the ant only loses one evasion charge, and
  the tower's cooldown is reset.
\<close>

lemma evaded_hit_resets_cooldown:
  assumes "t_type t = Basic" and "t_range t = 2" and "t_speed t = 2"
    and "t_cd t \<le> 1"
    and "is_attackable_from a (t_player t) (t_x t) (t_y t) 2"
    and "0 < a_evasion a"
  shows "attack t [a] = ([0], t\<lparr>t_cd := 2\<rparr>, [a\<lparr>a_evasion := a_evasion a - 1\<rparr>])"
  using basic_attack_one_target [OF assms(1-5)] assms(6) by (simp add: action_def)

lemma attackable_deflector [simp]:
  "is_attackable_from (a\<lparr>a_deflector := d\<rparr>) p x y r = is_attackable_from a p x y r"
  by (simp add: is_attackable_from_def is_alive_def is_in_range_def)







section \<open>The lightning storm\<close>

lemma update_take_drop:
  assumes "n < length xs"
  shows "(map f (take n xs) @ drop n xs)[n := y] = map f (take n xs) @ y # drop (Suc n) xs"
proof -
  have "drop n xs = xs ! n # drop (Suc n) xs"
    using assms by (simp add: Cons_nth_drop_Suc)
  then show ?thesis
    using assms by (simp add: list_update_append)
qed

lemma nth_take_drop:
  assumes "n < length xs"
  shows "(map f (take n xs) @ drop n xs) ! n = xs ! n"
  using assms by (simp add: nth_append)

lemma storm_fold:
  assumes "n \<le> length (ants g)"
  shows "fold (\<lambda>i g'. storm_hit w g' i) [0..<n] g =
     g\<lparr>ants := map (\<lambda>a. if struck w a then a\<lparr>a_hp := 0, a_state := Fail\<rparr> else a) (take n (ants g))
                @ drop n (ants g),
       coins := (coins g)(w_player w :=
                   coins g (w_player w) + (\<Sum>a\<leftarrow>filter (struck w) (take n (ants g)). reward a))\<rparr>"
  using assms
proof (induction n)
  case 0
  show ?case by simp
next
  case (Suc n)
  then have n: "n < length (ants g)" by simp
  let ?f = "\<lambda>a. if struck w a then a\<lparr>a_hp := 0, a_state := Fail\<rparr> else a"
  let ?G = "g\<lparr>ants := map ?f (take n (ants g)) @ drop n (ants g),
       coins := (coins g)(w_player w :=
                   coins g (w_player w) + (\<Sum>a\<leftarrow>filter (struck w) (take n (ants g)). reward a))\<rparr>"
  have IH: "fold (\<lambda>i g'. storm_hit w g' i) [0..<n] g = ?G"
    by (rule Suc.IH) (use n in simp)
  have cur: "ants ?G ! n = ants g ! n"
    using nth_take_drop [OF n] by simp
  have tk: "take (Suc n) (ants g) = take n (ants g) @ [ants g ! n]"
    using n by (simp add: take_Suc_conv_app_nth)
  have dr: "drop n (ants g) = ants g ! n # drop (Suc n) (ants g)"
    using n by (simp add: Cons_nth_drop_Suc)
  have step: "storm_hit w ?G n =
     g\<lparr>ants := map ?f (take (Suc n) (ants g)) @ drop (Suc n) (ants g),
       coins := (coins g)(w_player w :=
                   coins g (w_player w) + (\<Sum>a\<leftarrow>filter (struck w) (take (Suc n) (ants g)). reward a))\<rparr>"
  proof (cases "struck w (ants g ! n)")
    case True
    then show ?thesis
      unfolding storm_hit_def Let_def cur tk
      using update_take_drop [OF n, of ?f] by (simp add: update_coin_def add.assoc)
  next
    case False
    then show ?thesis
      unfolding storm_hit_def Let_def cur tk
      using dr by simp
  qed
  have "fold (\<lambda>i g'. storm_hit w g' i) [0..<Suc n] g
          = storm_hit w (fold (\<lambda>i g'. storm_hit w g' i) [0..<n] g) n"
    by simp
  also have "\<dots> = storm_hit w ?G n"
    by (simp only: IH)
  finally show ?case
    by (simp only: step)
qed


lemma evasion_fold:
  assumes "n \<le> length (ants g)"
  shows "fold (\<lambda>i g'. evasion_grant w g' i) [0..<n] g =
     g\<lparr>ants := map (\<lambda>a. if weapon_in_range w (a_x a) (a_y a) \<and> a_player a = w_player w
                          then a\<lparr>a_evasion := 2\<rparr> else a) (take n (ants g))
                @ drop n (ants g)\<rparr>"
  using assms
proof (induction n)
  case 0
  show ?case by simp
next
  case (Suc n)
  then have n: "n < length (ants g)" by simp
  let ?f = "\<lambda>a. if weapon_in_range w (a_x a) (a_y a) \<and> a_player a = w_player w
                then a\<lparr>a_evasion := 2\<rparr> else a"
  let ?G = "g\<lparr>ants := map ?f (take n (ants g)) @ drop n (ants g)\<rparr>"
  have IH: "fold (\<lambda>i g'. evasion_grant w g' i) [0..<n] g = ?G"
    by (rule Suc.IH) (use n in simp)
  have cur: "ants ?G ! n = ants g ! n"
    using nth_take_drop [OF n] by simp
  have tk: "take (Suc n) (ants g) = take n (ants g) @ [ants g ! n]"
    using n by (simp add: take_Suc_conv_app_nth)
  have dr: "drop n (ants g) = ants g ! n # drop (Suc n) (ants g)"
    using n by (simp add: Cons_nth_drop_Suc)
  have step: "evasion_grant w ?G n =
     g\<lparr>ants := map ?f (take (Suc n) (ants g)) @ drop (Suc n) (ants g)\<rparr>"
  proof (cases "weapon_in_range w (a_x (ants g ! n)) (a_y (ants g ! n))
                \<and> a_player (ants g ! n) = w_player w")
    case True
    then show ?thesis
      unfolding evasion_grant_def Let_def cur tk
      using update_take_drop [OF n, of ?f] by simp
  next
    case False
    then show ?thesis
      unfolding evasion_grant_def Let_def cur tk
      using dr by auto
  qed
  have "fold (\<lambda>i g'. evasion_grant w g' i) [0..<Suc n] g
          = evasion_grant w (fold (\<lambda>i g'. evasion_grant w g' i) [0..<n] g) n"
    by simp
  also have "\<dots> = evasion_grant w ?G n"
    by (simp only: IH)
  finally show ?case
    by (simp only: step)
qed

lemma apply_lightning_storm:
  assumes "w_player w = p" and "w_type w = LightningStorm"
  shows "apply_super_weapon p w g =
     g\<lparr>ants := map (\<lambda>a. if struck w a then a\<lparr>a_hp := 0, a_state := Fail\<rparr> else a) (ants g),
       coins := (coins g)(p := coins g p + (\<Sum>a\<leftarrow>filter (struck w) (ants g). reward a))\<rparr>"
  using storm_fold [of "length (ants g)" g w] assms
  by (simp add: apply_super_weapon_def)

lemma apply_emergency_evasion:
  assumes "w_player w = p" and "w_type w = EmergencyEvasion"
  shows "apply_super_weapon p w g =
     g\<lparr>ants := map (\<lambda>a. if weapon_in_range w (a_x a) (a_y a) \<and> a_player a = w_player w
                          then a\<lparr>a_evasion := 2\<rparr> else a) (ants g)\<rparr>"
  using evasion_fold [of "length (ants g)" g w] assms
  by (simp add: apply_super_weapon_def)

lemma apply_other_weapon:
  assumes "w_player w \<noteq> p \<or> (w_type w \<noteq> LightningStorm \<and> w_type w \<noteq> EmergencyEvasion)"
  shows "apply_super_weapon p w g = g"
  using assms by (auto simp: apply_super_weapon_def)

lemma weapon_cases:
  fixes w :: SuperWeapon and p :: int
  obtains (storm) "w_player w = p" "w_type w = LightningStorm"
  | (evasion) "w_player w = p" "w_type w = EmergencyEvasion"
  | (other) "w_player w \<noteq> p \<or> (w_type w \<noteq> LightningStorm \<and> w_type w \<noteq> EmergencyEvasion)"
  by blast

lemma apply_keeps_keys:
  "map ant_key (ants (apply_super_weapon p w g)) = map ant_key (ants g)"
  by (rule weapon_cases [of w p])
     (simp_all add: apply_lightning_storm apply_emergency_evasion apply_other_weapon)

lemma apply_keeps_weapons:
  "super_weapons (apply_super_weapon p w g) = super_weapons g"
  by (rule weapon_cases [of w p])
     (simp_all add: apply_lightning_storm apply_emergency_evasion apply_other_weapon)

lemma apply_coins:
  "coins (apply_super_weapon p w g) p
     = coins g p + (if w_player w = p \<and> w_type w = LightningStorm
                    then (\<Sum>a\<leftarrow>filter (struck w) (ants g). reward a) else 0)"
  by (rule weapon_cases [of w p])
     (auto simp: apply_lightning_storm apply_emergency_evasion apply_other_weapon)

lemma apply_keeps_dead:
  assumes "i < length (ants g)"
    and "a_hp (ants g ! i) = 0 \<and> a_state (ants g ! i) = Fail"
  shows "a_hp (ants (apply_super_weapon p w g) ! i) = 0
       \<and> a_state (ants (apply_super_weapon p w g) ! i) = Fail"
  by (rule weapon_cases [of w p])
     (use assms in \<open>simp_all add: apply_lightning_storm apply_emergency_evasion apply_other_weapon\<close>)

lemma apply_strikes:
  assumes "w_player w = p" and "w_type w = LightningStorm"
    and "i < length (ants g)" and "struck w (ants g ! i)"
  shows "a_hp (ants (apply_super_weapon p w g) ! i) = 0
       \<and> a_state (ants (apply_super_weapon p w g) ! i) = Fail"
  using assms by (simp add: apply_lightning_storm)


lemma struck_key: "ant_key a = ant_key b \<Longrightarrow> struck w a = struck w b"
  by (simp add: struck_def)

lemma reward_key: "ant_key a = ant_key b \<Longrightarrow> reward a = reward b"
  by (simp add: reward_def)

lemma gain_key:
  assumes "map ant_key as = map ant_key bs"
  shows "(\<Sum>a\<leftarrow>filter (struck w) as. reward a) = (\<Sum>a\<leftarrow>filter (struck w) bs. reward a)"
  using assms
proof (induction as arbitrary: bs)
  case Nil
  then show ?case by simp
next
  case (Cons a as)
  then obtain b bs' where bs: "bs = b # bs'" and k: "ant_key a = ant_key b"
    and rest: "map ant_key as = map ant_key bs'"
    by (cases bs) auto
  show ?case
    using Cons.IH [OF rest] struck_key [OF k, of w] reward_key [OF k] bs by simp
qed

lemma nth_key:
  assumes "map ant_key as = map ant_key bs" and "i < length bs"
  shows "ant_key (as ! i) = ant_key (bs ! i)"
proof -
  have "length as = length bs"
    using assms(1) by (rule map_eq_imp_length_eq)
  then have "map ant_key as ! i = ant_key (as ! i)" "map ant_key bs ! i = ant_key (bs ! i)"
    using assms(2) by simp_all
  then show ?thesis using assms(1) by simp
qed

lemma fold_apply_keys:
  "map ant_key (ants (fold (apply_super_weapon p) ws g)) = map ant_key (ants g)"
  by (induction ws arbitrary: g) (simp_all add: apply_keeps_keys)

lemma fold_apply_coins:
  "coins (fold (apply_super_weapon p) ws g) p
     = coins g p + (\<Sum>w\<leftarrow>filter (\<lambda>w. w_player w = p \<and> w_type w = LightningStorm) ws.
                      \<Sum>a\<leftarrow>filter (struck w) (ants g). reward a)"
proof (induction ws arbitrary: g)
  case Nil
  show ?case by simp
next
  case (Cons w ws)
  have same: "(\<Sum>a\<leftarrow>filter (struck w') (ants (apply_super_weapon p w g)). reward a)
              = (\<Sum>a\<leftarrow>filter (struck w') (ants g). reward a)" for w'
    by (rule gain_key) (rule apply_keeps_keys)
  show ?case
    using Cons [of "apply_super_weapon p w g"] apply_coins [of p w g]
    by (simp add: same)
qed

lemma fold_keeps_dead:
  assumes "i < length (ants g)"
    and "a_hp (ants g ! i) = 0 \<and> a_state (ants g ! i) = Fail"
  shows "a_hp (ants (fold (apply_super_weapon p) ws g) ! i) = 0
       \<and> a_state (ants (fold (apply_super_weapon p) ws g) ! i) = Fail"
  using assms
proof (induction ws arbitrary: g)
  case Nil
  then show ?case by simp
next
  case (Cons w ws)
  have len: "i < length (ants (apply_super_weapon p w g))"
    using map_eq_imp_length_eq [OF apply_keeps_keys [of p w g]] Cons.prems(1) by simp
  show ?case
    using Cons.IH [OF len apply_keeps_dead [OF Cons.prems, of p w]] by simp
qed

lemma fold_strikes:
  assumes "w \<in> set ws" and "w_player w = p" and "w_type w = LightningStorm"
    and "i < length (ants g)" and "struck w (ants g ! i)"
  shows "a_hp (ants (fold (apply_super_weapon p) ws g) ! i) = 0
       \<and> a_state (ants (fold (apply_super_weapon p) ws g) ! i) = Fail"
  using assms(1,4,5)
proof (induction ws arbitrary: g)
  case Nil
  then show ?case by simp
next
  case (Cons w' ws)
  have keys: "map ant_key (ants (apply_super_weapon p w' g)) = map ant_key (ants g)"
    by (rule apply_keeps_keys)
  have len: "i < length (ants (apply_super_weapon p w' g))"
    using map_eq_imp_length_eq [OF keys] Cons.prems(2) by simp
  show ?case
  proof (cases "w = w'")
    case True
    have "a_hp (ants (apply_super_weapon p w' g) ! i) = 0
          \<and> a_state (ants (apply_super_weapon p w' g) ! i) = Fail"
      using apply_strikes [OF assms(2,3) Cons.prems(2,3)] True by simp
    then show ?thesis
      using fold_keeps_dead [OF len] by simp
  next
    case False
    then have mem: "w \<in> set ws" using Cons.prems(1) by simp
    have "struck w (ants (apply_super_weapon p w' g) ! i)"
      using struck_key [OF nth_key [OF keys Cons.prems(2)], of w] Cons.prems(3) by simp
    then show ?thesis
      using Cons.IH [OF mem len] by simp
  qed
qed

lemma count_down_append:
  "count_down_weapons p (xs @ ys) = count_down_weapons p xs @ count_down_weapons p ys"
  by (induction xs) (simp_all add: Let_def)

lemma count_down_iter_append:
  "(count_down_weapons p ^^ k) (xs @ ys)
     = (count_down_weapons p ^^ k) xs @ (count_down_weapons p ^^ k) ys"
  by (induction k) (simp_all add: count_down_append)

lemma count_down_iter_single:
  assumes "w_player w = p" and "0 < left_time w"
  shows "(count_down_weapons p ^^ k) [w]
     = (if int k < left_time w then [w\<lparr>left_time := left_time w - int k\<rparr>] else [])"
proof (induction k)
  case 0
  show ?case using assms(2) by simp
next
  case (Suc k)
  show ?case
    using Suc assms(1) by (auto simp: Let_def)
qed

lemma count_down_iter_info:
  "super_weapons (((\<lambda>g. count_down_super_weapons_left_time g p) ^^ k) g)
     = (count_down_weapons p ^^ k) (super_weapons g)"
  by (induction k) (simp_all add: count_down_super_weapons_left_time_def)

lemma storm_lasts_20_rounds:
  "super_weapons (((\<lambda>g. count_down_super_weapons_left_time g p) ^^ k)
       (use_super_weapon g LightningStorm p x y))
     = (count_down_weapons p ^^ k) (super_weapons g)
       @ (if k < 20 then [(SuperWeapon_new LightningStorm p x y)\<lparr>left_time := 20 - int k\<rparr>] else [])"
proof -
  have w: "w_player (SuperWeapon_new LightningStorm p x y) = p"
    "left_time (SuperWeapon_new LightningStorm p x y) = 20"
    by (simp_all add: SuperWeapon_new_def sw_duration_def)
  have "super_weapons (use_super_weapon g LightningStorm p x y)
          = super_weapons g @ [SuperWeapon_new LightningStorm p x y]"
    by (simp add: use_super_weapon_def)
  then show ?thesis
    unfolding count_down_iter_info
    using count_down_iter_single [of "SuperWeapon_new LightningStorm p x y" p k] w
    by (simp add: count_down_iter_append)
qed

text \<open>
  C9. Whenever \<open>apply_active_super_weapons\<close> runs for player \<open>p\<close> while a lightning
  storm of \<open>p\<close> is stored, every ant of another player in the range of the storm,
  whatever its state and HP, ends with HP 0 and state Fail, and the coins of \<open>p\<close> grow
  by the kill reward of every such ant, once for each storm of \<open>p\<close> that covers it.
  The stored weapons do not change, so this happens again in every round in which the
  storm is stored: a storm is created with 20 rounds left, \<open>k\<close> count-downs leave it
  with \<open>20 - k\<close> rounds while \<open>k < 20\<close>, and the twentieth erases it.
\<close>

theorem lightning_storm_kills_in_range:
  assumes "w \<in> set (super_weapons g)" and "w_player w = p" and "w_type w = LightningStorm"
    and "i < length (ants g)"
    and "weapon_in_range w (a_x (ants g ! i)) (a_y (ants g ! i))"
    and "a_player (ants g ! i) \<noteq> p"
  shows "a_hp (ants (apply_active_super_weapons g p) ! i) = 0
       \<and> a_state (ants (apply_active_super_weapons g p) ! i) = Fail
       \<and> coins (apply_active_super_weapons g p) p
           = coins g p
             + (\<Sum>w'\<leftarrow>filter (\<lambda>w'. w_player w' = p \<and> w_type w' = LightningStorm) (super_weapons g).
                  \<Sum>a\<leftarrow>filter (struck w') (ants g). reward a)
       \<and> super_weapons (apply_active_super_weapons g p) = super_weapons g
       \<and> super_weapons (((\<lambda>g. count_down_super_weapons_left_time g p) ^^ k)
              (use_super_weapon g' LightningStorm p x y))
           = (count_down_weapons p ^^ k) (super_weapons g')
             @ (if k < 20 then [(SuperWeapon_new LightningStorm p x y)\<lparr>left_time := 20 - int k\<rparr>]
                else [])"
proof -
  have hit: "struck w (ants g ! i)"
    using assms(2,5,6) by (simp add: struck_def)
  have dead: "a_hp (ants (apply_active_super_weapons g p) ! i) = 0
       \<and> a_state (ants (apply_active_super_weapons g p) ! i) = Fail"
    unfolding apply_active_super_weapons_def
    by (rule fold_strikes [OF assms(1-4) hit])
  have kept: "super_weapons (fold (apply_super_weapon p) ws h) = super_weapons h" for ws h
    by (induction ws arbitrary: h) (simp_all add: apply_keeps_weapons)
  show ?thesis
    using dead fold_apply_coins [of p "super_weapons g" g] kept [of "super_weapons g" g]
      storm_lasts_20_rounds [where p = p and k = k and g = g' and x = x and y = y]
    by (simp add: apply_active_super_weapons_def)
qed

lemma storm_info_fields:
  "super_weapons storm_info = [SuperWeapon_new LightningStorm 0 9 9]"
  "ants storm_info = [(Ant_new 0 1 9 10 10 0 0 Alive)\<lparr>a_state := Frozen\<rparr>]"
  "coins storm_info 0 = 50"
  by (simp_all add: storm_info_def use_super_weapon_def GameInfo_new_def COIN_INIT_def)

lemma storm_info_in_range:
  "weapon_in_range (SuperWeapon_new LightningStorm 0 9 9) 9 10"
  by (simp add: weapon_in_range_def SuperWeapon_new_def sw_range_def sw_duration_def distance_def
      signed_modulo_int_def signed_divide_int_def)

theorem lightning_storm_kills_in_range_witness:
  "a_state (ants storm_info ! 0) = Frozen \<and> a_hp (ants storm_info ! 0) = 10
   \<and> a_hp (ants (apply_active_super_weapons storm_info 0) ! 0) = 0
   \<and> a_state (ants (apply_active_super_weapons storm_info 0) ! 0) = Fail
   \<and> coins (apply_active_super_weapons storm_info 0) 0 = 53"
proof -
  let ?w = "SuperWeapon_new LightningStorm 0 9 9"
  have w: "?w \<in> set (super_weapons storm_info)" "w_player ?w = 0" "w_type ?w = LightningStorm"
    by (simp_all add: storm_info_fields SuperWeapon_new_def)
  have i: "0 < length (ants storm_info)"
    by (simp add: storm_info_fields)
  have r: "weapon_in_range ?w (a_x (ants storm_info ! 0)) (a_y (ants storm_info ! 0))"
    using storm_info_in_range by (simp add: storm_info_fields Ant_new_def)
  have e: "a_player (ants storm_info ! 0) \<noteq> 0"
    by (simp add: storm_info_fields Ant_new_def)
  have s: "struck ?w ((Ant_new 0 1 9 10 10 0 0 Alive)\<lparr>a_state := Frozen\<rparr>)"
    using storm_info_in_range by (simp add: struck_def Ant_new_def SuperWeapon_new_def)
  have rw: "reward ((Ant_new 0 1 9 10 10 0 0 Alive)\<lparr>a_state := Frozen\<rparr>) = 3"
    by (simp add: reward_def Ant_new_def REWARD_INFO_def)
  show ?thesis
    using lightning_storm_kills_in_range [OF w i r e, where k = 0 and g' = storm_info and x = 0 and y = 0]
    by (simp add: storm_info_fields w s rw) (simp add: Ant_new_def)
qed

end
